(* ===== verification/Prelude.thy ===== *)
theory Prelude
  imports Complex_Main "HOL-Library.Char_ord"
begin

text \<open>
  Shared vocabulary of the development: the JavaScript values the server handles
  (request bodies, response bodies, the persisted student array), the JavaScript
  operators the handlers apply to them (truthiness, \<open>typeof\<close>, property reads,
  \<open>toLowerCase\<close>, \<open>Array.prototype.find\<close>, \<open>findIndex\<close>, \<open>splice\<close>), and the generic
  lemmas on lists that the component theories share.  JavaScript numbers are modelled
  as exact rationals (the values that decimal JSON and URL text denote); IEEE rounding is
  not modelled.
\<close>

named_theorems js_eval "equations evaluating the JavaScript operators of the model"

section \<open>JavaScript values\<close>

text \<open>
  The values a JSON body, a JSON file or a response body can hold, plus
  \<open>undefined\<close>, which property reads produce for missing keys.  An object is the
  association list of its own properties in insertion order.
\<close>

datatype jsval =
    JUndefined
  | JNull
  | JBool bool
  | JNum rat
  | JStr string
  | JArr "jsval list"
  | JObj "(string \<times> jsval) list"

type_synonym jsobj = "(string \<times> jsval) list"

text \<open>\<open>ToBoolean\<close>: the test behind \<open>!x\<close> and \<open>x || y\<close>.\<close>

fun js_truthy :: "jsval \<Rightarrow> bool" where
  "js_truthy JUndefined = False"
| "js_truthy JNull = False"
| "js_truthy (JBool b) = b"
| "js_truthy (JNum n) = (n \<noteq> 0)"
| "js_truthy (JStr s) = (s \<noteq> [])"
| "js_truthy (JArr _) = True"
| "js_truthy (JObj _) = True"

text \<open>The \<open>typeof\<close> operator.\<close>

fun js_typeof :: "jsval \<Rightarrow> string" where
  "js_typeof JUndefined = ''undefined''"
| "js_typeof JNull = ''object''"
| "js_typeof (JBool _) = ''boolean''"
| "js_typeof (JNum _) = ''number''"
| "js_typeof (JStr _) = ''string''"
| "js_typeof (JArr _) = ''object''"
| "js_typeof (JObj _) = ''object''"

text \<open>\<open>a || b\<close> on values.\<close>

definition js_or :: "jsval \<Rightarrow> jsval \<Rightarrow> jsval" where
  "js_or a b = (if js_truthy a then a else b)"

text \<open>
  Reading a property \<open>v.k\<close> (also what destructuring \<open>const {k} = v\<close> does).  An
  object built by \<open>JSON.parse\<close> keeps the last of duplicate keys, hence the lookup in the
  reversed list.  The keys the server reads (\<open>name\<close>, \<open>age\<close>, \<open>email\<close>,
  \<open>isActive\<close>, \<open>username\<close>, \<open>password\<close>, \<open>sessionId\<close>) are not properties of
  arrays or primitives, so every other value reads as \<open>undefined\<close>.
\<close>

definition js_prop :: "jsval \<Rightarrow> string \<Rightarrow> jsval" where
  "js_prop v k =
     (case v of
        JObj kvs \<Rightarrow> (case map_of (rev kvs) k of Some x \<Rightarrow> x | None \<Rightarrow> JUndefined)
      | _ \<Rightarrow> JUndefined)"

section \<open>Strings\<close>

text \<open>
  \<open>String.prototype.toLowerCase\<close> on the ASCII range: upper-case letters get bit 5
  set.  Strings are byte lists, so letters outside ASCII are left as they are.
\<close>

definition js_lower_char :: "char \<Rightarrow> char" where
  "js_lower_char c =
     (if CHR ''A'' \<le> c \<and> c \<le> CHR ''Z''
      then (case c of Char b0 b1 b2 b3 b4 b5 b6 b7 \<Rightarrow> Char b0 b1 b2 b3 b4 True b6 b7)
      else c)"

definition js_lower :: "string \<Rightarrow> string" where
  "js_lower s = map js_lower_char s"

text \<open>The predicate behind \<open>a.toLowerCase() === b.toLowerCase()\<close>.\<close>

definition same_ci :: "string \<Rightarrow> string \<Rightarrow> bool" where
  "same_ci a b \<longleftrightarrow> js_lower a = js_lower b"

section \<open>Arrays\<close>

text \<open>
  \<open>Array.prototype.findIndex\<close>: the index of the first element satisfying the
  predicate, or \<open>-1\<close>.  \<open>Array.prototype.find\<close> is \<^const>\<open>List.find\<close>.
\<close>

fun find_index_from :: "('a \<Rightarrow> bool) \<Rightarrow> 'a list \<Rightarrow> nat \<Rightarrow> int" where
  "find_index_from P [] i = -1"
| "find_index_from P (x # xs) i = (if P x then int i else find_index_from P xs (Suc i))"

definition js_find_index :: "('a \<Rightarrow> bool) \<Rightarrow> 'a list \<Rightarrow> int" where
  "js_find_index P xs = find_index_from P xs 0"

text \<open>\<open>xs.splice(i, 1)\<close>: the array without its \<open>i\<close>-th element.\<close>

definition remove_nth :: "nat \<Rightarrow> 'a list \<Rightarrow> 'a list" where
  "remove_nth i xs = take i xs @ drop (Suc i) xs"

text \<open>\<open>Array.prototype.join\<close> on the element strings.\<close>

fun join_sep :: "string \<Rightarrow> string list \<Rightarrow> string" where
  "join_sep sep [] = []"
| "join_sep sep [x] = x"
| "join_sep sep (x # y # zs) = x @ sep @ join_sep sep (y # zs)"

section \<open>Lemmas on the JavaScript operators\<close>

lemma js_lower_char_idem [simp]: "js_lower_char (js_lower_char c) = js_lower_char c"
  by (cases c) (auto simp: js_lower_char_def less_eq_char_def)

lemma js_lower_idem [simp]: "js_lower (js_lower s) = js_lower s"
  by (simp add: js_lower_def comp_def)

lemma length_js_lower [simp]: "length (js_lower s) = length s"
  by (simp add: js_lower_def)

lemma js_lower_Nil_iff [simp]: "js_lower s = [] \<longleftrightarrow> s = []"
  by (simp add: js_lower_def)

lemma js_lower_append [simp]: "js_lower (a @ b) = js_lower a @ js_lower b"
  by (simp add: js_lower_def)

lemma same_ci_refl [simp]: "same_ci a a"
  by (simp add: same_ci_def)

lemma same_ci_sym: "same_ci a b \<longleftrightarrow> same_ci b a"
  by (auto simp: same_ci_def)

lemma js_or_truthy [simp]: "js_truthy a \<Longrightarrow> js_or a b = a"
  and js_or_falsy [simp]: "\<not> js_truthy a \<Longrightarrow> js_or a b = b"
  by (simp_all add: js_or_def)

lemma js_prop_simps [simp, js_eval]:
  "js_prop JUndefined k = JUndefined" "js_prop JNull k = JUndefined"
  "js_prop (JBool b) k = JUndefined" "js_prop (JNum n) k = JUndefined"
  "js_prop (JStr s) k = JUndefined" "js_prop (JArr vs) k = JUndefined"
  "js_prop (JObj kvs) k = (case map_of (rev kvs) k of Some x \<Rightarrow> x | None \<Rightarrow> JUndefined)"
  by (simp_all add: js_prop_def)

lemma js_typeof_string_iff [simp]: "js_typeof v = ''string'' \<longleftrightarrow> (\<exists>s. v = JStr s)"
  by (cases v) simp_all

lemma js_typeof_number_iff [simp]: "js_typeof v = ''number'' \<longleftrightarrow> (\<exists>n. v = JNum n)"
  by (cases v) simp_all

lemma js_typeof_boolean_iff [simp]: "js_typeof v = ''boolean'' \<longleftrightarrow> (\<exists>b. v = JBool b)"
  by (cases v) simp_all

section \<open>Lemmas on findIndex and splice\<close>

lemma find_index_from_neg1_iff:
  "find_index_from P xs i = -1 \<longleftrightarrow> (\<forall>x\<in>set xs. \<not> P x)"
  by (induction xs arbitrary: i) auto

lemma find_index_from_found:
  "find_index_from P xs i \<noteq> -1 \<Longrightarrow>
     \<exists>k. find_index_from P xs i = int (i + k) \<and> k < length xs \<and> P (xs ! k)
        \<and> (\<forall>j<k. \<not> P (xs ! j))"
proof (induction xs arbitrary: i)
  case Nil
  then show ?case by simp
next
  case (Cons x xs)
  show ?case
  proof (cases "P x")
    case True
    then show ?thesis by (intro exI [of _ 0]) simp
  next
    case False
    with Cons.prems have "find_index_from P xs (Suc i) \<noteq> -1" by simp
    from Cons.IH [OF this] obtain k where
      "find_index_from P xs (Suc i) = int (Suc i + k)" "k < length xs" "P (xs ! k)"
      "\<forall>j<k. \<not> P (xs ! j)" by blast
    with False show ?thesis
      by (intro exI [of _ "Suc k"]) (auto simp: less_Suc_eq_0_disj)
  qed
qed

lemma js_find_index_neg1_iff [simp]:
  "js_find_index P xs = -1 \<longleftrightarrow> (\<forall>x\<in>set xs. \<not> P x)"
  by (simp add: js_find_index_def find_index_from_neg1_iff)

text \<open>What a successful \<open>findIndex\<close> tells: the index is in range, its element
  satisfies the predicate and no earlier one does.\<close>

lemma js_find_index_found:
  assumes "js_find_index P xs \<noteq> -1"
  obtains k where "js_find_index P xs = int k" "k < length xs" "P (xs ! k)"
    "\<forall>j<k. \<not> P (xs ! j)"
  using find_index_from_found [of P xs 0] assms by (auto simp: js_find_index_def)

text \<open>\<open>find\<close> returns the element at the index \<open>findIndex\<close> reports.\<close>

lemma find_Some_iff_index:
  "List.find P xs = Some x \<longleftrightarrow>
     (\<exists>k. js_find_index P xs = int k \<and> k < length xs \<and> xs ! k = x \<and> P x)"
proof
  assume "List.find P xs = Some x"
  then obtain k where k: "k < length xs" "P (xs ! k)" "xs ! k = x" "\<forall>j<k. \<not> P (xs ! j)"
    by (auto simp: find_Some_iff)
  then have "js_find_index P xs \<noteq> -1"
    by (metis js_find_index_neg1_iff nth_mem)
  then obtain k' where k': "js_find_index P xs = int k'" "k' < length xs" "P (xs ! k')"
    "\<forall>j<k'. \<not> P (xs ! j)" by (rule js_find_index_found)
  from k k' have "k = k'" by (metis linorder_neqE_nat)
  with k k' show "\<exists>k. js_find_index P xs = int k \<and> k < length xs \<and> xs ! k = x \<and> P x"
    by auto
next
  assume "\<exists>k. js_find_index P xs = int k \<and> k < length xs \<and> xs ! k = x \<and> P x"
  then obtain k where k: "js_find_index P xs = int k" "k < length xs" "xs ! k = x" by blast
  then have "js_find_index P xs \<noteq> -1" by simp
  then obtain k' where k': "js_find_index P xs = int k'" "k' < length xs" "P (xs ! k')"
    "\<forall>j<k'. \<not> P (xs ! j)" by (rule js_find_index_found)
  from k k' have "k = k'" by simp
  with k k' show "List.find P xs = Some x"
    by (auto simp: find_Some_iff)
qed

lemma find_None_iff_index: "List.find P xs = None \<longleftrightarrow> js_find_index P xs = -1"
  by (auto simp: find_None_iff)

text \<open>\<open>findIndex\<close> returns \<open>k\<close> exactly when element \<open>k\<close> is the first to satisfy the
  predicate.\<close>

lemma js_find_index_eq_int_iff:
  "js_find_index P xs = int k \<longleftrightarrow> k < length xs \<and> P (xs ! k) \<and> (\<forall>j<k. \<not> P (xs ! j))"
proof
  assume h: "js_find_index P xs = int k"
  then have "js_find_index P xs \<noteq> -1" by simp
  then obtain k' where "js_find_index P xs = int k'" "k' < length xs" "P (xs ! k')"
    "\<forall>j<k'. \<not> P (xs ! j)" by (rule js_find_index_found)
  with h show "k < length xs \<and> P (xs ! k) \<and> (\<forall>j<k. \<not> P (xs ! j))" by simp
next
  assume h: "k < length xs \<and> P (xs ! k) \<and> (\<forall>j<k. \<not> P (xs ! j))"
  then have "js_find_index P xs \<noteq> -1"
    by (metis js_find_index_neg1_iff nth_mem)
  then obtain k' where k': "js_find_index P xs = int k'" "k' < length xs" "P (xs ! k')"
    "\<forall>j<k'. \<not> P (xs ! j)" by (rule js_find_index_found)
  with h have "k = k'" by (metis linorder_neqE_nat)
  with k' show "js_find_index P xs = int k" by simp
qed

lemma js_find_index_update_same:
  "js_find_index P xs = int k \<Longrightarrow> P v \<Longrightarrow> js_find_index P (xs[k := v]) = int k"
  by (simp add: js_find_index_eq_int_iff nth_list_update)

lemma length_remove_nth [simp]: "i < length xs \<Longrightarrow> length (remove_nth i xs) = length xs - 1"
  by (simp add: remove_nth_def)

lemma set_remove_nth_subset: "set (remove_nth i xs) \<subseteq> set xs"
  by (auto simp: remove_nth_def dest: in_set_takeD in_set_dropD)

lemma map_remove_nth: "map f (remove_nth i xs) = remove_nth i (map f xs)"
  by (simp add: remove_nth_def take_map drop_map)

lemma distinct_remove_nth [intro]: "distinct xs \<Longrightarrow> distinct (remove_nth i xs)"
proof -
  assume d: "distinct xs"
  then have "set (take i xs) \<inter> set (drop i xs) = {}"
    by (metis append_take_drop_id distinct_append)
  moreover have "set (drop (Suc i) xs) \<subseteq> set (drop i xs)"
    by (simp add: set_drop_subset_set_drop)
  ultimately show ?thesis
    using d by (auto simp: remove_nth_def)
qed

text \<open>Removing the element at \<open>i\<close> from a list without duplicates removes exactly it.\<close>

lemma set_remove_nth_distinct:
  "distinct xs \<Longrightarrow> i < length xs \<Longrightarrow> set (remove_nth i xs) = set xs - {xs ! i}"
proof -
  assume d: "distinct xs" and i: "i < length xs"
  have xs: "xs = take i xs @ xs ! i # drop (Suc i) xs"
    using i by (simp add: id_take_nth_drop)
  have "distinct (take i xs @ xs ! i # drop (Suc i) xs)"
    using d xs by simp
  then show ?thesis
    by (subst (2) xs) (auto simp: remove_nth_def)
qed

text \<open>Replacing an element keeps a key list free of duplicates when the new key is
  the old one.\<close>

lemma distinct_map_update_same_key:
  assumes "distinct (map f xs)" "i < length xs" "f v = f (xs ! i)"
  shows "distinct (map f (xs[i := v]))"
proof -
  have "(map f xs)[i := f v] = map f xs"
    using assms(2,3) by (metis list_update_id nth_map)
  with assms(1) show ?thesis by (simp add: map_update)
qed

end
