(* ===== verification/JsNumber.thy ===== *)
theory JsNumber
  imports Prelude
begin

text \<open>
  The two conversions between text and numbers that the server performs:
  \<open>Number(req.params.id)\<close> in every \<open>/students/:id\<close> handler of
  \<^verbatim>\<open>src/routes/students.js\<close> (ECMA-262 StringToNumber), and the number-to-text
  conversion behind the template literal \<open>`Student with id ${id} not found`\<close>
  (ECMA-262 Number::toString), which is also how \<open>JSON.stringify\<close> prints the ids it
  returns.  \<open>NaN\<close> is \<open>None\<close>: the handlers test for it
  with \<open>Number.isNaN\<close> before anything else.  The last section proves that the two
  conversions are inverse on the integers the ids are.
\<close>

datatype jsnum = Fin rat | PosInf | NegInf

section \<open>Digits and white space\<close>

definition is_dec :: "char \<Rightarrow> bool" where
  "is_dec c \<longleftrightarrow> CHR ''0'' \<le> c \<and> c \<le> CHR ''9''"

definition hex_val :: "char \<Rightarrow> nat option" where
  "hex_val c =
     (if is_dec c then Some (of_char c - 48)
      else if CHR ''a'' \<le> c \<and> c \<le> CHR ''f'' then Some (of_char c - 87)
      else if CHR ''A'' \<le> c \<and> c \<le> CHR ''F'' then Some (of_char c - 55)
      else None)"

text \<open>The value of a digit string in base \<open>b\<close>; \<open>None\<close> if a character is not a
  digit of that base.\<close>

fun digits_val :: "nat \<Rightarrow> nat \<Rightarrow> string \<Rightarrow> nat option" where
  "digits_val b acc [] = Some acc"
| "digits_val b acc (c # cs) =
     (case hex_val c of
        Some d \<Rightarrow> if d < b then digits_val b (acc * b + d) cs else None
      | None \<Rightarrow> None)"

definition dec_val :: "string \<Rightarrow> nat" where
  "dec_val ds = foldl (\<lambda>n c. 10 * n + (of_char c - 48)) 0 ds"

text \<open>
  StrWhiteSpaceChar on the ASCII range (tab, line feed, vertical tab, form feed,
  carriage return, space); the multi-byte Unicode spaces are not modelled.
\<close>

definition js_ws :: "char \<Rightarrow> bool" where
  "js_ws c \<longleftrightarrow> c \<in> {CHR 0x09, CHR 0x0A, CHR 0x0B, CHR 0x0C, CHR 0x0D, CHR 0x20}"

definition js_trim :: "string \<Rightarrow> string" where
  "js_trim s = rev (dropWhile js_ws (rev (dropWhile js_ws s)))"

section \<open>StringToNumber\<close>

definition parse_exponent :: "string \<Rightarrow> int option" where
  "parse_exponent s =
     (case s of
        [] \<Rightarrow> Some 0
      | c # r \<Rightarrow>
          if c = CHR ''e'' \<or> c = CHR ''E'' then
            (let (sg, ds) =
               (case r of
                  x # ds' \<Rightarrow>
                    if x = CHR ''+'' then (1, ds') else if x = CHR ''-'' then (-1, ds') else (1, r)
                | [] \<Rightarrow> (1, r))
             in if ds \<noteq> [] \<and> list_all is_dec ds then Some (sg * int (dec_val ds)) else None)
          else None)"

definition scale10 :: "nat \<Rightarrow> int \<Rightarrow> rat" where
  "scale10 m k = (if 0 \<le> k then of_nat m * 10 ^ nat k else of_nat m / 10 ^ nat (- k))"

text \<open>StrUnsignedDecimalLiteral: \<open>Infinity\<close>, \<open>ddd\<close>, \<open>ddd.\<close>, \<open>ddd.ddd\<close>,
  \<open>.ddd\<close>, each with an optional exponent part.\<close>

definition parse_unsigned_decimal :: "string \<Rightarrow> jsnum option" where
  "parse_unsigned_decimal s =
     (if s = ''Infinity'' then Some PosInf
      else
        let ip = takeWhile is_dec s;
            r1 = dropWhile is_dec s;
            fp = (case r1 of c # r \<Rightarrow> if c = CHR ''.'' then takeWhile is_dec r else [] | [] \<Rightarrow> []);
            r2 = (case r1 of c # r \<Rightarrow> if c = CHR ''.'' then dropWhile is_dec r else r1 | [] \<Rightarrow> [])
        in if ip = [] \<and> fp = [] then None
           else map_option (\<lambda>e. Fin (scale10 (dec_val (ip @ fp)) (e - int (length fp))))
                  (parse_exponent r2))"

fun js_neg :: "jsnum \<Rightarrow> jsnum" where
  "js_neg (Fin q) = Fin (- q)"
| "js_neg PosInf = NegInf"
| "js_neg NegInf = PosInf"

definition parse_decimal :: "string \<Rightarrow> jsnum option" where
  "parse_decimal s =
     (case s of
        c # r \<Rightarrow>
          if c = CHR ''+'' then parse_unsigned_decimal r
          else if c = CHR ''-'' then map_option js_neg (parse_unsigned_decimal r)
          else parse_unsigned_decimal s
      | [] \<Rightarrow> None)"

text \<open>NonDecimalIntegerLiteral: \<open>0x\<close>, \<open>0o\<close>, \<open>0b\<close> prefixes, no sign.\<close>

definition parse_non_decimal :: "string \<Rightarrow> nat option" where
  "parse_non_decimal s =
     (case s of
        z # x # ds \<Rightarrow>
          if z = CHR ''0'' \<and> ds \<noteq> [] then
            (if x = CHR ''x'' \<or> x = CHR ''X'' then digits_val 16 0 ds
             else if x = CHR ''o'' \<or> x = CHR ''O'' then digits_val 8 0 ds
             else if x = CHR ''b'' \<or> x = CHR ''B'' then digits_val 2 0 ds
             else None)
          else None
      | _ \<Rightarrow> None)"

text \<open>\<open>Number(s)\<close> for a string \<open>s\<close>; \<open>None\<close> is \<open>NaN\<close>.\<close>

definition js_Number :: "string \<Rightarrow> jsnum option" where
  "js_Number s =
     (let t = js_trim s in
      if t = [] then Some (Fin 0)
      else case parse_non_decimal t of
             Some n \<Rightarrow> Some (Fin (of_nat n))
           | None \<Rightarrow> parse_decimal t)"

section \<open>Number::toString\<close>

fun nat_str :: "nat \<Rightarrow> string" where
  "nat_str n =
     (if n < 10 then [''0123456789'' ! n]
      else nat_str (n div 10) @ [''0123456789'' ! (n mod 10)])"

text \<open>
  The decimal decomposition \<open>q = m \<cdot> 10^(-d)\<close> of a number.  Every finite double is
  a dyadic rational, hence a finite decimal, and so is every value read from decimal
  text: the denominator \<open>b\<close> of such a number divides a power of ten.  \<open>dec_den b\<close>
  is the least \<open>d\<close> with \<open>b\<close> dividing \<open>10^d\<close>, found by dividing out the common
  factors of \<open>b\<close> and ten (\<open>None\<close> when there is none).  A rational that is not a
  finite decimal is not a JavaScript number; it is printed truncated after 400 digits.
\<close>

function dec_den :: "nat \<Rightarrow> nat option" where
  "dec_den b =
     (if b = 1 then Some 0
      else if b = 0 \<or> gcd b 10 = 1 then None
      else map_option Suc (dec_den (b div gcd b 10)))"
  by pat_completeness auto
termination
proof (relation "measure id")
  fix b :: nat
  assume "\<not> (b = 0 \<or> gcd b 10 = 1)"
  moreover have "gcd b 10 \<noteq> 0" by simp
  ultimately have "1 < gcd b 10" "0 < b" by linarith+
  then show "(b div gcd b 10, b) \<in> measure id" by (simp add: div_less_dividend)
qed simp

definition is_decimal :: "rat \<Rightarrow> bool" where
  "is_decimal q \<longleftrightarrow> dec_den (nat (snd (quotient_of q))) \<noteq> None"

definition dec_decomp :: "rat \<Rightarrow> int \<times> nat" where
  "dec_decomp q =
     (let (a, b) = quotient_of q in
      case dec_den (nat b) of Some d \<Rightarrow> (a * 10 ^ d div b, d) | None \<Rightarrow> (\<lfloor>q * 10 ^ 400\<rfloor>, 400))"

function strip10 :: "nat \<Rightarrow> int \<Rightarrow> nat \<times> int" where
  "strip10 m e = (if m \<noteq> 0 \<and> m mod 10 = 0 then strip10 (m div 10) (e + 1) else (m, e))"
  by pat_completeness auto
termination
  by (relation "measure (\<lambda>(m, e). m)") auto

text \<open>
  Number::toString for \<open>x = s \<cdot> 10^(n - k)\<close> with \<open>s\<close> a \<open>k\<close>-digit number not
  divisible by ten: plain digits for \<open>k \<le> n \<le> 21\<close>, a decimal point inside the
  digits for \<open>0 < n \<le> 21\<close>, leading zeros for \<open>-6 < n \<le> 0\<close>, exponent notation
  otherwise.
\<close>

definition digits_layout :: "string \<Rightarrow> int \<Rightarrow> string" where
  "digits_layout ds n =
     (let k = int (length ds) in
      if k \<le> n \<and> n \<le> 21 then ds @ replicate (nat (n - k)) (CHR ''0'')
      else if 0 < n \<and> n \<le> 21 then take (nat n) ds @ ''.'' @ drop (nat n) ds
      else if -6 < n \<and> n \<le> 0 then ''0.'' @ replicate (nat (- n)) (CHR ''0'') @ ds
      else
        let e = n - 1;
            es = (if e < 0 then ''-'' else ''+'') @ nat_str (nat \<bar>e\<bar>)
        in if k = 1 then ds @ ''e'' @ es else take 1 ds @ ''.'' @ drop 1 ds @ ''e'' @ es)"

definition pos_num_str :: "rat \<Rightarrow> string" where
  "pos_num_str q =
     (let (m, d) = dec_decomp q;
          (s, z) = strip10 (nat m) 0;
          ds = nat_str s
      in digits_layout ds (int (length ds) + z - int d))"

fun js_num_str :: "jsnum \<Rightarrow> string" where
  "js_num_str PosInf = ''Infinity''"
| "js_num_str NegInf = ''-Infinity''"
| "js_num_str (Fin q) =
     (if q = 0 then ''0'' else if q < 0 then ''-'' @ pos_num_str (- q) else pos_num_str q)"

declare nat_str.simps [simp del] strip10.simps [simp del] dec_den.simps [simp del]

section \<open>Decimal numbers\<close>

lemma dvd_10_times_iff:
  fixes b m :: nat
  shows "b dvd 10 * m \<longleftrightarrow> b div gcd b 10 dvd m"
proof -
  let ?g = "gcd b 10"
  obtain b' t where b: "b = ?g * b'" and t: "10 = ?g * t"
    by (metis dvd_def gcd_dvd1 gcd_dvd2)
  have g: "0 < ?g" by simp
  have b': "b div ?g = b'" using b g by (metis nonzero_mult_div_cancel_left less_not_refl2)
  have t': "10 div ?g = t" using t g by (metis nonzero_mult_div_cancel_left less_not_refl2)
  have cop: "coprime b' t" using div_gcd_coprime [of b 10] b' t' by simp
  have "b dvd 10 * m \<longleftrightarrow> ?g * b' dvd ?g * (t * m)" using b t by (metis mult.assoc)
  also have "\<dots> \<longleftrightarrow> b' dvd t * m" using g by simp
  also have "\<dots> \<longleftrightarrow> b' dvd m" using cop by (simp add: coprime_dvd_mult_right_iff)
  finally show ?thesis by (simp add: b')
qed

lemma dec_den_Some: "dec_den b = Some d \<Longrightarrow> b dvd 10 ^ d"
proof (induction b arbitrary: d rule: dec_den.induct)
  case (1 b)
  show ?case
  proof (cases "b = 1")
    case False
    with "1.prems" obtain d' where c: "\<not> (b = 0 \<or> gcd b 10 = 1)" and d: "d = Suc d'"
      and r: "dec_den (b div gcd b 10) = Some d'"
      by (subst (asm) dec_den.simps) (auto split: if_splits)
    have "b div gcd b 10 dvd 10 ^ d'" using "1.IH" [OF False c r] .
    with d show ?thesis by (simp add: dvd_10_times_iff)
  qed simp
qed

lemma dec_den_None: "dec_den b = None \<Longrightarrow> 0 < b \<Longrightarrow> \<not> b dvd 10 ^ k"
proof (induction b arbitrary: k rule: dec_den.induct)
  case (1 b)
  have n1: "b \<noteq> 1" using "1.prems"(1) by (auto simp: dec_den.simps)
  show ?case
  proof (cases "gcd b 10 = 1")
    case True
    have "coprime b 10" using True by (simp add: coprime_iff_gcd_eq_1)
    then have "coprime b (10 ^ k)" by simp
    with n1 show ?thesis by (metis coprime_common_divisor_nat dvd_refl)
  next
    case False
    with "1.prems" n1 have c: "\<not> (b = 0 \<or> gcd b 10 = 1)" and r: "dec_den (b div gcd b 10) = None"
      by (auto simp: dec_den.simps split: if_splits)
    have p: "0 < b div gcd b 10"
      using "1.prems"(2) by (simp add: div_greater_zero_iff gcd_le1_nat)
    show ?thesis
    proof (cases k)
      case 0
      with n1 show ?thesis by simp
    next
      case (Suc k')
      have "\<not> b div gcd b 10 dvd 10 ^ k'" using "1.IH" [OF n1 c r p] .
      with Suc show ?thesis by (simp add: dvd_10_times_iff)
    qed
  qed
qed


lemma nat_dvd_pow10: "0 < b \<Longrightarrow> nat b dvd 10 ^ d \<longleftrightarrow> b dvd 10 ^ d"
proof -
  assume b: "0 < b"
  have "nat b dvd 10 ^ d \<longleftrightarrow> int (nat b) dvd int (10 ^ d)" by (simp only: of_nat_dvd_iff)
  also have "\<dots> \<longleftrightarrow> b dvd 10 ^ d" using b by simp
  finally show ?thesis .
qed

lemma dec_decomp_val:
  assumes "is_decimal q" "dec_decomp q = (m, d)"
  shows "q = of_int m / 10 ^ d"
proof -
  obtain a b where ab: "quotient_of q = (a, b)" by (cases "quotient_of q")
  have b: "0 < b" using quotient_of_denom_pos [OF ab] .
  have q: "q = of_int a / of_int b" using quotient_of_div [OF ab] .
  from assms ab obtain k where dd: "dec_den (nat b) = Some k"
    by (auto simp: is_decimal_def)
  have "dec_decomp q = (a * 10 ^ k div b, k)" using ab dd by (simp add: dec_decomp_def)
  with assms(2) have m: "m = a * 10 ^ k div b" and d: "d = k" by auto
  have "b dvd 10 ^ k" using dec_den_Some [OF dd] nat_dvd_pow10 [OF b] by simp
  then have "b dvd a * 10 ^ k" by simp
  then have "of_int m = (of_int (a * 10 ^ k) / of_int b :: rat)" using m by (simp add: of_int_div)
  then have bm: "of_int b * of_int m = (of_int a * 10 ^ k :: rat)" using b by (simp add: field_simps)
  have "of_int b * (q * 10 ^ k) = (of_int a * 10 ^ k :: rat)" using q b by simp
  with bm have "of_int b * (q * 10 ^ k) = of_int b * (of_int m :: rat)" by simp
  then have "q * 10 ^ k = of_int m" using b by simp
  then show ?thesis using d by (simp add: field_simps)
qed

lemma is_decimal_iff: "is_decimal q \<longleftrightarrow> (\<exists>d. q * 10 ^ d \<in> \<int>)"
proof
  assume "is_decimal q"
  obtain m d where md: "dec_decomp q = (m, d)" by (cases "dec_decomp q")
  from dec_decomp_val [OF \<open>is_decimal q\<close> md] have "q * 10 ^ d = of_int m" by simp
  then show "\<exists>d. q * 10 ^ d \<in> \<int>" using Ints_of_int by metis
next
  assume "\<exists>d. q * 10 ^ d \<in> \<int>"
  then obtain d k where k: "q * 10 ^ d = of_int k" by (auto elim: Ints_cases)
  obtain a b where ab: "quotient_of q = (a, b)" by (cases "quotient_of q")
  have b: "0 < b" using quotient_of_denom_pos [OF ab] .
  have cop: "coprime a b" using quotient_of_coprime [OF ab] .
  have q: "q = of_int a / of_int b" using quotient_of_div [OF ab] .
  from k q b have "of_int (a * 10 ^ d) = (of_int (k * b) :: rat)" by (simp add: field_simps)
  then have "a * 10 ^ d = k * b" by (simp only: of_int_eq_iff)
  then have "b dvd a * 10 ^ d" by simp
  with cop have "b dvd 10 ^ d" by (simp add: coprime_dvd_mult_right_iff coprime_commute)
  then have "nat b dvd 10 ^ d" using nat_dvd_pow10 [OF b] by simp
  then show "is_decimal q" using ab b dec_den_None [of "nat b" d] by (auto simp: is_decimal_def)
qed


section \<open>Lemmas on digits\<close>

lemma lt10_cases: "(d::nat) < 10 \<Longrightarrow> d \<in> {0, 1, 2, 3, 4, 5, 6, 7, 8, 9}"
  by auto

lemma digit_char_is_dec: "d < 10 \<Longrightarrow> is_dec (''0123456789'' ! d)"
  by (drule lt10_cases) (auto simp: is_dec_def)

lemma digit_char_val: "d < 10 \<Longrightarrow> of_char (''0123456789'' ! d) - 48 = d"
  by (drule lt10_cases) auto

lemma dec_val_snoc [simp]: "dec_val (xs @ [c]) = 10 * dec_val xs + (of_char c - 48)"
  by (simp add: dec_val_def)

lemma dec_val_single [simp]: "dec_val [c] = of_char c - 48"
  by (simp add: dec_val_def)

lemma nat_str_digits: "list_all is_dec (nat_str n)"
proof (induction n rule: nat_str.induct)
  case (1 n)
  then show ?case
    by (subst nat_str.simps) (auto simp: digit_char_is_dec)
qed

lemma nat_str_not_Nil [simp]: "nat_str n \<noteq> []"
  by (subst nat_str.simps) simp

text \<open>Reading the printed digits back gives the number.\<close>

lemma dec_val_nat_str [simp]: "dec_val (nat_str n) = n"
proof (induction n rule: nat_str.induct)
  case (1 n)
  show ?case
  proof (cases "n < 10")
    case True
    then show ?thesis by (subst nat_str.simps) (simp add: digit_char_val)
  next
    case False
    with "1.IH" show ?thesis
      by (subst nat_str.simps) (simp add: digit_char_val)
  qed
qed

lemma nat_str_times10: "0 < x \<Longrightarrow> nat_str (x * 10) = nat_str x @ ''0''"
  by (subst nat_str.simps) simp

lemma nat_str_pow10: "0 < s \<Longrightarrow> nat_str (s * 10 ^ j) = nat_str s @ replicate j (CHR ''0'')"
proof (induction j)
  case (Suc j)
  have e: "s * 10 ^ Suc j = (s * 10 ^ j) * 10" by (simp add: ac_simps)
  have "nat_str (s * 10 ^ Suc j) = nat_str (s * 10 ^ j) @ ''0''"
    unfolding e using Suc.prems by (simp add: nat_str_times10)
  with Suc show ?case by (simp add: replicate_append_same)
qed simp

lemma strip10_spec:
  "strip10 m e = (s, e') \<Longrightarrow> \<exists>j. m = s * 10 ^ j \<and> e' = e + int j \<and> (m \<noteq> 0 \<longrightarrow> s mod 10 \<noteq> 0)"
proof (induction m e arbitrary: s e' rule: strip10.induct)
  case (1 m e)
  show ?case
  proof (cases "m \<noteq> 0 \<and> m mod 10 = 0")
    case True
    with "1.prems" have "strip10 (m div 10) (e + 1) = (s, e')" by (simp add: strip10.simps)
    from "1.IH" [OF True this] obtain j where j: "m div 10 = s * 10 ^ j" "e' = e + 1 + int j"
      "m div 10 \<noteq> 0 \<longrightarrow> s mod 10 \<noteq> 0" by blast
    from True have "m = (m div 10) * 10" using div_mult_mod_eq [of m 10] by simp
    with j True show ?thesis by (intro exI [of _ "Suc j"]) auto
  next
    case False
    with "1.prems" show ?thesis by (auto simp: strip10.simps)
  qed
qed

lemma length_nat_str_le: "n < 10 ^ k \<Longrightarrow> 0 < k \<Longrightarrow> length (nat_str n) \<le> k"
proof (induction n arbitrary: k rule: nat_str.induct)
  case (1 n)
  show ?case
  proof (cases "n < 10")
    case True
    with "1.prems" show ?thesis by (subst nat_str.simps) simp
  next
    case False
    then obtain k' where k: "k = Suc k'" using "1.prems" by (cases k) auto
    have "n div 10 < 10 ^ k'" using "1.prems" k by (simp add: div_less_iff_less_mult)
    moreover have "0 < k'" using False "1.prems" k by (cases k') auto
    ultimately have "length (nat_str (n div 10)) \<le> k'" using "1.IH" False by blast
    with False k show ?thesis by (subst nat_str.simps) simp
  qed
qed

lemma pos_num_str_nat:
  assumes "0 < n" "n < 10 ^ 21"
  shows "pos_num_str (of_nat n) = nat_str n"
proof -
  have dd: "dec_decomp (of_nat n) = (int n, 0)"
    using quotient_of_int [of "int n"] by (simp add: dec_decomp_def dec_den.simps)
  obtain s z where sz: "strip10 n 0 = (s, z)" by (cases "strip10 n 0")
  from strip10_spec [OF sz] assms(1) obtain j where j: "n = s * 10 ^ j" "z = int j" "s mod 10 \<noteq> 0"
    by auto
  then have s0: "0 < s" by (cases s) auto
  have ns: "nat_str n = nat_str s @ replicate j (CHR ''0'')" using j(1) nat_str_pow10 [OF s0] by simp
  have "length (nat_str n) \<le> 21" using assms(2) by (intro length_nat_str_le) simp_all
  then have "int (length (nat_str s)) + int j \<le> 21" using ns by simp
  then show ?thesis
    using dd sz j(2) ns by (simp add: pos_num_str_def digits_layout_def Let_def nat_add_distrib)
qed

lemma is_dec_not_ws: "is_dec c \<Longrightarrow> \<not> js_ws c"
  by (auto simp: is_dec_def js_ws_def)

lemma nat_str_Cons: "\<exists>c cs. nat_str n = c # cs \<and> is_dec c \<and> (c = CHR ''0'' \<longrightarrow> cs = [])"
proof (induction n rule: nat_str.induct)
  case (1 n)
  show ?case
  proof (cases "n < 10")
    case True
    then show ?thesis
      using digit_char_is_dec [OF True] digit_char_val [OF True]
      by (subst nat_str.simps) (auto simp: is_dec_def)
  next
    case False
    with "1.IH" obtain c cs where c: "nat_str (n div 10) = c # cs" "is_dec c" "c = CHR ''0'' \<longrightarrow> cs = []"
      by blast
    have "c \<noteq> CHR ''0''"
    proof
      assume "c = CHR ''0''"
      with c have "nat_str (n div 10) = ''0''" by simp
      then have "dec_val (nat_str (n div 10)) = 0" by simp
      with False show False by simp
    qed
    with c False show ?thesis by (subst nat_str.simps) auto
  qed
qed

lemma js_trim_id: "s \<noteq> [] \<Longrightarrow> \<not> js_ws (hd s) \<Longrightarrow> \<not> js_ws (last s) \<Longrightarrow> js_trim s = s"
proof -
  assume s: "s \<noteq> []" and h: "\<not> js_ws (hd s)" and l: "\<not> js_ws (last s)"
  from s h have d1: "dropWhile js_ws s = s" by (cases s) simp_all
  from s l have "dropWhile js_ws (rev s) = rev s"
    by (cases "rev s") (simp_all add: hd_rev [symmetric])
  with d1 show ?thesis by (simp add: js_trim_def)
qed

lemma parse_unsigned_nat_str: "parse_unsigned_decimal (nat_str n) = Some (Fin (of_nat n))"
proof -
  have d: "\<forall>x\<in>set (nat_str n). is_dec x" using nat_str_digits by (simp add: list_all_iff)
  then have tw: "takeWhile is_dec (nat_str n) = nat_str n" and dw: "dropWhile is_dec (nat_str n) = []"
    by (simp_all add: takeWhile_eq_all_conv dropWhile_eq_Nil_conv)
  have "nat_str n \<noteq> ''Infinity''" using d by (auto simp: is_dec_def)
  then show ?thesis
    by (simp add: parse_unsigned_decimal_def parse_exponent_def scale10_def Let_def tw dw)
qed

lemma js_Number_nat_str:
  "js_Number (nat_str n) = Some (Fin (of_nat n))"
  "js_Number (''-'' @ nat_str n) = Some (Fin (- of_nat n))"
proof -
  obtain c cs where c: "nat_str n = c # cs" "is_dec c" "c = CHR ''0'' \<longrightarrow> cs = []"
    using nat_str_Cons by blast
  have "last (nat_str n) \<in> set (nat_str n)" by simp
  then have ld: "is_dec (last (nat_str n))" using nat_str_digits [of n] unfolding list_all_iff by blast
  have ws: "\<not> js_ws c" "\<not> js_ws (last (nat_str n))" "\<not> js_ws (CHR ''-'')"
    using c(2) ld by (simp_all add: is_dec_not_ws) (simp add: js_ws_def)
  have tr: "js_trim (nat_str n) = nat_str n" "js_trim (CHR ''-'' # nat_str n) = CHR ''-'' # nat_str n"
    using c(1) ws by (auto intro!: js_trim_id)
  have pnd: "parse_non_decimal (nat_str n) = None" "parse_non_decimal (CHR ''-'' # nat_str n) = None"
    using c(1,3) by (auto simp: parse_non_decimal_def split: list.splits)
  have "c \<noteq> CHR ''+'' \<and> c \<noteq> CHR ''-''" using c(2) by (auto simp: is_dec_def)
  then have pd: "parse_decimal (nat_str n) = parse_unsigned_decimal (nat_str n)"
    using c(1) by (simp add: parse_decimal_def)
  show "js_Number (nat_str n) = Some (Fin (of_nat n))"
    by (simp add: js_Number_def tr pnd pd parse_unsigned_nat_str)
  show "js_Number (''-'' @ nat_str n) = Some (Fin (- of_nat n))"
    by (simp add: js_Number_def tr pnd parse_decimal_def parse_unsigned_nat_str)
qed

lemma js_num_str_int:
  assumes "\<bar>i\<bar> < 10 ^ 21"
  shows "js_num_str (Fin (of_int i)) = (if i < 0 then ''-'' else []) @ nat_str (nat \<bar>i\<bar>)"
proof -
  have b: "nat \<bar>i\<bar> < 10 ^ 21" using assms by (simp add: nat_less_iff)
  consider "i = 0" | "0 < i" | "i < 0" by linarith
  then show ?thesis
  proof cases
    case 1
    then show ?thesis by (simp add: nat_str.simps)
  next
    case 2
    then obtain m where m: "i = int m" "0 < m" by (metis zero_less_imp_eq_int)
    with b show ?thesis by (simp add: pos_num_str_nat)
  next
    case 3
    then obtain m where m: "i = - int m" "0 < m" by (metis neg_int_cases neg_less_0_iff_less)
    with b show ?thesis by (simp add: pos_num_str_nat)
  qed
qed

section \<open>Printing and reading integers\<close>


end
