(* ===== verification/Json.thy ===== *)
theory Json
  imports JsNumber
begin

text \<open>
  The JSON text the program reads and writes: \<open>JSON.stringify(students, null, 2)\<close> in
  \<open>saveStudents\<close> and \<open>JSON.parse(raw)\<close> in \<open>loadStudents\<close>
  (\<^verbatim>\<open>src/routes/students.js\<close>), the parser behind \<open>express.json()\<close> and the printer
  behind \<open>res.json\<close> (\<^verbatim>\<open>server.js\<close>), after ECMA-262 (SerializeJSONProperty,
  QuoteJSONString, the JSON grammar of \<open>JSON.parse\<close>).  Objects enumerate their own
  properties as JavaScript orders them: array-index keys ascending, then the other keys in
  insertion order, a repeated key keeping its first place and its last value.  Strings
  are byte lists, so a \<open>\u\<close> escape above \<open>0xFF\<close> is outside the model (the parser
  rejects it).  The parser is a recursive descent with fuel; \<open>JSON.parse\<close> gives it
  twice the length of its input plus two, which every call chain stays within (each
  element or member consumes at least one character for every two calls).

  The lemmas show that the parser reads back everything the printer writes, for every
  value JSON can denote (\<open>json_value\<close>: no \<open>undefined\<close>, finite decimals, objects in
  JavaScript key order) and every \<open>space\<close> argument, and that everything the parser
  returns is such a value.
\<close>

section \<open>Objects\<close>

definition obj_set :: "(string \<times> 'a) list \<Rightarrow> string \<Rightarrow> 'a \<Rightarrow> (string \<times> 'a) list" where
  "obj_set kvs k v =
     (if k \<in> set (map fst kvs) then map (\<lambda>(k', v'). if k' = k then (k', v) else (k', v')) kvs
      else kvs @ [(k, v)])"

definition is_array_index :: "string \<Rightarrow> bool" where
  "is_array_index k \<longleftrightarrow>
     k \<noteq> [] \<and> list_all is_dec k \<and> (hd k = CHR ''0'' \<longrightarrow> k = ''0'') \<and> dec_val k < 4294967295"

definition js_own_props :: "(string \<times> 'a) list \<Rightarrow> (string \<times> 'a) list" where
  "js_own_props kvs =
     (let m = foldl (\<lambda>acc (k, v). obj_set acc k v) [] kvs
      in sort_key (\<lambda>(k, v). dec_val k) (filter (\<lambda>(k, v). is_array_index k) m)
         @ filter (\<lambda>(k, v). \<not> is_array_index k) m)"

section \<open>JSON.stringify\<close>

definition hex_digit_lower :: "nat \<Rightarrow> char" where
  "hex_digit_lower n = ''0123456789abcdef'' ! n"

text \<open>The short escapes of QuoteJSONString: the character after the backslash.\<close>

definition json_short_escape :: "char \<Rightarrow> char option" where
  "json_short_escape c =
     (if c = CHR 0x08 then Some CHR ''b''
      else if c = CHR 0x09 then Some CHR ''t''
      else if c = CHR 0x0A then Some CHR ''n''
      else if c = CHR 0x0C then Some CHR ''f''
      else if c = CHR 0x0D then Some CHR ''r''
      else if c = CHR 0x22 then Some CHR 0x22
      else if c = CHR 0x5C then Some CHR 0x5C
      else None)"

definition json_quote_char :: "char \<Rightarrow> string" where
  "json_quote_char c =
     (case json_short_escape c of
        Some e \<Rightarrow> [CHR 0x5C, e]
      | None \<Rightarrow>
          if of_char c < (32::nat) then
            [CHR 0x5C, CHR ''u'', CHR ''0'', CHR ''0'',
             hex_digit_lower (of_char c div 16), hex_digit_lower (of_char c mod 16)]
          else [c])"

definition json_quote :: "string \<Rightarrow> string" where
  "json_quote s = CHR 0x22 # concat (map json_quote_char s) @ [CHR 0x22]"

definition json_wrap :: "char \<Rightarrow> char \<Rightarrow> string \<Rightarrow> string \<Rightarrow> string \<Rightarrow> string list \<Rightarrow> string" where
  "json_wrap op cl gap stepback ind parts =
     (if parts = [] then [op, cl]
      else if gap = [] then op # join_sep '','' parts @ [cl]
      else op # CHR 0x0A # ind @ join_sep ('','' @ CHR 0x0A # ind) parts
             @ CHR 0x0A # stepback @ [cl])"

fun json_ser :: "string \<Rightarrow> string \<Rightarrow> jsval \<Rightarrow> string option" where
  "json_ser gap ind JUndefined = None"
| "json_ser gap ind JNull = Some ''null''"
| "json_ser gap ind (JBool b) = Some (if b then ''true'' else ''false'')"
| "json_ser gap ind (JNum q) = Some (js_num_str (Fin q))"
| "json_ser gap ind (JStr s) = Some (json_quote s)"
| "json_ser gap ind (JArr vs) =
     Some (json_wrap CHR ''['' CHR '']'' gap ind (ind @ gap)
             (map (\<lambda>v. case json_ser gap (ind @ gap) v of Some t \<Rightarrow> t | None \<Rightarrow> ''null'') vs))"
| "json_ser gap ind (JObj kvs) =
     Some (json_wrap CHR ''{'' CHR ''}'' gap ind (ind @ gap)
             (List.map_filter
                (\<lambda>(k, t). map_option (\<lambda>t. json_quote k @ '':'' @ (if gap = [] then [] else '' '') @ t) t)
                (js_own_props (map (\<lambda>(k, v). (k, json_ser gap (ind @ gap) v)) kvs))))"

definition JSON_stringify :: "jsval \<Rightarrow> nat \<Rightarrow> string option" where
  "JSON_stringify v space = json_ser (replicate (min 10 space) (CHR '' '')) [] v"

section \<open>JSON.parse\<close>

definition json_ws :: "char \<Rightarrow> bool" where
  "json_ws c \<longleftrightarrow> c \<in> {CHR 0x09, CHR 0x0A, CHR 0x0D, CHR 0x20}"

definition json_skip :: "string \<Rightarrow> string" where
  "json_skip s = dropWhile json_ws s"

definition json_int_part :: "string \<Rightarrow> (string \<times> string) option" where
  "json_int_part s =
     (case s of
        [] \<Rightarrow> None
      | c # r \<Rightarrow>
          if c = CHR ''0'' then Some (''0'', r)
          else if is_dec c then Some (c # takeWhile is_dec r, dropWhile is_dec r)
          else None)"

definition json_frac :: "string \<Rightarrow> (string \<times> string) option" where
  "json_frac s =
     (case s of
        [] \<Rightarrow> Some ([], [])
      | c # r \<Rightarrow>
          if c = CHR ''.'' then
            (if takeWhile is_dec r = [] then None else Some (takeWhile is_dec r, dropWhile is_dec r))
          else Some ([], s))"

definition json_exp :: "string \<Rightarrow> (int \<times> string) option" where
  "json_exp s =
     (case s of
        [] \<Rightarrow> Some (0, [])
      | c # r \<Rightarrow>
          if c = CHR ''e'' \<or> c = CHR ''E'' then
            (let (sg, r') =
               (case r of
                  x # r'' \<Rightarrow>
                    if x = CHR ''+'' then (1, r'') else if x = CHR ''-'' then (-1, r'') else (1, r)
                | [] \<Rightarrow> (1, r))
             in if takeWhile is_dec r' = [] then None
                else Some (sg * int (dec_val (takeWhile is_dec r')), dropWhile is_dec r'))
          else Some (0, s))"

definition json_number :: "string \<Rightarrow> (rat \<times> string) option" where
  "json_number s =
     (let (neg, s1) = (case s of c # r \<Rightarrow> if c = CHR ''-'' then (True, r) else (False, s) | [] \<Rightarrow> (False, s))
      in case json_int_part s1 of
           None \<Rightarrow> None
         | Some (ip, r1) \<Rightarrow>
             (case json_frac r1 of
                None \<Rightarrow> None
              | Some (fp, r2) \<Rightarrow>
                  (case json_exp r2 of
                     None \<Rightarrow> None
                   | Some (e, r3) \<Rightarrow>
                       let q = scale10 (dec_val (ip @ fp)) (e - int (length fp))
                       in Some (if neg then - q else q, r3))))"

definition json_unescape :: "char \<Rightarrow> char option" where
  "json_unescape e =
     (if e = CHR 0x22 \<or> e = CHR 0x5C \<or> e = CHR ''/'' then Some e
      else if e = CHR ''b'' then Some (CHR 0x08)
      else if e = CHR ''f'' then Some (CHR 0x0C)
      else if e = CHR ''n'' then Some (CHR 0x0A)
      else if e = CHR ''r'' then Some (CHR 0x0D)
      else if e = CHR ''t'' then Some (CHR 0x09)
      else None)"

definition hex4 :: "string \<Rightarrow> nat option" where
  "hex4 cs = (if length cs = 4 then digits_val 16 0 cs else None)"

fun json_str :: "string \<Rightarrow> (string \<times> string) option" where
  "json_str [] = None"
| "json_str (c # r) =
     (if c = CHR 0x22 then Some ([], r)
      else if c = CHR 0x5C then
        (case r of
           [] \<Rightarrow> None
         | e # r' \<Rightarrow>
             (case json_unescape e of
                Some x \<Rightarrow> map_option (\<lambda>(t, r''). (x # t, r'')) (json_str r')
              | None \<Rightarrow>
                  if e = CHR ''u'' then
                    (case hex4 (take 4 r') of
                       Some n \<Rightarrow>
                         if n < 256 then map_option (\<lambda>(t, r''). (char_of n # t, r'')) (json_str (drop 4 r'))
                         else None
                     | None \<Rightarrow> None)
                  else None))
      else if of_char c < (32::nat) then None
      else map_option (\<lambda>(t, r'). (c # t, r')) (json_str r))"

fun json_val :: "nat \<Rightarrow> string \<Rightarrow> (jsval \<times> string) option"
and json_elems :: "nat \<Rightarrow> jsval list \<Rightarrow> string \<Rightarrow> (jsval \<times> string) option"
and json_members :: "nat \<Rightarrow> (string \<times> jsval) list \<Rightarrow> string \<Rightarrow> (jsval \<times> string) option" where
  "json_val 0 s = None"
| "json_val (Suc f) s =
     (case json_skip s of
        [] \<Rightarrow> None
      | c # r \<Rightarrow>
          if c = CHR ''['' then
            (case json_skip r of
               d # r' \<Rightarrow> if d = CHR '']'' then Some (JArr [], r') else json_elems f [] r
             | [] \<Rightarrow> None)
          else if c = CHR ''{'' then
            (case json_skip r of
               d # r' \<Rightarrow> if d = CHR ''}'' then Some (JObj [], r') else json_members f [] r
             | [] \<Rightarrow> None)
          else if c = CHR 0x22 then map_option (\<lambda>(t, r'). (JStr t, r')) (json_str r)
          else if take 4 (c # r) = ''true'' then Some (JBool True, drop 4 (c # r))
          else if take 5 (c # r) = ''false'' then Some (JBool False, drop 5 (c # r))
          else if take 4 (c # r) = ''null'' then Some (JNull, drop 4 (c # r))
          else map_option (\<lambda>(q, r'). (JNum q, r')) (json_number (c # r)))"
| "json_elems 0 acc s = None"
| "json_elems (Suc f) acc s =
     (case json_val f s of
        None \<Rightarrow> None
      | Some (v, r) \<Rightarrow>
          (case json_skip r of
             d # r' \<Rightarrow>
               if d = CHR '','' then json_elems f (acc @ [v]) r'
               else if d = CHR '']'' then Some (JArr (acc @ [v]), r')
               else None
           | [] \<Rightarrow> None))"
| "json_members 0 acc s = None"
| "json_members (Suc f) acc s =
     (case json_skip s of
        [] \<Rightarrow> None
      | c # r \<Rightarrow>
          if c \<noteq> CHR 0x22 then None
          else case json_str r of
            None \<Rightarrow> None
          | Some (k, r1) \<Rightarrow>
              (case json_skip r1 of
                 [] \<Rightarrow> None
               | d # r2 \<Rightarrow>
                   if d \<noteq> CHR '':'' then None
                   else case json_val f r2 of
                     None \<Rightarrow> None
                   | Some (v, r3) \<Rightarrow>
                       (case json_skip r3 of
                          [] \<Rightarrow> None
                        | e # r4 \<Rightarrow>
                            if e = CHR '','' then json_members f (acc @ [(k, v)]) r4
                            else if e = CHR ''}'' then Some (JObj (js_own_props (acc @ [(k, v)])), r4)
                            else None)))"

definition JSON_parse :: "string \<Rightarrow> jsval option" where
  "JSON_parse s =
     (case json_val (2 * length s + 2) s of
        Some (v, r) \<Rightarrow> if json_skip r = [] then Some v else None
      | None \<Rightarrow> None)"

section \<open>JSON values\<close>

text \<open>The values JSON text can denote, in the form \<open>JSON.parse\<close> builds them.\<close>

fun json_value :: "jsval \<Rightarrow> bool" where
  "json_value JUndefined = False"
| "json_value JNull = True"
| "json_value (JBool b) = True"
| "json_value (JNum q) = is_decimal q"
| "json_value (JStr s) = True"
| "json_value (JArr vs) = list_all json_value vs"
| "json_value (JObj kvs) = (js_own_props kvs = kvs \<and> list_all (\<lambda>(k, v). json_value v) kvs)"

section \<open>Reading back\<close>

text \<open>What may follow a value in the printed text: white space, a separator or a
  closing bracket, or nothing.\<close>

definition json_stop :: "string \<Rightarrow> bool" where
  "json_stop t \<longleftrightarrow>
     (\<forall>d r. t = d # r \<longrightarrow> json_ws d \<or> d = CHR '','' \<or> d = CHR '']'' \<or> d = CHR ''}'')"

definition json_head_ok :: "string \<Rightarrow> bool" where
  "json_head_ok t \<longleftrightarrow> (\<exists>c r. t = c # r \<and> \<not> json_ws c \<and> c \<noteq> CHR '']'' \<and> c \<noteq> CHR ''}'')"

text \<open>The property of a printed value that the parser reads it back, whatever follows
  it, given enough fuel.\<close>

definition reads_back :: "jsval \<Rightarrow> string \<Rightarrow> bool" where
  "reads_back v t \<longleftrightarrow> json_head_ok t \<and>
     (\<forall>rest f. json_stop rest \<longrightarrow> 2 * length (t @ rest) < f \<longrightarrow> json_val f (t @ rest) = Some (v, rest))"

definition member_text :: "string \<Rightarrow> string \<times> jsval \<Rightarrow> string \<Rightarrow> bool" where
  "member_text sp kv m \<longleftrightarrow> (\<exists>t. m = json_quote (fst kv) @ CHR '':'' # sp @ t \<and> reads_back (snd kv) t)"

section \<open>Lemmas on strings and numbers\<close>

lemma hex_digit_lower_val: "n < 16 \<Longrightarrow> hex_val (hex_digit_lower n) = Some n"
proof -
  have "list_all (\<lambda>n. hex_val (hex_digit_lower n) = Some n) [0..<16]"
    by (simp add: upt_rec hex_digit_lower_def hex_val_def is_dec_def)
  then show "n < 16 \<Longrightarrow> ?thesis" by (simp add: list_all_iff)
qed

lemma json_unescape_short: "json_short_escape c = Some e \<Longrightarrow> json_unescape e = Some c"
  by (auto simp: json_short_escape_def json_unescape_def split: if_splits)

lemma json_short_escape_None:
  "json_short_escape c = None \<Longrightarrow> c \<noteq> CHR 0x22 \<and> c \<noteq> CHR 0x5C"
  by (auto simp: json_short_escape_def split: if_splits)

lemma hex4_control:
  assumes "of_char c < (32::nat)"
  shows "hex4 (take 4 (CHR ''0'' # CHR ''0'' # hex_digit_lower (of_char c div 16)
                      # hex_digit_lower (of_char c mod 16) # r)) = Some (of_char c)"
proof -
  let ?a = "of_char c div 16 :: nat" and ?b = "of_char c mod 16 :: nat"
  have a: "hex_val (hex_digit_lower ?a) = Some ?a" using assms by (intro hex_digit_lower_val) simp
  have b: "hex_val (hex_digit_lower ?b) = Some ?b" by (intro hex_digit_lower_val) simp
  have z: "hex_val (CHR ''0'') = Some 0" by (simp add: hex_val_def is_dec_def)
  have "?a < 16" "?b < 16" using assms by simp_all
  then have "hex4 (take 4 (CHR ''0'' # CHR ''0'' # hex_digit_lower ?a # hex_digit_lower ?b # r))
             = Some (?a * 16 + ?b)"
    by (simp only: hex4_def take_Cons_numeral take_0 length_Cons list.size(3) digits_val.simps a b z
          option.case if_True) (simp add: a b z)
  also have "?a * 16 + ?b = of_char c" by simp
  finally show ?thesis .
qed

lemma json_str_quote: "json_str (concat (map json_quote_char s) @ CHR 0x22 # rest) = Some (s, rest)"
proof (induction s)
  case Nil
  then show ?case by simp
next
  case (Cons c s)
  show ?case
  proof (cases "json_short_escape c")
    case (Some e)
    then show ?thesis using Cons json_unescape_short [OF Some] by (simp add: json_quote_char_def)
  next
    case None
    note nq = json_short_escape_None [OF None]
    show ?thesis
    proof (cases "of_char c < (32::nat)")
      case True
      have u: "json_unescape (CHR ''u'') = None" by (simp add: json_unescape_def)
      show ?thesis using Cons None True hex4_control [OF True] u
        by (simp add: json_quote_char_def del: json_str.simps(2)) (simp add: json_quote_char_def)
    next
      case False
      then show ?thesis using Cons None nq by (simp add: json_quote_char_def)
    qed
  qed
qed

subsection \<open>Numbers\<close>

lemma scale10_powi: "scale10 m k = of_nat m * 10 powi k"
proof (cases "0 \<le> k")
  case True
  then show ?thesis by (simp add: scale10_def power_int_def)
next
  case False
  then have "(10::rat) powi k = inverse (10 ^ nat (- k))"
    by (simp add: power_int_def power_one_over inverse_eq_divide)
  with False show ?thesis by (simp add: scale10_def divide_inverse)
qed

lemma not_dec_chars [simp]:
  "\<not> is_dec CHR ''.''" "\<not> is_dec CHR ''e''" "\<not> is_dec CHR ''E''" "\<not> is_dec CHR ''-''"
  "\<not> is_dec CHR ''+''"
  by (simp_all add: is_dec_def)

lemma dec_val_Nil [simp]: "dec_val [] = 0"
  by (simp add: dec_val_def)

lemma dec_val_append: "dec_val (xs @ ys) = dec_val xs * 10 ^ length ys + dec_val ys"
  by (induction ys rule: rev_induct) (simp_all add: append_assoc [symmetric] del: append_assoc)

lemma dec_val_zeros [simp]: "dec_val (replicate j (CHR ''0'')) = 0"
  by (induction j) (simp_all add: dec_val_def)

lemma takeWhile_dec_stop:
  "(\<forall>c r. t = c # r \<longrightarrow> \<not> is_dec c) \<Longrightarrow> takeWhile is_dec t = [] \<and> dropWhile is_dec t = t"
  by (cases t) auto

lemma json_int_part_digits:
  assumes "ip = c # cs" "list_all is_dec ip" "c = CHR ''0'' \<longrightarrow> cs = []"
    and "\<forall>d r. t = d # r \<longrightarrow> \<not> is_dec d"
  shows "json_int_part (ip @ t) = Some (ip, t)"
proof -
  have "list_all is_dec cs" using assms(1,2) by simp
  then have "takeWhile is_dec (cs @ t) = cs" "dropWhile is_dec (cs @ t) = t"
    using takeWhile_dec_stop [OF assms(4)]
    by (simp_all add: takeWhile_append2 dropWhile_append2 list_all_iff)
  then show ?thesis using assms(1-3) by (auto simp: json_int_part_def)
qed

lemma json_frac_digits:
  assumes "list_all is_dec fp" "\<forall>d r. t = d # r \<longrightarrow> \<not> is_dec d \<and> d \<noteq> CHR ''.''"
  shows "json_frac ((if fp = [] then [] else CHR ''.'' # fp) @ t) = Some (fp, t)"
proof (cases "fp = []")
  case True
  then show ?thesis using assms(2) by (cases t) (auto simp: json_frac_def)
next
  case False
  have "takeWhile is_dec (fp @ t) = fp" "dropWhile is_dec (fp @ t) = t"
    using takeWhile_dec_stop [of t] assms
    by (simp_all add: takeWhile_append2 dropWhile_append2 list_all_iff)
  then show ?thesis using False by (simp add: json_frac_def)
qed

lemma json_exp_digits:
  assumes "\<forall>d r. t = d # r \<longrightarrow> \<not> is_dec d \<and> d \<noteq> CHR ''e'' \<and> d \<noteq> CHR ''E''"
  shows "json_exp ((case x of None \<Rightarrow> [] | Some e \<Rightarrow>
            CHR ''e'' # (if e < 0 then CHR ''-'' else CHR ''+'') # nat_str (nat \<bar>e\<bar>)) @ t)
         = Some (case x of None \<Rightarrow> 0 | Some e \<Rightarrow> e, t)"
proof (cases x)
  case None
  then show ?thesis using assms by (cases t) (auto simp: json_exp_def)
next
  case (Some e)
  define ds where "ds = nat_str (nat \<bar>e\<bar>)"
  have tw: "takeWhile is_dec (ds @ t) = ds" and dw: "dropWhile is_dec (ds @ t) = t"
    using takeWhile_dec_stop [of t] assms nat_str_digits [of "nat \<bar>e\<bar>"]
    by (simp_all add: ds_def takeWhile_append2 dropWhile_append2 list_all_iff)
  have ne: "ds \<noteq> []" and v: "dec_val ds = nat \<bar>e\<bar>" by (simp_all add: ds_def)
  show ?thesis
  proof (cases "e < 0")
    case True
    then have "json_exp (CHR ''e'' # CHR ''-'' # ds @ t) = Some (e, t)"
      using tw dw ne v by (simp add: json_exp_def)
    then show ?thesis using Some True by (simp add: ds_def)
  next
    case False
    then have "json_exp (CHR ''e'' # CHR ''+'' # ds @ t) = Some (e, t)"
      using tw dw ne v by (simp add: json_exp_def)
    then show ?thesis using Some False by (simp add: ds_def)
  qed
qed

lemma json_number_layout:
  assumes ip: "ip = c # cs" "list_all is_dec ip" "c = CHR ''0'' \<longrightarrow> cs = []"
    and fp: "list_all is_dec fp"
    and t: "\<forall>d r. t = d # r \<longrightarrow> \<not> is_dec d \<and> d \<noteq> CHR ''.'' \<and> d \<noteq> CHR ''e'' \<and> d \<noteq> CHR ''E''"
  shows "json_number ((if neg then [CHR ''-''] else []) @ ip @ (if fp = [] then [] else CHR ''.'' # fp)
            @ (case x of None \<Rightarrow> [] | Some e \<Rightarrow>
                 CHR ''e'' # (if e < 0 then CHR ''-'' else CHR ''+'') # nat_str (nat \<bar>e\<bar>)) @ t)
         = Some ((if neg then uminus else id)
                   (scale10 (dec_val (ip @ fp)) ((case x of None \<Rightarrow> 0 | Some e \<Rightarrow> e) - int (length fp))), t)"
proof -
  define ex where "ex = (case x of None \<Rightarrow> [] | Some e \<Rightarrow>
                 CHR ''e'' # (if e < 0 then CHR ''-'' else CHR ''+'') # nat_str (nat \<bar>e\<bar>))"
  define fr where "fr = (if fp = [] then [] else CHR ''.'' # fp)"
  have ext: "\<forall>d r. ex @ t = d # r \<longrightarrow> \<not> is_dec d \<and> d \<noteq> CHR ''.''"
    using t by (cases x) (auto simp: ex_def)
  have frt: "\<forall>d r. fr @ ex @ t = d # r \<longrightarrow> \<not> is_dec d"
    using ext by (auto simp: fr_def)
  have i: "json_int_part (ip @ fr @ ex @ t) = Some (ip, fr @ ex @ t)"
    by (rule json_int_part_digits [OF ip frt])
  have f: "json_frac (fr @ ex @ t) = Some (fp, ex @ t)"
    unfolding fr_def by (rule json_frac_digits [OF fp ext])
  have e: "json_exp (ex @ t) = Some (case x of None \<Rightarrow> 0 | Some e \<Rightarrow> e, t)"
    unfolding ex_def using json_exp_digits [OF] t by blast
  have c: "c \<noteq> CHR ''-''" using ip by (auto simp: is_dec_def)
  show ?thesis
    using i f e c ip(1) unfolding ex_def [symmetric] fr_def [symmetric]
    by (cases neg) (simp_all add: json_number_def Let_def)
qed

lemma nat_str_lead:
  assumes "0 < s"
  obtains c cs where "nat_str s = c # cs" "is_dec c" "c \<noteq> CHR ''0''" "list_all is_dec cs"
proof -
  obtain c cs where cs: "nat_str s = c # cs" "is_dec c" "c = CHR ''0'' \<longrightarrow> cs = []"
    using nat_str_Cons by blast
  have "c \<noteq> CHR ''0''"
  proof
    assume "c = CHR ''0''"
    with cs have "nat_str s = ''0''" by simp
    then have "dec_val (nat_str s) = 0" by simp
    with assms show False by simp
  qed
  moreover have "list_all is_dec cs" using nat_str_digits [of s] cs(1) by simp
  ultimately show ?thesis using that cs by blast
qed

lemma list_all_dec_zeros [simp]: "list_all is_dec (replicate j (CHR ''0''))"
  by (simp add: list_all_iff is_dec_def)

lemma scale10_shift: "0 \<le> k \<Longrightarrow> scale10 (m * 10 ^ nat k) 0 = scale10 m k"
  by (simp add: scale10_def)

lemma json_number_digits_layout:
  assumes s: "0 < s"
    and t: "\<forall>d r. t = d # r \<longrightarrow> \<not> is_dec d \<and> d \<noteq> CHR ''.'' \<and> d \<noteq> CHR ''e'' \<and> d \<noteq> CHR ''E''"
  shows "json_number (digits_layout (nat_str s) n @ t)
         = Some (scale10 s (n - int (length (nat_str s))), t)"
proof -
  obtain c cs where ds: "nat_str s = c # cs" "is_dec c" "c \<noteq> CHR ''0''" "list_all is_dec cs"
    using nat_str_lead [OF s] by blast
  have dv: "dec_val (c # cs) = s" by (metis dec_val_nat_str ds(1))
  define k where "k = int (length (nat_str s))"
  have k: "k = 1 + int (length cs)" using ds(1) by (simp add: k_def)
  note L = json_number_layout [OF _ _ _ _ t, where neg = False, simplified]
  consider (B1) "k \<le> n \<and> n \<le> 21" | (B2) "\<not> (k \<le> n \<and> n \<le> 21) \<and> 0 < n \<and> n \<le> 21"
    | (B3) "\<not> (0 < n \<and> n \<le> 21) \<and> -6 < n \<and> n \<le> 0" | (B4) "\<not> (0 < n \<and> n \<le> 21) \<and> \<not> (-6 < n \<and> n \<le> 0)"
    by linarith
  then show ?thesis
  proof cases
    case B1
    let ?z = "replicate (nat (n - k)) (CHR ''0'')"
    have "digits_layout (nat_str s) n @ t = (c # cs @ ?z) @ [] @ t"
      using B1 ds(1) by (simp add: digits_layout_def k_def)
    moreover have "list_all is_dec (c # cs @ ?z)" using ds by (simp add: is_dec_def)
    ultimately have "json_number (digits_layout (nat_str s) n @ t)
        = Some (scale10 (dec_val (c # cs @ ?z)) 0, t)"
      using L [of "c # cs @ ?z" c "cs @ ?z" "[]" None] ds(3) by simp
    moreover have "dec_val (c # cs @ ?z) = s * 10 ^ nat (n - k)"
      using dec_val_append [of "c # cs" ?z] dv by simp
    ultimately show ?thesis using B1 scale10_shift [of "n - k" s] by (simp add: k_def)
  next
    case B2
    then have n0: "0 < n" "n < k" by auto
    define j where "j = nat n - 1"
    have j1: "nat n = Suc j" using n0 by (simp add: j_def)
    then have "1 + int j = n" using n0 by linarith
    then have j2: "j < length cs" using n0 k by linarith
    note j = j1 j2
    have ne: "drop j cs \<noteq> []" using j by simp
    have "digits_layout (nat_str s) n @ t = (c # take j cs) @ (CHR ''.'' # drop j cs) @ t"
      using B2 n0 ds(1) j k by (simp add: digits_layout_def Let_def k_def [symmetric])
    moreover have "list_all is_dec (c # take j cs)" "list_all is_dec (drop j cs)"
      using ds by (auto simp: list_all_iff dest: in_set_takeD in_set_dropD)
    ultimately have "json_number (digits_layout (nat_str s) n @ t)
        = Some (scale10 (dec_val (c # take j cs @ drop j cs)) (- int (length (drop j cs))), t)"
      using L [of "c # take j cs" c "take j cs" "drop j cs" None] ds(3) ne by simp
    moreover have "- int (length (drop j cs)) = n - k" using j k by simp
    ultimately show ?thesis using dv by (simp add: k_def)
  next
    case B3
    let ?z = "replicate (nat (- n)) (CHR ''0'')"
    have "digits_layout (nat_str s) n @ t = ''0'' @ (CHR ''.'' # ?z @ c # cs) @ t"
      using B3 ds(1) k by (simp add: digits_layout_def Let_def k_def [symmetric])
    moreover have "list_all is_dec (?z @ c # cs)" using ds by simp
    ultimately have "json_number (digits_layout (nat_str s) n @ t)
        = Some (scale10 (dec_val (CHR ''0'' # ?z @ c # cs)) (- int (length (?z @ c # cs))), t)"
      using L [of "''0''" "CHR ''0''" "[]" "?z @ c # cs" None] by (simp add: is_dec_def)
    moreover have "dec_val (CHR ''0'' # ?z @ c # cs) = s"
      using dec_val_append [of "CHR ''0'' # ?z" "c # cs"] dv dec_val_zeros [of "Suc (nat (- n))"] by simp
    moreover have "- int (length (?z @ c # cs)) = n - k" using B3 k by simp
    ultimately show ?thesis by (simp add: k_def)
  next
    case B4
    define es where "es = CHR ''e'' # (if n - 1 < 0 then CHR ''-'' else CHR ''+'') # nat_str (nat \<bar>n - 1\<bar>)"
    have es: "(''e'' @ (if n - 1 < 0 then ''-'' else ''+'') @ nat_str (nat \<bar>n - 1\<bar>)) = es"
      by (simp add: es_def)
    have c1: "\<not> (1 + int (length cs) \<le> n \<and> n \<le> 21)" "\<not> (0 < n \<and> n \<le> 21)"
      "\<not> (- 6 < n \<and> n \<le> 0)" using B4 k by linarith+
    have lay: "digits_layout (nat_str s) n
        = (if length cs = 0 then (c # cs) @ es else take 1 (c # cs) @ ''.'' @ drop 1 (c # cs) @ es)"
      unfolding digits_layout_def Let_def ds(1) es [symmetric]
      by (simp only: if_not_P [OF c1(1)] if_not_P [OF c1(2)] if_not_P [OF c1(3)] length_Cons of_nat_Suc)
         simp
    show ?thesis
    proof (cases "cs = []")
      case True
      have "digits_layout (nat_str s) n @ t = [c] @ [] @ es @ t"
        using lay True by simp
      then have "json_number (digits_layout (nat_str s) n @ t)
          = Some (scale10 (dec_val [c]) (n - 1), t)"
        using L [of "[c]" c "[]" "[]" "Some (n - 1)"] ds(2,3) by (simp add: es_def)
      then show ?thesis using dv True ds(1) by simp
    next
      case False
      have "digits_layout (nat_str s) n @ t = [c] @ (CHR ''.'' # cs) @ es @ t"
        using lay False by simp
      then have "json_number (digits_layout (nat_str s) n @ t)
          = Some (scale10 (dec_val (c # cs)) (n - 1 - int (length cs)), t)"
        using L [of "[c]" c "[]" cs "Some (n - 1)"] ds False by (simp add: es_def)
      then show ?thesis using dv ds(1) by (simp add: algebra_simps)
    qed
  qed
qed

lemma pos_num_str_layout:
  assumes "is_decimal p" "0 < p"
  obtains s n where "0 < s" "pos_num_str p = digits_layout (nat_str s) n"
    "p = scale10 s (n - int (length (nat_str s)))"
proof -
  obtain m d where md: "dec_decomp p = (m, d)" by (cases "dec_decomp p")
  have p: "p = of_int m / 10 ^ d" using dec_decomp_val [OF assms(1) md] .
  then have m0: "0 < m" using assms(2) by (simp add: zero_less_divide_iff)
  obtain s z where sz: "strip10 (nat m) 0 = (s, z)" by (cases "strip10 (nat m) 0")
  from strip10_spec [OF sz] m0 obtain j where j: "nat m = s * 10 ^ j" "z = int j" by auto
  have s0: "0 < s" using j(1) m0 by (cases s) auto
  have str: "pos_num_str p = digits_layout (nat_str s) (int (length (nat_str s)) + z - int d)"
    using md sz by (simp add: pos_num_str_def Let_def)
  have "(of_int m :: rat) = of_nat s * 10 ^ j"
    using j(1) m0 by (metis of_int_of_nat_eq of_nat_mult of_nat_numeral of_nat_power int_nat_eq less_le)
  then have "p = of_nat s * 10 ^ j / 10 ^ d" using p by simp
  also have "\<dots> = of_nat s * 10 powi (int j - int d)"
    by (simp add: power_int_diff power_int_of_nat)
  also have "\<dots> = scale10 s ((int (length (nat_str s)) + z - int d) - int (length (nat_str s)))"
    using j(2) by (simp add: scale10_powi)
  finally show ?thesis using that s0 str by blast
qed

lemma digits_layout_hd:
  assumes "0 < s"
  obtains c r where "digits_layout (nat_str s) n = c # r" "is_dec c"
proof -
  obtain c cs where ds: "nat_str s = c # cs" "is_dec c" "c \<noteq> CHR ''0''" "list_all is_dec cs"
    using nat_str_lead [OF assms] by blast
  have z: "is_dec (CHR ''0'')" by (simp add: is_dec_def)
  have "\<exists>c r. digits_layout (nat_str s) n = c # r \<and> is_dec c"
    using ds(1,2) z by (cases "nat n") (auto simp: digits_layout_def Let_def)
  then show ?thesis using that by blast
qed

lemma json_number_minus:
  assumes "\<forall>r. u \<noteq> CHR ''-'' # r"
  shows "json_number (CHR ''-'' # u) = map_option (\<lambda>(q, r). (- q, r)) (json_number u)"
  using assms by (cases u) (auto simp: json_number_def Let_def split: option.splits)

lemma json_number_num_str:
  assumes "is_decimal q"
    and t: "\<forall>d r. t = d # r \<longrightarrow> \<not> is_dec d \<and> d \<noteq> CHR ''.'' \<and> d \<noteq> CHR ''e'' \<and> d \<noteq> CHR ''E''"
  shows "json_number (js_num_str (Fin q) @ t) = Some (q, t)"
proof -
  have pos: "json_number (pos_num_str p @ t) = Some (p, t)" if dp: "is_decimal p" and pp: "0 < p" for p
  proof -
    obtain s n where "0 < s" "pos_num_str p = digits_layout (nat_str s) n"
      "p = scale10 s (n - int (length (nat_str s)))"
      using pos_num_str_layout [OF dp pp] by blast
    then show ?thesis using json_number_digits_layout [OF _ t] by simp
  qed
  consider "q = 0" | "0 < q" | "q < 0" by linarith
  then show ?thesis
  proof cases
    case 1
    have "json_number ([] @ ''0'' @ [] @ [] @ t) = Some (scale10 (dec_val ''0'') 0, t)"
      using json_number_layout [OF _ _ _ _ t, of "''0''" "CHR ''0''" "[]" "[]" False None]
      by (simp add: is_dec_def)
    then show ?thesis using 1 by (simp add: scale10_def)
  next
    case 2
    then show ?thesis using pos [OF assms(1)] by simp
  next
    case 3
    have d: "is_decimal (- q)" using assms(1) by (simp add: is_decimal_iff)
    have "0 < - q" using 3 by simp
    obtain s n where sn: "0 < s" "pos_num_str (- q) = digits_layout (nat_str s) n"
      "- q = scale10 s (n - int (length (nat_str s)))"
      using pos_num_str_layout [OF d \<open>0 < - q\<close>] by blast
    obtain c r where "digits_layout (nat_str s) n = c # r" "is_dec c"
      using digits_layout_hd [OF sn(1)] by blast
    then have nm: "\<forall>r'. pos_num_str (- q) @ t \<noteq> CHR ''-'' # r'" using sn(2) by (auto simp: is_dec_def)
    show ?thesis using 3 json_number_minus [OF nm] pos [OF d \<open>0 < - q\<close>] by simp
  qed
qed

section \<open>Lemmas on values\<close>

lemma json_skip_ws: "list_all json_ws ws \<Longrightarrow> json_skip (ws @ s) = json_skip s"
  by (simp add: json_skip_def dropWhile_append2 list_all_iff)

lemma json_skip_Cons: "\<not> json_ws c \<Longrightarrow> json_skip (c # s) = c # s"
  by (simp add: json_skip_def)

lemma json_val_ws: "list_all json_ws ws \<Longrightarrow> json_val f (ws @ s) = json_val f s"
  by (cases f) (simp_all add: json_skip_ws)

lemma json_ws_chars [simp]:
  "\<not> json_ws CHR ''[''" "\<not> json_ws CHR '']''" "\<not> json_ws CHR ''{''" "\<not> json_ws CHR ''}''"
  "\<not> json_ws CHR '',''" "\<not> json_ws CHR '':''" "\<not> json_ws CHR 0x22" "\<not> json_ws CHR ''-''"
  "json_ws CHR '' ''" "json_ws CHR 0x0A"
  by (simp_all add: json_ws_def)

lemma is_dec_not_json_ws: "is_dec c \<Longrightarrow> \<not> json_ws c"
  by (auto simp: is_dec_def json_ws_def)

lemma json_stop_num:
  "json_stop t \<Longrightarrow> \<forall>d r. t = d # r \<longrightarrow> \<not> is_dec d \<and> d \<noteq> CHR ''.'' \<and> d \<noteq> CHR ''e'' \<and> d \<noteq> CHR ''E''"
  by (auto simp: json_stop_def json_ws_def is_dec_def)

lemma json_num_str_hd:
  "\<exists>c r. js_num_str (Fin q) = c # r \<and> (is_dec c \<or> c = CHR ''-'')"
proof -
  consider "q = 0" | "0 < q" | "q < 0" by linarith
  then show ?thesis
  proof cases
    case 1
    then show ?thesis by (simp add: is_dec_def)
  next
    case 2
    obtain m d where md: "dec_decomp q = (m, d)" by (cases "dec_decomp q")
    obtain s z where sz: "strip10 (nat m) 0 = (s, z)" by (cases "strip10 (nat m) 0")
    have "pos_num_str q = digits_layout (nat_str s) (int (length (nat_str s)) + z - int d)"
      using md sz by (simp add: pos_num_str_def Let_def)
    moreover have h: "\<exists>c r. digits_layout (nat_str s) n = c # r \<and> is_dec c" for n
    proof (cases "s = 0")
      case True
      then show ?thesis by (simp add: nat_str.simps digits_layout_def Let_def is_dec_def)
    next
      case False
      then show ?thesis using digits_layout_hd [of s n] by blast
    qed
    ultimately show ?thesis using 2 h [of "int (length (nat_str s)) + z - int d"] by fastforce
  next
    case 3
    then show ?thesis by simp
  qed
qed

lemma json_stop_close:
  "list_all json_ws post \<Longrightarrow> c = CHR '']'' \<or> c = CHR ''}'' \<Longrightarrow> json_stop (post @ c # rest)"
  by (cases post) (auto simp: json_stop_def)

lemma json_stop_comma [simp]: "json_stop (CHR '','' # r)"
  by (simp add: json_stop_def)

lemma json_skip_close:
  "list_all json_ws post \<Longrightarrow> \<not> json_ws c \<Longrightarrow> json_skip (post @ c # rest) = c # rest"
  by (simp add: json_skip_ws json_skip_Cons)

lemma json_head_ok_skip:
  "json_head_ok t \<Longrightarrow> \<exists>c r. json_skip (t @ s) = c # r @ s \<and> t = c # r \<and> c \<noteq> CHR '']'' \<and> c \<noteq> CHR ''}''"
  by (auto simp: json_head_ok_def json_skip_Cons)

lemma join_sep_Cons2: "join_sep sep (x # y # zs) = x @ sep @ join_sep sep (y # zs)"
  by simp

lemma json_elems_text:
  assumes "list_all2 reads_back vs ts" "vs \<noteq> []" "list_all json_ws pre" "list_all json_ws post"
    "json_stop rest"
    "2 * length (pre @ join_sep (CHR '','' # pre) ts @ post @ CHR '']'' # rest) + 1 < f"
  shows "json_elems f acc (pre @ join_sep (CHR '','' # pre) ts @ post @ CHR '']'' # rest)
         = Some (JArr (acc @ vs), rest)"
  using assms
proof (induction vs ts arbitrary: acc f rule: list_all2_induct)
  case Nil
  then show ?case by simp
next
  case (Cons v vs t ts)
  from Cons.prems(5) obtain g where g: "f = Suc g" by (cases f) auto
  have rb: "t \<noteq> []" "\<And>rest f. json_stop rest \<Longrightarrow> 2 * length (t @ rest) < f \<Longrightarrow> json_val f (t @ rest) = Some (v, rest)"
    using Cons.hyps(1) by (auto simp: reads_back_def json_head_ok_def)
  show ?case
  proof (cases vs)
    case Nil
    with Cons.hyps(2) have ts: "ts = []" by simp
    let ?R = "post @ CHR '']'' # rest"
    have "json_val g (pre @ t @ ?R) = Some (v, ?R)"
      using json_val_ws [OF Cons.prems(2)] rb(2) [of ?R g] json_stop_close [OF Cons.prems(3)] Cons.prems(5) g ts
      by simp
    moreover have "json_skip ?R = CHR '']'' # rest" using json_skip_close [OF Cons.prems(3)] by simp
    ultimately show ?thesis using g ts Nil by simp
  next
    case (Cons v2 vs')
    then obtain t2 ts' where ts: "ts = t2 # ts'" using Cons.hyps(2) by (cases ts) auto
    let ?I = "pre @ join_sep (CHR '','' # pre) ts @ post @ CHR '']'' # rest"
    let ?R = "CHR '','' # ?I"
    have tx: "pre @ join_sep (CHR '','' # pre) (t # ts) @ post @ CHR '']'' # rest = pre @ t @ ?R"
      using ts by simp
    have "json_val g (pre @ t @ ?R) = Some (v, ?R)"
      using json_val_ws [OF Cons.prems(2)] rb(2) [of ?R g] Cons.prems(5) g tx by simp
    moreover have "json_elems g (acc @ [v]) ?I = Some (JArr ((acc @ [v]) @ vs), rest)"
      using Cons.IH [where acc = "acc @ [v]" and f = g] Cons.prems Cons.hyps(2) g tx rb(1) \<open>vs = v2 # vs'\<close>
      by (cases t) simp_all
    ultimately show ?thesis using g tx by (simp add: json_skip_Cons)
  qed
qed

lemma json_members_text:
  assumes "list_all2 (member_text sp) kvs ms" "kvs \<noteq> []" "list_all json_ws pre" "list_all json_ws post"
    "list_all json_ws sp" "json_stop rest"
    "2 * length (pre @ join_sep (CHR '','' # pre) ms @ post @ CHR ''}'' # rest) + 1 < f"
  shows "json_members f acc (pre @ join_sep (CHR '','' # pre) ms @ post @ CHR ''}'' # rest)
         = Some (JObj (js_own_props (acc @ kvs)), rest)"
  using assms
proof (induction kvs ms arbitrary: acc f rule: list_all2_induct)
  case Nil
  then show ?case by simp
next
  case (Cons kv kvs m ms)
  obtain k v where kv: "kv = (k, v)" by (cases kv)
  from Cons.prems(6) obtain g where g: "f = Suc g" by (cases f) auto
  from Cons.hyps(1) obtain t where m: "m = json_quote k @ CHR '':'' # sp @ t" and rb: "reads_back v t"
    by (auto simp: member_text_def kv)
  have t0: "t \<noteq> []" and rb2: "\<And>rest f. json_stop rest \<Longrightarrow> 2 * length (t @ rest) < f \<Longrightarrow> json_val f (t @ rest) = Some (v, rest)"
    using rb by (auto simp: reads_back_def json_head_ok_def)
  have mem: "json_members (Suc g) acc (pre @ m @ R) =
      (case json_val g (t @ R) of None \<Rightarrow> None
       | Some (v', r3) \<Rightarrow>
           (case json_skip r3 of [] \<Rightarrow> None
            | e # r4 \<Rightarrow> if e = CHR '','' then json_members g (acc @ [(k, v')]) r4
                        else if e = CHR ''}'' then Some (JObj (js_own_props (acc @ [(k, v')])), r4)
                        else None))" for R
    using Cons.prems(2,4) m
    by (simp add: json_skip_ws json_skip_Cons json_quote_def json_str_quote json_val_ws)
  show ?case
  proof (cases kvs)
    case Nil
    with Cons.hyps(2) have ms: "ms = []" by simp
    let ?R = "post @ CHR ''}'' # rest"
    have "json_val g (t @ ?R) = Some (v, ?R)"
      using rb2 [of ?R g] json_stop_close [OF Cons.prems(3)] Cons.prems(6) g ms m by simp
    moreover have "json_skip ?R = CHR ''}'' # rest" using json_skip_close [OF Cons.prems(3)] by simp
    ultimately show ?thesis using mem [of ?R] g ms Nil kv by simp
  next
    case (Cons kv2 kvs')
    then obtain m2 ms' where ms: "ms = m2 # ms'" using Cons.hyps(2) by (cases ms) auto
    let ?I = "pre @ join_sep (CHR '','' # pre) ms @ post @ CHR ''}'' # rest"
    let ?R = "CHR '','' # ?I"
    have tx: "pre @ join_sep (CHR '','' # pre) (m # ms) @ post @ CHR ''}'' # rest = pre @ m @ ?R"
      using ms by simp
    have "json_val g (t @ ?R) = Some (v, ?R)"
      using rb2 [of ?R g] Cons.prems(6) g tx m by simp
    moreover have "json_members g (acc @ [(k, v)]) ?I = Some (JObj (js_own_props ((acc @ [(k, v)]) @ kvs)), rest)"
      using Cons.IH [where acc = "acc @ [(k, v)]" and f = g] Cons.prems Cons.hyps(2) g tx m \<open>kvs = kv2 # kvs'\<close>
      by simp
    ultimately show ?thesis using mem [of ?R] g tx kv by (simp add: json_skip_Cons)
  qed
qed

lemma json_val_array:
  assumes "list_all2 reads_back vs ts" "vs \<noteq> []" "list_all json_ws pre" "list_all json_ws post"
    "json_stop rest" "2 * length (CHR ''['' # pre @ join_sep (CHR '','' # pre) ts @ post @ CHR '']'' # rest) < f"
  shows "json_val f (CHR ''['' # pre @ join_sep (CHR '','' # pre) ts @ post @ CHR '']'' # rest) = Some (JArr vs, rest)"
proof -
  obtain v vs' t ts' where c: "vs = v # vs'" "ts = t # ts'" "reads_back v t"
    using assms(1,2) by (cases vs; cases ts) auto
  obtain g where g: "f = Suc g" using assms(6) by (cases f) auto
  let ?r = "pre @ join_sep (CHR '','' # pre) ts @ post @ CHR '']'' # rest"
  have "json_head_ok t" using c(3) by (simp add: reads_back_def)
  then obtain d r where "json_skip (t @ (if ts' = [] then [] else CHR '','' # pre @ join_sep (CHR '','' # pre) ts') @ post @ CHR '']'' # rest) = d # r" "d \<noteq> CHR '']''"
    using json_head_ok_skip by blast
  then have "\<exists>d r. json_skip ?r = d # r \<and> d \<noteq> CHR '']''"
    using c(2) assms(3) by (cases ts') (auto simp: json_skip_ws)
  then obtain d r where sk: "json_skip ?r = d # r" "d \<noteq> CHR '']''" by blast
  have "json_elems g [] ?r = Some (JArr vs, rest)"
    using json_elems_text [OF assms(1-5), of g "[]"] assms(6) g by simp
  then show ?thesis using g sk by (simp add: json_skip_Cons)
qed

lemma json_val_object:
  assumes "list_all2 (member_text sp) kvs ms" "kvs \<noteq> []" "list_all json_ws pre" "list_all json_ws post"
    "list_all json_ws sp" "json_stop rest"
    "2 * length (CHR ''{'' # pre @ join_sep (CHR '','' # pre) ms @ post @ CHR ''}'' # rest) < f"
  shows "json_val f (CHR ''{'' # pre @ join_sep (CHR '','' # pre) ms @ post @ CHR ''}'' # rest)
         = Some (JObj (js_own_props kvs), rest)"
proof -
  obtain kv kvs' m ms' where c: "kvs = kv # kvs'" "ms = m # ms'" "member_text sp kv m"
    using assms(1,2) by (cases kvs; cases ms) auto
  obtain g where g: "f = Suc g" using assms(7) by (cases f) auto
  let ?r = "pre @ join_sep (CHR '','' # pre) ms @ post @ CHR ''}'' # rest"
  have "\<exists>r. m = CHR 0x22 # r" using c(3) by (auto simp: member_text_def json_quote_def)
  then obtain r0 where "m = CHR 0x22 # r0" by blast
  then have "\<exists>r. json_skip ?r = CHR 0x22 # r"
    using c(2) assms(3) by (cases ms') (auto simp: json_skip_ws json_skip_Cons)
  then obtain r where sk: "json_skip ?r = CHR 0x22 # r" by blast
  have "json_members g [] ?r = Some (JObj (js_own_props kvs), rest)"
    using json_members_text [OF assms(1-6), of g "[]"] assms(7) g by simp
  then show ?thesis using g sk by (simp add: json_skip_Cons)
qed

lemma sort_key_map_same:
  assumes "\<And>x. f (h x) = f' x"
  shows "sort_key f (map h xs) = map h (sort_key f' xs)"
proof (induction xs)
  case (Cons x xs)
  have "insort_key f (h x) (map h ys) = map h (insort_key f' x ys)" for ys
    by (induction ys) (simp_all add: assms)
  with Cons show ?case by simp
qed simp

lemma js_own_props_map:
  "js_own_props (map (\<lambda>(k, v). (k, g v)) kvs) = map (\<lambda>(k, v). (k, g v)) (js_own_props kvs)"
proof -
  let ?h = "\<lambda>(k, v). (k, g v)"
  have fst_h: "map fst (map ?h xs) = map fst xs" for xs by (induction xs) auto
  have set1: "obj_set (map ?h acc) k (g v) = map ?h (obj_set acc k v)" for acc k v
    by (simp add: obj_set_def fst_h) (induction acc; auto)
  have fold: "foldl (\<lambda>acc (k, v). obj_set acc k v) (map ?h acc) (map ?h kvs)
              = map ?h (foldl (\<lambda>acc (k, v). obj_set acc k v) acc kvs)" for acc
    by (induction kvs arbitrary: acc) (auto simp: set1)
  have flt: "filter (\<lambda>(k, v). P k) (map ?h xs) = map ?h (filter (\<lambda>(k, v). P k) xs)" for P xs
    by (induction xs) auto
  have srt: "sort_key (\<lambda>(k, v). dec_val k) (map ?h xs) = map ?h (sort_key (\<lambda>(k, v). dec_val k) xs)" for xs
  proof -
    have "\<And>x. (\<lambda>(k, v). dec_val k) (?h x) = (\<lambda>(k, v). dec_val k) x" by (simp add: split_beta)
    from sort_key_map_same [where f = "\<lambda>(k, v). dec_val k" and h = ?h and f' = "\<lambda>(k, v). dec_val k", OF this]
    show ?thesis .
  qed
  show ?thesis
    using fold [of "[]"] by (simp add: js_own_props_def Let_def flt srt)
qed

lemma json_value_ser: "json_value v \<Longrightarrow> \<exists>t. json_ser gap ind v = Some t"
  by (cases v) auto

lemma json_val_literal:
  "json_val (Suc g) (''null'' @ rest) = Some (JNull, rest)"
  "json_val (Suc g) (''true'' @ rest) = Some (JBool True, rest)"
  "json_val (Suc g) (''false'' @ rest) = Some (JBool False, rest)"
  by (simp_all add: json_skip_Cons json_ws_def)

lemma reads_backI:
  assumes "json_head_ok t" "\<And>rest g. json_stop rest \<Longrightarrow> json_val (Suc g) (t @ rest) = Some (v, rest)"
  shows "reads_back v t"
  unfolding reads_back_def
proof (intro conjI allI impI)
  fix rest f
  assume "json_stop rest" "2 * length (t @ rest) < f"
  then obtain g where "f = Suc g" by (cases f) auto
  with assms(2) \<open>json_stop rest\<close> show "json_val f (t @ rest) = Some (v, rest)" by simp
qed (rule assms(1))

lemma reads_back_scalar:
  "reads_back JNull ''null''" "reads_back (JBool b) (if b then ''true'' else ''false'')"
  "reads_back (JStr s) (json_quote s)"
  by (auto intro!: reads_backI simp: json_head_ok_def json_ws_def json_val_literal json_skip_Cons
        json_quote_def json_str_quote)

lemma reads_back_num: "is_decimal q \<Longrightarrow> reads_back (JNum q) (js_num_str (Fin q))"
proof (rule reads_backI)
  assume q: "is_decimal q"
  obtain c r where cr: "js_num_str (Fin q) = c # r" "is_dec c \<or> c = CHR ''-''"
    using json_num_str_hd by blast
  have c: "c \<noteq> CHR ''[''" "c \<noteq> CHR ''{''" "c \<noteq> CHR 0x22" "c \<noteq> CHR ''t''" "c \<noteq> CHR ''f''"
    "c \<noteq> CHR ''n''" "\<not> json_ws c" "c \<noteq> CHR '']''" "c \<noteq> CHR ''}''"
    using cr(2) by (auto simp: is_dec_def json_ws_def)
  then show "json_head_ok (js_num_str (Fin q))" unfolding json_head_ok_def cr(1) by blast
  fix rest g
  assume "json_stop rest"
  from json_number_num_str [OF q json_stop_num [OF this]] cr(1) c
  show "json_val (Suc g) (js_num_str (Fin q) @ rest) = Some (JNum q, rest)"
    by (simp add: json_skip_Cons)
qed

lemma map_filter_all_Some:
  "\<forall>x\<in>set xs. f x \<noteq> None \<Longrightarrow> List.map_filter f xs = map (\<lambda>x. the (f x)) xs"
  by (induction xs) (auto simp: List.map_filter_simps split: option.split)

lemma spaces_ws: "list_all (\<lambda>c. c = CHR '' '') gap \<Longrightarrow> list_all json_ws gap"
  by (auto simp: list_all_iff json_ws_def)

lemma reads_back_empty:
  "reads_back (JArr []) ''[]''" "reads_back (JObj []) ''{}''"
  by (auto intro!: reads_backI simp: json_head_ok_def json_skip_Cons)

lemma reads_back_wrap:
  assumes rel: "list_all2 R xs ps" "xs \<noteq> []"
    and ws: "list_all json_ws ind" "list_all (\<lambda>c. c = CHR '' '') gap"
    and parse: "\<And>pre post rest f. list_all json_ws pre \<Longrightarrow> list_all json_ws post \<Longrightarrow> json_stop rest \<Longrightarrow>
        2 * length (op # pre @ join_sep (CHR '','' # pre) ps @ post @ cl # rest) < f \<Longrightarrow>
        json_val f (op # pre @ join_sep (CHR '','' # pre) ps @ post @ cl # rest) = Some (v, rest)"
    and op: "\<not> json_ws op" "op \<noteq> CHR '']''" "op \<noteq> CHR ''}''"
  shows "reads_back v (json_wrap op cl gap ind (ind @ gap) ps)"
proof -
  have ps: "ps \<noteq> []" using rel by (cases ps) auto
  have wsi: "list_all json_ws (CHR 0x0A # ind @ gap)" "list_all json_ws (CHR 0x0A # ind)"
    using ws spaces_ws [OF ws(2)] by simp_all
  show ?thesis
  proof (cases "gap = []")
    case True
    show ?thesis unfolding reads_back_def
      using parse [of "[]" "[]"] ps True op by (simp add: json_wrap_def json_head_ok_def)
  next
    case False
    show ?thesis unfolding reads_back_def
      using parse [OF wsi] ps False op by (simp add: json_wrap_def json_head_ok_def)
  qed
qed

lemma json_ser_reads_back:
  "json_value v \<Longrightarrow> json_ser gap ind v = Some t \<Longrightarrow> list_all (\<lambda>c. c = CHR '' '') gap \<Longrightarrow>
   list_all json_ws ind \<Longrightarrow> reads_back v t"
proof (induction gap ind v arbitrary: t rule: json_ser.induct)
  case (6 gap ind vs)
  let ?i = "ind @ gap"
  let ?ts = "map (\<lambda>v. case json_ser gap ?i v of Some t \<Rightarrow> t | None \<Rightarrow> ''null'') vs"
  have wsi: "list_all json_ws ?i" using "6.prems"(3,4) spaces_ws by simp
  have rel: "list_all2 reads_back vs ?ts"
  proof (rule list_all2_all_nthI)
    fix n assume n: "n < length vs"
    then have v: "vs ! n \<in> set vs" "json_value (vs ! n)" using "6.prems"(1) by (auto simp: list_all_iff)
    obtain t' where t': "json_ser gap ?i (vs ! n) = Some t'" using json_value_ser [OF v(2)] by blast
    show "reads_back (vs ! n) (?ts ! n)" using "6.IH" [OF v t' "6.prems"(3) wsi] t' n by simp
  qed simp
  show ?case
  proof (cases "vs = []")
    case True
    then show ?thesis using "6.prems"(2) reads_back_empty by (simp add: json_wrap_def)
  next
    case False
    have "reads_back (JArr vs) (json_wrap CHR ''['' CHR '']'' gap ind ?i ?ts)"
      by (rule reads_back_wrap [OF rel False "6.prems"(4,3)]) (rule json_val_array [OF rel False], simp_all)
    then show ?thesis using "6.prems"(2) by simp
  qed
next
  case (7 gap ind kvs)
  let ?i = "ind @ gap"
  let ?sp = "if gap = [] then [] else '' ''"
  let ?F = "\<lambda>(k, t). map_option (\<lambda>t. json_quote k @ '':'' @ (if gap = [] then [] else '' '') @ t) t"
  let ?kts = "map (\<lambda>(k, v). (k, json_ser gap ?i v)) kvs"
  let ?ms = "map (\<lambda>x. the (?F x)) ?kts"
  have wsi: "list_all json_ws ?i" using "7.prems"(3,4) spaces_ws by simp
  have own: "js_own_props kvs = kvs" and vals: "list_all (\<lambda>(k, v). json_value v) kvs"
    using "7.prems"(1) by simp_all
  have some: "\<forall>(k, v)\<in>set kvs. json_ser gap ?i v \<noteq> None"
    using vals json_value_ser by (fastforce simp: list_all_iff)
  have allS: "\<forall>x\<in>set ?kts. ?F x \<noteq> None" using some by auto
  have ser: "json_ser gap ind (JObj kvs) = Some (json_wrap CHR ''{'' CHR ''}'' gap ind ?i ?ms)"
    by (simp only: json_ser.simps js_own_props_map own map_filter_all_Some [OF allS])
  have rel: "list_all2 (member_text ?sp) kvs ?ms"
  proof (rule list_all2_all_nthI)
    fix n assume n: "n < length kvs"
    obtain k v where kv: "kvs ! n = (k, v)" by (cases "kvs ! n")
    have mem: "(k, v) \<in> set kvs" using n kv by (metis nth_mem)
    then have jv: "json_value v" using vals by (auto simp: list_all_iff)
    obtain t' where t': "json_ser gap ?i v = Some t'" using json_value_ser [OF jv] by blast
    have "reads_back v t'" using "7.IH" [OF mem refl jv t' "7.prems"(3) wsi] .
    then show "member_text ?sp (kvs ! n) (?ms ! n)" using n kv t' by (simp add: member_text_def)
  qed simp
  have sp: "list_all json_ws ?sp" by simp
  show ?case
  proof (cases "kvs = []")
    case True
    then show ?thesis using "7.prems"(2) ser reads_back_empty by (simp add: json_wrap_def)
  next
    case False
    have "reads_back (JObj kvs) (json_wrap CHR ''{'' CHR ''}'' gap ind ?i ?ms)"
      by (rule reads_back_wrap [OF rel False "7.prems"(4,3)])
         (use json_val_object [OF rel False _ _ sp] own in simp_all)
    then show ?thesis using "7.prems"(2) ser by simp
  qed
qed (auto simp: reads_back_scalar simp del: js_num_str.simps intro: reads_back_num)

lemma json_stop_Nil [simp]: "json_stop []"
  by (simp add: json_stop_def)

lemma JSON_parse_reads_back: "reads_back v t \<Longrightarrow> JSON_parse t = Some v"
  unfolding reads_back_def JSON_parse_def
  by (drule conjunct2, drule spec [of _ "[]"], drule spec [of _ "2 * length t + 2"])
     (simp add: json_skip_def)

lemma JSON_stringify_reads_back:
  "json_value v \<Longrightarrow> \<exists>t. JSON_stringify v space = Some t \<and> reads_back v t"
proof -
  assume v: "json_value v"
  let ?gap = "replicate (min 10 space) (CHR '' '')"
  obtain t where t: "json_ser ?gap [] v = Some t" using json_value_ser [OF v] by blast
  have "reads_back v t" by (rule json_ser_reads_back [OF v t]) (simp_all add: list_all_iff)
  with t show ?thesis by (simp add: JSON_stringify_def)
qed

section \<open>What JSON.parse returns\<close>

lemma obj_set_fresh: "k \<notin> set (map fst acc) \<Longrightarrow> obj_set acc k v = acc @ [(k, v)]"
  by (simp add: obj_set_def)

lemma fold_obj_set_distinct:
  "distinct (map fst (acc @ xs)) \<Longrightarrow> foldl (\<lambda>acc (k, v). obj_set acc k v) acc xs = acc @ xs"
  by (induction xs arbitrary: acc) (auto simp: obj_set_fresh)

lemma map_fst_obj_set: "map fst (obj_set acc k v) = (if k \<in> set (map fst acc) then map fst acc else map fst acc @ [k])"
  by (induction acc) (auto simp: obj_set_def)

lemma fold_obj_set_keys:
  "distinct (map fst acc) \<Longrightarrow> distinct (map fst (foldl (\<lambda>acc (k, v). obj_set acc k v) acc xs))"
  by (induction xs arbitrary: acc) (auto simp: map_fst_obj_set)

lemma fold_obj_set_vals:
  "snd ` set (foldl (\<lambda>acc (k, v). obj_set acc k v) acc xs) \<subseteq> snd ` set acc \<union> snd ` set xs"
proof (induction xs arbitrary: acc)
  case (Cons x xs)
  obtain k v where x: "x = (k, v)" by (cases x)
  have "snd ` set (obj_set acc k v) \<subseteq> snd ` set acc \<union> {v}"
    by (auto simp: obj_set_def image_iff split_beta)
  with Cons.IH [of "obj_set acc k v"] x show ?case by auto
qed simp

lemma distinct_keys_sort:
  "distinct (map fst xs) \<Longrightarrow> distinct (map fst (sort_key f xs))"
  by (simp add: distinct_map distinct_sort)

lemma js_own_props_distinct: "distinct (map fst (js_own_props kvs))"
proof -
  let ?m = "foldl (\<lambda>acc (k, v). obj_set acc k v) [] kvs"
  have d: "distinct (map fst ?m)" using fold_obj_set_keys [of "[]"] by simp
  then have "distinct (map fst (filter (\<lambda>(k, v). is_array_index k) ?m))"
            "distinct (map fst (filter (\<lambda>(k, v). \<not> is_array_index k) ?m))"
    by (simp_all add: distinct_map inj_on_subset [of fst "set ?m"])
  moreover have "fst ` set (filter (\<lambda>(k, v). is_array_index k) ?m)
                 \<inter> fst ` set (filter (\<lambda>(k, v). \<not> is_array_index k) ?m) = {}"
    by auto
  ultimately show ?thesis
    by (simp add: js_own_props_def Let_def distinct_keys_sort)
qed

lemma js_own_props_vals: "snd ` set (js_own_props kvs) \<subseteq> snd ` set kvs"
  using fold_obj_set_vals [of "[]" kvs] by (auto simp: js_own_props_def Let_def)

lemma js_own_props_idem: "js_own_props (js_own_props kvs) = js_own_props kvs"
proof -
  let ?m = "foldl (\<lambda>acc (k, v). obj_set acc k v) [] kvs"
  let ?P = "\<lambda>(k, v). is_array_index k" and ?f = "\<lambda>(k, v). dec_val k"
  let ?a = "sort_key ?f (filter ?P ?m)" and ?b = "filter (\<lambda>(k, v). \<not> is_array_index k) ?m"
  have o: "js_own_props kvs = ?a @ ?b" by (simp add: js_own_props_def Let_def)
  have fo: "foldl (\<lambda>acc (k, v). obj_set acc k v) [] (?a @ ?b) = ?a @ ?b"
    using fold_obj_set_distinct [of "[]" "?a @ ?b"] js_own_props_distinct [of kvs] o by simp
  have fa: "filter ?P (?a @ ?b) = ?a"
    by (auto simp: filter_id_conv set_sort split_beta)
  have fb1: "filter (\<lambda>(k, v). \<not> is_array_index k) ?a = []"
    by (auto simp: filter_empty_conv set_sort)
  have fb2: "filter (\<lambda>(k, v). \<not> is_array_index k) ?b = ?b"
    by (simp add: filter_id_conv)
  have fb: "filter (\<lambda>(k, v). \<not> is_array_index k) (?a @ ?b) = ?b"
    by (simp only: filter_append fb1 fb2 append_Nil)
  have ss: "sort_key ?f ?a = ?a" by (rule sort_key_id_if_sorted) (rule sorted_sort_key)
  show ?thesis unfolding o by (simp only: js_own_props_def Let_def fo fa fb ss)
qed

lemma is_decimal_scale10: "is_decimal (scale10 m k)"
proof -
  have "scale10 m k * 10 ^ nat (- k) \<in> \<int>"
    by (cases "0 \<le> k") (simp_all add: scale10_def)
  then show ?thesis by (auto simp: is_decimal_iff)
qed

lemma is_decimal_uminus [simp]: "is_decimal (- q) \<longleftrightarrow> is_decimal q"
proof -
  have "(- q) * 10 ^ d \<in> \<int> \<longleftrightarrow> q * 10 ^ d \<in> \<int>" for d
    by (metis Ints_minus minus_minus mult_minus_left)
  then show ?thesis by (simp add: is_decimal_iff)
qed

lemma json_number_decimal: "json_number s = Some (q, r) \<Longrightarrow> is_decimal q"
  by (auto simp: json_number_def Let_def is_decimal_scale10 split: option.splits prod.splits if_splits)

lemma json_value_obj:
  assumes a: "list_all (\<lambda>(k, v). json_value v) kvs"
  shows "json_value (JObj (js_own_props kvs))"
proof -
  have jv: "json_value v" if kv: "(k, v) \<in> set (js_own_props kvs)" for k v
  proof -
    have "v \<in> snd ` set (js_own_props kvs)" using kv by (metis image_eqI snd_conv)
    then have "v \<in> snd ` set kvs" using js_own_props_vals by (rule subsetD [rotated])
    then obtain k' where "(k', v) \<in> set kvs" by (metis imageE prod.collapse)
    then show ?thesis using a by (simp add: list_all_iff) (metis case_prod_conv)
  qed
  have "list_all (\<lambda>(k, v). json_value v) (js_own_props kvs)"
    unfolding list_all_iff by (clarify, rule jv)
  then show ?thesis by (simp only: json_value.simps js_own_props_idem simp_thms)
qed

lemma json_scalar_value:
  assumes "(if c = CHR 0x22 then map_option (\<lambda>(t, y). (JStr t, y)) (json_str r0)
       else if take 4 (c # r0) = ''true'' then Some (JBool True, drop 4 (c # r0))
       else if take 5 (c # r0) = ''false'' then Some (JBool False, drop 5 (c # r0))
       else if take 4 (c # r0) = ''null'' then Some (JNull, drop 4 (c # r0))
       else map_option (\<lambda>(q, y). (JNum q, y)) (json_number (c # r0))) = Some (v, r)"
  shows "json_value v"
proof (cases "c = CHR 0x22")
  case True
  then show ?thesis using assms by auto
next
  case F: False
  show ?thesis
  proof (cases "take 4 (c # r0) = ''true'' \<or> take 5 (c # r0) = ''false'' \<or> take 4 (c # r0) = ''null''")
    case True
    then show ?thesis using assms F
      by (auto simp only: if_False if_True json_value.simps option.inject prod.inject split: if_split_asm)
  next
    case False
    then have n: "take 4 (c # r0) \<noteq> ''true''" "take 5 (c # r0) \<noteq> ''false''" "take 4 (c # r0) \<noteq> ''null''"
      by simp_all
    have e: "map_option (\<lambda>(q, y). (JNum q, y)) (json_number (c # r0)) = Some (v, r)"
      using assms by (simp only: if_not_P [OF F] if_not_P [OF n(1)] if_not_P [OF n(2)] if_not_P [OF n(3)])
    then obtain q r' where "json_number (c # r0) = Some (q, r')" "v = JNum q"
      by (cases "json_number (c # r0)") auto
    then show ?thesis using json_number_decimal by simp
  qed
qed

lemma json_parse_values:
  "(\<forall>s v r. json_val f s = Some (v, r) \<longrightarrow> json_value v) \<and>
   (\<forall>acc s v r. json_elems f acc s = Some (v, r) \<longrightarrow> list_all json_value acc \<longrightarrow> json_value v) \<and>
   (\<forall>acc s v r. json_members f acc s = Some (v, r) \<longrightarrow> list_all (\<lambda>(k, v). json_value v) acc \<longrightarrow> json_value v)"
proof (induction f)
  case 0
  then show ?case by simp
next
  case (Suc f)
  then have IH1: "\<And>s v r. json_val f s = Some (v, r) \<Longrightarrow> json_value v"
    and IH2: "\<And>acc s v r. json_elems f acc s = Some (v, r) \<Longrightarrow> list_all json_value acc \<Longrightarrow> json_value v"
    and IH3: "\<And>acc s v r. json_members f acc s = Some (v, r) \<Longrightarrow> list_all (\<lambda>(k, v). json_value v) acc \<Longrightarrow> json_value v"
    by blast+
  have e0: "json_value (JObj [])" by (simp add: js_own_props_def)
  have A: "json_value v" if a: "json_val (Suc f) s = Some (v, r)" for s v r
  proof -
    obtain c r0 where sk: "json_skip s = c # r0" using a by (cases "json_skip s") auto
    show ?thesis
    proof (cases "c = CHR ''[''")
      case True
      then show ?thesis using a sk by (auto split: list.splits if_splits dest: IH2 [where acc = "[]"])
    next
      case F1: False
      show ?thesis
      proof (cases "c = CHR ''{''")
        case True
        then show ?thesis using a sk e0 by (auto split: list.splits if_splits dest: IH3 [where acc = "[]"])
      next
        case F2: False
        show ?thesis using a sk F1 F2 json_scalar_value by simp
      qed
    qed
  qed
  have B: "json_value v" if a: "json_elems (Suc f) acc s = Some (v, r)" and l: "list_all json_value acc"
    for acc s v r
  proof -
    obtain x1 r1 where v1: "json_val f s = Some (x1, r1)"
      using a by (cases "json_val f s") auto
    have j1: "json_value x1" using IH1 [OF v1] .
    obtain d r' where sk: "json_skip r1 = d # r'" using a v1 by (cases "json_skip r1") auto
    consider "d = CHR '',''" "json_elems f (acc @ [x1]) r' = Some (v, r)"
      | "d = CHR '']''" "v = JArr (acc @ [x1])"
      using a v1 sk by (auto split: if_splits)
    then show ?thesis
    proof cases
      case 1
      then show ?thesis using IH2 l j1 by simp
    next
      case 2
      then show ?thesis using l j1 by simp
    qed
  qed
  have C: "json_value v" if a: "json_members (Suc f) acc s = Some (v, r)"
    and l: "list_all (\<lambda>(k, v). json_value v) acc" for acc s v r
  proof -
    obtain r0 where s0: "json_skip s = CHR 0x22 # r0"
      using a by (cases "json_skip s") (auto split: if_splits)
    obtain k r1 where k: "json_str r0 = Some (k, r1)"
      using a s0 by (cases "json_str r0") auto
    obtain r2 where s1: "json_skip r1 = CHR '':'' # r2"
      using a s0 k by (cases "json_skip r1") (auto split: if_splits)
    obtain x1 r3 where v1: "json_val f r2 = Some (x1, r3)"
      using a s0 k s1 by (cases "json_val f r2") auto
    have l': "list_all (\<lambda>(k, v). json_value v) (acc @ [(k, x1)])" using l IH1 [OF v1] by simp
    obtain e r4 where s3: "json_skip r3 = e # r4"
      using a s0 k s1 v1 by (cases "json_skip r3") auto
    consider "json_members f (acc @ [(k, x1)]) r4 = Some (v, r)"
      | "v = JObj (js_own_props (acc @ [(k, x1)]))"
      using a s0 k s1 v1 s3 by (auto split: if_splits)
    then show ?thesis
    proof cases
      case 1
      then show ?thesis using IH3 l' by blast
    next
      case 2
      then show ?thesis using json_value_obj [OF l'] by simp
    qed
  qed
  show ?case using A B C by blast
qed

lemma JSON_parse_value: "JSON_parse s = Some v \<Longrightarrow> json_value v"
  using conjunct1 [OF json_parse_values [of "2 * length s + 2"]]
  by (auto simp: JSON_parse_def simp del: json_val.simps split: option.splits prod.splits if_splits)

lemma js_prop_json_value:
  assumes "json_value v"
  shows "js_prop v k = JUndefined \<or> json_value (js_prop v k)"
proof (cases v)
  case (JObj kvs)
  show ?thesis
  proof (cases "map_of (rev kvs) k")
    case (Some x)
    then have "(k, x) \<in> set kvs" by (auto dest: map_of_SomeD)
    with assms JObj have "json_value x" by (auto simp: list_all_iff)
    with JObj Some show ?thesis by simp
  qed (simp add: JObj)
qed simp_all

section \<open>Properties\<close>



end
