(* ===== verification/Store.thy ===== *)
theory Store
  imports Json
begin

text \<open>
  The student store of \<^verbatim>\<open>src/routes/students.js\<close>: the module-level array
  \<open>students\<close>, its JSON file \<^verbatim>\<open>data/students.json\<close> held as its text
  (\<open>loadStudents\<close> runs \<open>JSON.parse\<close> on it, \<open>saveStudents\<close> writes
  \<open>JSON.stringify(students, null, 2)\<close>), and the array operations the handlers run on it (the id lookup by
  \<open>find\<close>/\<open>findIndex\<close>, the case-insensitive e-mail lookup, the maximum id by
  \<open>reduce\<close>, removal by \<open>splice\<close>).  The invariant of the store is that ids and
  lower-cased e-mails are pairwise distinct; the abstract view of the store is the map
  from ids to records, and the lemmas at the end show how each array operation acts on
  that map.
\<close>

section \<open>Records and their JSON form\<close>

text \<open>A student as the handlers build it: \<open>{id, name, age, email, isActive}\<close>.
  The field \<open>id\<close> is called \<open>sid\<close> (HOL's \<open>id\<close> is the identity function).\<close>

record student =
  sid :: rat
  name :: string
  age :: rat
  email :: string
  isActive :: bool

definition student_json :: "student \<Rightarrow> jsval" where
  "student_json s =
     JObj [(''id'', JNum (sid s)), (''name'', JStr (name s)), (''age'', JNum (age s)),
           (''email'', JStr (email s)), (''isActive'', JBool (isActive s))]"

text \<open>
  Reading a record back from the parsed file.  The model covers files whose entries
  carry the five fields with these JSON types; other content is outside it (the code
  would keep whatever \<open>JSON.parse\<close> returned).
\<close>

definition student_of_json :: "jsval \<Rightarrow> student option" where
  "student_of_json v =
     (case js_prop v ''id'' of
        JNum i \<Rightarrow>
          (case js_prop v ''name'' of
             JStr n \<Rightarrow>
               (case js_prop v ''age'' of
                  JNum a \<Rightarrow>
                    (case js_prop v ''email'' of
                       JStr e \<Rightarrow>
                         (case js_prop v ''isActive'' of
                            JBool b \<Rightarrow> Some \<lparr>sid = i, name = n, age = a, email = e, isActive = b\<rparr>
                          | _ \<Rightarrow> None)
                     | _ \<Rightarrow> None)
                | _ \<Rightarrow> None)
           | _ \<Rightarrow> None)
      | _ \<Rightarrow> None)"

definition students_of_json :: "jsval \<Rightarrow> student list option" where
  "students_of_json v = (case v of JArr vs \<Rightarrow> those (map student_of_json vs) | _ \<Rightarrow> None)"

section \<open>The store and its file\<close>

text \<open>
  \<open>students\<close> is the in-memory array; \<open>data_file\<close> the text of
  \<^verbatim>\<open>data/students.json\<close> (\<open>None\<close>: the file cannot be read).
\<close>

record store =
  students :: "student list"
  data_file :: "string option"

text \<open>\<open>loadStudents\<close>: \<open>JSON.parse(fs.readFileSync(dataFilePath, "utf-8"))\<close>; a read or
  parse failure is caught and gives the empty array.  \<open>None\<close> is a parsed file whose
  entries are not records of the five fields, which the model does not cover.\<close>

definition loadStudents :: "string option \<Rightarrow> student list option" where
  "loadStudents f =
     (case f of
        None \<Rightarrow> Some []
      | Some raw \<Rightarrow> (case JSON_parse raw of None \<Rightarrow> Some [] | Some j \<Rightarrow> students_of_json j))"

text \<open>\<open>saveStudents\<close>: \<open>fs.writeFileSync(dataFilePath, JSON.stringify(students, null, 2))\<close>.\<close>

definition saveStudents :: "store \<Rightarrow> store" where
  "saveStudents st = st\<lparr>data_file := JSON_stringify (JArr (map student_json (students st))) 2\<rparr>"

text \<open>The store at module load time.\<close>

definition boot_store :: "string option \<Rightarrow> store option" where
  "boot_store f = map_option (\<lambda>ss. \<lparr>students = ss, data_file = f\<rparr>) (loadStudents f)"

section \<open>Array operations of the handlers\<close>

text \<open>\<open>s.id === id\<close> for the number \<open>id\<close> parsed from the path.\<close>

definition id_is :: "jsnum \<Rightarrow> student \<Rightarrow> bool" where
  "id_is n s \<longleftrightarrow> n = Fin (sid s)"

text \<open>\<open>students.reduce((max, s) => (s.id > max ? s.id : max), 0)\<close>.\<close>

definition max_id :: "student list \<Rightarrow> rat" where
  "max_id ss = foldl (\<lambda>m s. if sid s > m then sid s else m) 0 ss"

text \<open>\<open>students.find((s) => s.email.toLowerCase() === email.toLowerCase())\<close> (create)
  and the same with \<open>&& s.id !== id\<close> (replace, patch).\<close>

definition email_owner :: "student list \<Rightarrow> string \<Rightarrow> student option" where
  "email_owner ss e = List.find (\<lambda>s. same_ci (email s) e) ss"

definition email_owner_other :: "student list \<Rightarrow> string \<Rightarrow> jsnum \<Rightarrow> student option" where
  "email_owner_other ss e n = List.find (\<lambda>s. same_ci (email s) e \<and> \<not> id_is n s) ss"

section \<open>Invariant\<close>

definition ids_distinct :: "student list \<Rightarrow> bool" where
  "ids_distinct ss \<longleftrightarrow> distinct (map sid ss)"

definition emails_distinct :: "student list \<Rightarrow> bool" where
  "emails_distinct ss \<longleftrightarrow> distinct (map (\<lambda>s. js_lower (email s)) ss)"

definition store_inv :: "student list \<Rightarrow> bool" where
  "store_inv ss \<longleftrightarrow> ids_distinct ss \<and> emails_distinct ss"

section \<open>Abstract view: the map from ids to records\<close>

text \<open>The shape every record the handlers write has: a positive age and a positive
  integer id.\<close>

definition student_typed :: "student \<Rightarrow> bool" where
  "student_typed s \<longleftrightarrow> 0 < age s \<and> 0 < sid s \<and> sid s \<in> \<int>"

text \<open>The numbers of a record are finite decimals, as every number read from JSON text is.\<close>

definition student_decimal :: "student \<Rightarrow> bool" where
  "student_decimal s \<longleftrightarrow> is_decimal (sid s) \<and> is_decimal (age s)"

definition store_map :: "student list \<Rightarrow> rat \<rightharpoonup> student" where
  "store_map ss = map_of (map (\<lambda>s. (sid s, s)) ss)"

section \<open>The shipped data file\<close>

text \<open>The content of \<^verbatim>\<open>data/students.json\<close> as the repository documents it.\<close>

definition shipped_data :: jsval where
  "shipped_data = JArr
     [JObj [(''id'', JNum 1), (''name'', JStr ''Alice Johnson''), (''age'', JNum 20),
            (''email'', JStr ''alice@example.com''), (''isActive'', JBool True)],
      JObj [(''id'', JNum 2), (''name'', JStr ''Bob Smith''), (''age'', JNum 22),
            (''email'', JStr ''bob@example.com''), (''isActive'', JBool True)],
      JObj [(''id'', JNum 3), (''name'', JStr ''Charlie Brown''), (''age'', JNum 19),
            (''email'', JStr ''charlie@example.com''), (''isActive'', JBool False)]]"

text \<open>The text of \<^verbatim>\<open>data/students.json\<close> as the repository documents it, line by
  line.\<close>

definition shipped_text :: string where
  \<open>shipped_text = join_sep [CHR 0x0A]
    [''['',
     ''  {'',
     ''    "id": 1,'',
     ''    "name": "Alice Johnson",'',
     ''    "age": 20,'',
     ''    "email": "alice@example.com",'',
     ''    "isActive": true'',
     ''  },'',
     ''  {'',
     ''    "id": 2,'',
     ''    "name": "Bob Smith",'',
     ''    "age": 22,'',
     ''    "email": "bob@example.com",'',
     ''    "isActive": true'',
     ''  },'',
     ''  {'',
     ''    "id": 3,'',
     ''    "name": "Charlie Brown",'',
     ''    "age": 19,'',
     ''    "email": "charlie@example.com",'',
     ''    "isActive": false'',
     ''  }'',
     '']'']\<close>

section \<open>Lemmas\<close>

lemma max_id_fold_ge: "m \<le> foldl (\<lambda>m s. if sid s > m then sid s else m) m ss"
proof (induction ss arbitrary: m)
  case Nil
  then show ?case by simp
next
  case (Cons x xs)
  have "m \<le> (if sid x > m then sid x else m)" by simp
  also have "\<dots> \<le> foldl (\<lambda>m s. if sid s > m then sid s else m)
                     (if sid x > m then sid x else m) xs"
    by (rule Cons.IH)
  finally show ?case by simp
qed

lemma max_id_fold_bound:
  "s \<in> set ss \<Longrightarrow> sid s \<le> foldl (\<lambda>m s. if sid s > m then sid s else m) m ss"
proof (induction ss arbitrary: m)
  case Nil
  then show ?case by simp
next
  case (Cons x xs)
  show ?case
  proof (cases "s = x")
    case True
    have "sid x \<le> (if sid x > m then sid x else m)" by simp
    also have "\<dots> \<le> foldl (\<lambda>m s. if sid s > m then sid s else m)
                       (if sid x > m then sid x else m) xs"
      by (rule max_id_fold_ge)
    finally show ?thesis using True by simp
  next
    case False
    with Cons show ?thesis by simp
  qed
qed

text \<open>Every id in the store is at most \<^const>\<open>max_id\<close>, which is at least \<open>0\<close>.\<close>

lemma max_id_ge_sid: "s \<in> set ss \<Longrightarrow> sid s \<le> max_id ss"
  by (simp add: max_id_def max_id_fold_bound)

lemma max_id_nonneg: "0 \<le> max_id ss"
  by (simp add: max_id_def max_id_fold_ge)

lemma fresh_id_not_in_store: "max_id ss + 1 \<notin> sid ` set ss"
  using max_id_ge_sid by fastforce

lemma fresh_id_ne_sid [simp]: "s \<in> set ss \<Longrightarrow> max_id ss + 1 \<noteq> sid s"
  using max_id_ge_sid by fastforce

lemma id_is_Fin [simp]: "id_is (Fin q) s \<longleftrightarrow> sid s = q"
  by (auto simp: id_is_def)

lemma id_is_inf [simp]: "\<not> id_is PosInf s" "\<not> id_is NegInf s"
  by (simp_all add: id_is_def)

lemma email_owner_None_iff:
  "email_owner ss e = None \<longleftrightarrow> (\<forall>s\<in>set ss. \<not> same_ci (email s) e)"
  by (auto simp: email_owner_def find_None_iff)

lemma email_owner_other_None_iff:
  "email_owner_other ss e n = None \<longleftrightarrow> (\<forall>s\<in>set ss. same_ci (email s) e \<longrightarrow> id_is n s)"
  by (auto simp: email_owner_other_def find_None_iff)

lemma email_owner_Some:
  "email_owner ss e = Some x \<Longrightarrow> x \<in> set ss \<and> same_ci (email x) e"
  by (auto simp: email_owner_def find_Some_iff)

lemma email_owner_other_Some:
  "email_owner_other ss e n = Some x \<Longrightarrow> x \<in> set ss \<and> same_ci (email x) e \<and> \<not> id_is n x"
  by (auto simp: email_owner_other_def find_Some_iff)

lemma ids_distinct_append_fresh:
  "ids_distinct ss \<Longrightarrow> sid s \<notin> sid ` set ss \<Longrightarrow> ids_distinct (ss @ [s])"
  by (simp add: ids_distinct_def)

lemma emails_distinct_append_fresh:
  "emails_distinct ss \<Longrightarrow> \<forall>x\<in>set ss. \<not> same_ci (email x) (email s) \<Longrightarrow>
     emails_distinct (ss @ [s])"
  by (auto simp: emails_distinct_def same_ci_def)

lemma ids_distinct_update_same:
  "ids_distinct ss \<Longrightarrow> i < length ss \<Longrightarrow> sid v = sid (ss ! i) \<Longrightarrow> ids_distinct (ss[i := v])"
  by (simp add: ids_distinct_def distinct_map_update_same_key)

lemma emails_distinct_update_same:
  "emails_distinct ss \<Longrightarrow> i < length ss \<Longrightarrow> email v = email (ss ! i) \<Longrightarrow>
     emails_distinct (ss[i := v])"
  unfolding emails_distinct_def
  by (rule distinct_map_update_same_key) simp_all

text \<open>Replacing record \<open>i\<close> by one whose e-mail no other record has (case-insensitively)
  keeps the e-mails distinct.\<close>

lemma emails_distinct_update_fresh:
  assumes "emails_distinct ss" "i < length ss"
    and "\<forall>x\<in>set ss. same_ci (email x) (email v) \<longrightarrow> x = ss ! i"
  shows "emails_distinct (ss[i := v])"
proof -
  let ?f = "\<lambda>s. js_lower (email s)"
  have "?f v \<notin> set (map ?f ss) - {map ?f ss ! i}"
    using assms(2,3) by (auto simp: same_ci_def)
  with assms(1) have "distinct ((map ?f ss)[i := ?f v])"
    by (simp add: emails_distinct_def distinct_list_update)
  then show ?thesis by (simp add: emails_distinct_def map_update)
qed

text \<open>With distinct ids, the id determines the record.\<close>

lemma ids_distinct_sid_eq:
  assumes "ids_distinct ss" "x \<in> set ss" "k < length ss" "sid x = sid (ss ! k)"
  shows "x = ss ! k"
proof -
  from assms(2) obtain j where j: "j < length ss" "x = ss ! j"
    by (auto simp: in_set_conv_nth)
  with assms(1,3,4) have "j = k"
    using nth_eq_iff_index_eq [of "map sid ss" j k] by (simp add: ids_distinct_def)
  with j show ?thesis by simp
qed

lemma ids_distinct_distinct: "ids_distinct ss \<Longrightarrow> distinct ss"
  by (simp add: ids_distinct_def distinct_map)

lemma store_inv_remove_nth: "store_inv ss \<Longrightarrow> store_inv (remove_nth i ss)"
  by (auto simp: store_inv_def ids_distinct_def emails_distinct_def map_remove_nth)

lemma store_inv_update_same:
  "store_inv ss \<Longrightarrow> i < length ss \<Longrightarrow> sid v = sid (ss ! i) \<Longrightarrow> email v = email (ss ! i) \<Longrightarrow>
     store_inv (ss[i := v])"
  by (simp add: store_inv_def ids_distinct_update_same emails_distinct_update_same)

text \<open>Replacing record \<open>k\<close> by one with the same id whose e-mail no record with another
  id has keeps the invariant.\<close>

lemma store_inv_update_fresh:
  assumes inv: "store_inv ss" and k: "k < length ss" and id: "sid v = sid (ss ! k)"
    and free: "email_owner_other ss (email v) (Fin (sid v)) = None"
  shows "store_inv (ss[k := v])"
proof -
  have "\<forall>x\<in>set ss. same_ci (email x) (email v) \<longrightarrow> x = ss ! k"
  proof (intro ballI impI)
    fix x assume x: "x \<in> set ss" "same_ci (email x) (email v)"
    with free have "sid x = sid (ss ! k)"
      by (auto simp: email_owner_other_None_iff id)
    with inv x(1) k show "x = ss ! k"
      by (auto simp: store_inv_def intro: ids_distinct_sid_eq)
  qed
  with inv k id show ?thesis
    by (simp add: store_inv_def ids_distinct_update_same emails_distinct_update_fresh)
qed

lemma store_inv_append:
  "store_inv ss \<Longrightarrow> sid s \<notin> sid ` set ss \<Longrightarrow> email_owner ss (email s) = None \<Longrightarrow>
     store_inv (ss @ [s])"
  by (auto simp: store_inv_def email_owner_None_iff same_ci_sym
      intro!: ids_distinct_append_fresh emails_distinct_append_fresh)

lemma store_inv_Nil [simp]: "store_inv []"
  by (simp add: store_inv_def ids_distinct_def emails_distinct_def)

section \<open>The id map\<close>

lemma option_eq_by_Some: "(\<And>v. a = Some v \<longleftrightarrow> b = Some v) \<Longrightarrow> a = b"
  by (cases a; cases b) auto

lemma store_map_Some_iff:
  "ids_distinct ss \<Longrightarrow> store_map ss q = Some s \<longleftrightarrow> s \<in> set ss \<and> sid s = q"
  unfolding store_map_def ids_distinct_def
  by (subst map_of_eq_Some_iff) (auto simp: comp_def)

lemma store_map_None_iff: "store_map ss q = None \<longleftrightarrow> q \<notin> sid ` set ss"
  by (simp add: store_map_def map_of_eq_None_iff image_image)

lemma store_map_append_fresh:
  "sid s \<notin> sid ` set ss \<Longrightarrow> store_map (ss @ [s]) = (store_map ss)(sid s \<mapsto> s)"
proof (rule ext)
  fix q
  assume fresh: "sid s \<notin> sid ` set ss"
  have "map_of (map (\<lambda>s. (sid s, s)) ss) (sid s) = None"
    using fresh by (simp add: map_of_eq_None_iff image_image)
  then show "store_map (ss @ [s]) q = ((store_map ss)(sid s \<mapsto> s)) q"
    by (cases "q = sid s") (auto simp: store_map_def map_add_def split: option.splits)
qed

lemma store_map_update_same:
  assumes "ids_distinct ss" "k < length ss" "sid v = sid (ss ! k)"
  shows "store_map (ss[k := v]) = (store_map ss)(sid v \<mapsto> v)"
proof (rule ext, rule option_eq_by_Some)
  fix q x
  have d': "ids_distinct (ss[k := v])" using assms by (rule ids_distinct_update_same)
  have set': "set (ss[k := v]) = insert v (set ss - {ss ! k})"
    using assms ids_distinct_distinct by (simp add: set_update_distinct)
  show "store_map (ss[k := v]) q = Some x \<longleftrightarrow> ((store_map ss)(sid v \<mapsto> v)) q = Some x"
    using assms(3) ids_distinct_sid_eq [OF assms(1) _ assms(2)]
    by (auto simp: store_map_Some_iff [OF d'] store_map_Some_iff [OF assms(1)] set')
qed

lemma store_map_remove_nth:
  assumes "ids_distinct ss" "k < length ss"
  shows "store_map (remove_nth k ss) = (store_map ss)(sid (ss ! k) := None)"
proof (rule ext, rule option_eq_by_Some)
  fix q x
  have d': "ids_distinct (remove_nth k ss)"
    using assms(1) by (auto simp: ids_distinct_def map_remove_nth)
  have set': "set (remove_nth k ss) = set ss - {ss ! k}"
    using assms ids_distinct_distinct by (simp add: set_remove_nth_distinct)
  show "store_map (remove_nth k ss) q = Some x \<longleftrightarrow> ((store_map ss)(sid (ss ! k) := None)) q = Some x"
    using ids_distinct_sid_eq [OF assms(1) _ assms(2)]
    by (auto simp: store_map_Some_iff [OF d'] store_map_Some_iff [OF assms(1)] set')
qed

lemma find_id_is_store_map:
  assumes "ids_distinct ss"
  shows "List.find (id_is n) ss = (case n of Fin q \<Rightarrow> store_map ss q | _ \<Rightarrow> None)"
proof (cases n)
  case (Fin q)
  have "List.find (id_is n) ss = Some s \<longleftrightarrow> store_map ss q = Some s" for s
  proof
    assume "List.find (id_is n) ss = Some s"
    with Fin show "store_map ss q = Some s"
      by (auto simp: store_map_Some_iff [OF assms] find_Some_iff)
  next
    assume "store_map ss q = Some s"
    then have s: "s \<in> set ss" "sid s = q" by (simp_all add: store_map_Some_iff [OF assms])
    then obtain x where x: "List.find (id_is n) ss = Some x"
      using Fin by (cases "List.find (id_is n) ss") (auto simp: find_None_iff)
    then have "x \<in> set ss" "sid x = q" using Fin by (auto simp: find_Some_iff)
    with s assms show "List.find (id_is n) ss = Some s"
      using x ids_distinct_def by (metis distinct_map inj_onD)
  qed
  with Fin show ?thesis by (auto intro: option_eq_by_Some)
qed (simp_all add: find_None_iff)
section \<open>The largest id\<close>

lemma max_id_fold_Max:
  "foldl (\<lambda>m s. if sid s > m then sid s else m) m ss = Max (insert m (sid ` set ss))"
proof (induction ss arbitrary: m)
  case Nil
  then show ?case by simp
next
  case (Cons s ss)
  have ins: "Max (insert (max a b) S) = Max (insert a (insert b S))" if "finite S" for a b :: rat and S
  proof (cases "S = {}")
    case True
    then show ?thesis by simp
  next
    case False
    with that show ?thesis by (simp add: max.assoc)
  qed
  have "(if m < sid s then sid s else m) = max m (sid s)" by auto
  with Cons.IH ins [of "sid ` set ss" m "sid s"] show ?case by simp
qed

text \<open>C18: the \<open>reduce\<close> that computes \<open>maxId\<close> is the maximum of 0 and the
  stored ids.\<close>

theorem max_id_eq_Max: "max_id ss = Max (insert 0 (sid ` set ss))"
  by (simp add: max_id_def max_id_fold_Max)

section \<open>Typed records\<close>

lemma list_all_nth_update:
  "list_all P xs \<Longrightarrow> k < length xs \<Longrightarrow> (P (xs ! k) \<Longrightarrow> P v) \<Longrightarrow> list_all P (xs[k := v])"
  by (auto simp: list_all_iff dest!: set_update_subset_insert [THEN subsetD])

lemma list_all_remove_nth: "list_all P xs \<Longrightarrow> list_all P (remove_nth k xs)"
  using set_remove_nth_subset by (fastforce simp: list_all_iff)

lemma max_id_in: "max_id ss \<in> insert 0 (sid ` set ss)"
  using Max_in [of "insert 0 (sid ` set ss)"] by (simp add: max_id_def max_id_fold_Max)

lemma max_id_Ints: "list_all student_typed ss \<Longrightarrow> max_id ss \<in> \<int>"
  using max_id_in [of ss] by (auto simp: list_all_iff student_typed_def)

lemma fresh_id_typed: "list_all student_typed ss \<Longrightarrow> 0 < max_id ss + 1 \<and> max_id ss + 1 \<in> \<int>"
  using max_id_nonneg [of ss] max_id_Ints [of ss] by simp

section \<open>Saving and loading\<close>

lemma student_of_json_student_json [simp]: "student_of_json (student_json s) = Some s"
  by (simp add: student_of_json_def student_json_def)

lemma those_map_Some [simp]: "those (map Some xs) = Some xs"
  by (induction xs) auto

lemma json_value_student_json: "student_decimal s \<Longrightarrow> json_value (student_json s)"
  by (simp add: student_json_def student_decimal_def js_own_props_def obj_set_def is_array_index_def
      is_dec_def)

lemma those_Some_iff: "those (map f xs) = Some ys \<longleftrightarrow> list_all2 (\<lambda>x y. f x = Some y) xs ys"
proof (induction xs arbitrary: ys)
  case (Cons x xs)
  then show ?case by (cases ys) (auto split: option.splits)
qed (simp add: eq_commute)

lemma student_of_json_decimal:
  assumes "json_value v" "student_of_json v = Some s"
  shows "student_decimal s"
proof -
  have "js_prop v ''id'' \<noteq> JUndefined" "js_prop v ''age'' \<noteq> JUndefined"
    using assms(2) by (auto simp: student_of_json_def split: jsval.splits)
  then have "json_value (js_prop v ''id'')" "json_value (js_prop v ''age'')"
    using js_prop_json_value [OF assms(1)] by blast+
  with assms(2) show ?thesis
    by (auto simp: student_of_json_def student_decimal_def split: jsval.splits)
qed

text \<open>Everything \<open>loadStudents\<close> returns has decimal numbers: it comes from
  \<open>JSON.parse\<close> or is empty.\<close>

lemma loadStudents_decimal: "loadStudents f = Some ss \<Longrightarrow> list_all student_decimal ss"
proof -
  assume l: "loadStudents f = Some ss"
  show ?thesis
  proof (cases "\<exists>raw j. f = Some raw \<and> JSON_parse raw = Some j")
    case True
    then obtain raw j where f: "f = Some raw" "JSON_parse raw = Some j" by blast
    have jv: "json_value j" using JSON_parse_value [OF f(2)] .
    from l f obtain vs where j: "j = JArr vs" and t: "those (map student_of_json vs) = Some ss"
      by (auto simp: loadStudents_def students_of_json_def split: jsval.splits)
    have "list_all json_value vs" using jv j by simp
    with t show ?thesis
      by (auto simp: those_Some_iff list_all2_conv_all_nth list_all_length
          intro: student_of_json_decimal)
  next
    case False
    with l show ?thesis by (auto simp: loadStudents_def split: option.splits)
  qed
qed

lemma save_reads_back:
  assumes "list_all student_decimal ss"
  shows "\<exists>t. JSON_stringify (JArr (map student_json ss)) 2 = Some t
             \<and> JSON_parse t = Some (JArr (map student_json ss))"
proof -
  have "json_value (JArr (map student_json ss))"
    using assms by (simp add: list_all_iff json_value_student_json)
  then show ?thesis using JSON_stringify_reads_back JSON_parse_reads_back by blast
qed

lemma loadStudents_saveStudents:
  "list_all student_decimal (students st) \<Longrightarrow> loadStudents (data_file (saveStudents st)) = Some (students st)"
  using save_reads_back [of "students st"]
  by (auto simp: loadStudents_def saveStudents_def students_of_json_def comp_def)

text \<open>C12: what \<open>saveStudents\<close> writes, \<open>loadStudents\<close> reads back unchanged: the file
  holds the text \<open>JSON.stringify(students, null, 2)\<close>, \<open>JSON.parse\<close> reads it as the
  array of records, and a restart after a save resumes with the same students, for
  records whose numbers are decimals (every number JSON text can carry).\<close>

theorem load_after_save:
  assumes "list_all student_decimal (students st)"
  shows "\<exists>t. data_file (saveStudents st) = Some t
             \<and> JSON_parse t = Some (JArr (map student_json (students st)))
             \<and> loadStudents (Some t) = Some (students st)"
  using save_reads_back [OF assms]
  by (auto simp: loadStudents_def saveStudents_def students_of_json_def comp_def)

end
