(* ===== verification/Http.thy ===== *)
theory Http
  imports Prelude
begin

text \<open>
  The request/response interface between Express and the code of
  \<^verbatim>\<open>src/unnamed/part_002\<close> (\<^verbatim>\<open>server.js\<close>) and \<^verbatim>\<open>src/routes/students.js\<close>:
  what a handler reads from \<open>req\<close> (method, URL, headers, the cookie object built by
  \<open>cookie-parser\<close>, the body built by \<open>express.json()\<close>) and what it writes with
  \<open>res.status(n).json(v)\<close>, \<open>res.cookie\<close> and \<open>res.clearCookie\<close>.  It also holds
  the parts of Express routing the handlers depend on: path matching (case-insensitive,
  optional trailing slash, as \<open>path-to-regexp\<close> compiles routes by default), route
  parameters decoded by \<open>decodeURIComponent\<close>, and the generic error responder of
  \<^verbatim>\<open>server.js\<close>, which every error passed to \<open>next(err)\<close> reaches.
\<close>

section \<open>Requests and responses\<close>

datatype http_method = GET | HEAD | POST | PUT | PATCH | DELETE | OPTIONS | OTHER string

datatype cookie_op = SetCookie string string | ClearCookie string

record response =
  status :: nat
  body :: jsval
  cookie_ops :: "cookie_op list"

text \<open>What \<open>express.json()\<close> left in \<open>req.body\<close>: a parsed value, or the error it passed
  on (status and message) for a malformed or oversized payload.\<close>

datatype body_in = JsonBody jsval | BadBody nat string

text \<open>\<open>headers\<close> holds the lower-cased header names with their values; \<open>cookies\<close> is
  the object \<open>cookie-parser\<close> built from the Cookie header.\<close>

record request =
  req_method :: http_method
  url :: string
  headers :: "(string \<times> string) list"
  cookies :: "(string \<times> jsval) list"
  req_body :: body_in

text \<open>An authentication middleware: it either answers the request itself (\<open>Inl\<close>) or
  calls \<open>next()\<close> with \<open>req.user\<close> set (\<open>Inr\<close>).\<close>

type_synonym guard = "request \<Rightarrow> response + jsval"

text \<open>\<open>res.status(n).json(v)\<close>.\<close>

definition json_reply :: "nat \<Rightarrow> jsval \<Rightarrow> response" where
  "json_reply n v = \<lparr>status = n, body = v, cookie_ops = []\<rparr>"

text \<open>Destructuring \<open>const { k, \<dots> } = req.body || {}\<close>.\<close>

definition body_field :: "jsval \<Rightarrow> string \<Rightarrow> jsval" where
  "body_field b k = js_prop (js_or b (JObj [])) k"

text \<open>\<open>req.headers[k]\<close>.\<close>

definition req_header :: "request \<Rightarrow> string \<Rightarrow> string option" where
  "req_header r k = map_of (headers r) k"

text \<open>\<open>req.cookies[k]\<close>.\<close>

definition req_cookie :: "request \<Rightarrow> string \<Rightarrow> jsval" where
  "req_cookie r k = (case map_of (cookies r) k of Some v \<Rightarrow> v | None \<Rightarrow> JUndefined)"

text \<open>The path Express routes on: the URL without its query string.\<close>

definition url_path :: "string \<Rightarrow> string" where
  "url_path u = takeWhile (\<lambda>c. c \<noteq> CHR ''?'') u"

text \<open>The generic error handler of \<^verbatim>\<open>server.js\<close> (lines 244--250):
  \<open>res.status(err.status || 500).json({error, message})\<close>.\<close>

definition error_handler :: "nat option \<Rightarrow> string \<Rightarrow> response" where
  "error_handler st msg =
     json_reply (case st of Some n \<Rightarrow> n | None \<Rightarrow> 500)
       (JObj [(''error'', JStr ''Internal Server Error''),
              (''message'', JStr (if msg = [] then ''Something went wrong.'' else msg))])"

section \<open>Path matching\<close>

text \<open>A literal route such as \<open>/health\<close>: case-insensitive, with an optional trailing
  slash.\<close>

definition route_is :: "string \<Rightarrow> string \<Rightarrow> bool" where
  "route_is p lit \<longleftrightarrow> js_lower p = lit \<or> js_lower p = lit @ ''/''"

text \<open>The route \<open>/:id\<close>: one non-empty segment, optionally followed by a slash; the
  raw (still encoded) segment is returned.\<close>

definition route_param :: "string \<Rightarrow> string option" where
  "route_param p =
     (case p of
        c # r \<Rightarrow>
          if c = CHR ''/'' then
            (let seg = (if r \<noteq> [] \<and> last r = CHR ''/'' then butlast r else r)
             in if seg \<noteq> [] \<and> CHR ''/'' \<notin> set seg then Some seg else None)
          else None
      | [] \<Rightarrow> None)"

text \<open>
  \<open>app.use(prefix, router)\<close>: the prefix matches case-insensitively when it is followed
  by a slash or the end of the path; the router then sees the rest, with a slash that
  directly follows the prefix consumed when nothing or another slash comes after it, and
  \<open>/\<close> for an empty rest.
\<close>

definition mount_rest :: "string \<Rightarrow> string \<Rightarrow> string option" where
  "mount_rest pre p =
     (if js_lower (take (length pre) p) = pre then
        (let r = drop (length pre) p in
         case r of
           [] \<Rightarrow> Some ''/''
         | c # r' \<Rightarrow>
             if c \<noteq> CHR ''/'' then None
             else if r' = [] then Some ''/''
             else if hd r' = CHR ''/'' then Some r'
             else Some r)
      else None)"

section \<open>decodeURIComponent\<close>

text \<open>
  Route parameters are decoded before any middleware of the route runs.  Decoding goes in
  two passes: percent escapes become byte tokens, then runs of escaped bytes must form
  well-formed UTF-8 (no overlong forms, no surrogates, nothing above U+10FFFF), or
  \<open>decodeURIComponent\<close> throws \<open>URIError\<close>.  Strings are byte lists, so a decoded
  character is its UTF-8 bytes.
\<close>

definition hex_digit :: "char \<Rightarrow> nat option" where
  "hex_digit c =
     (if CHR ''0'' \<le> c \<and> c \<le> CHR ''9'' then Some (of_char c - 48)
      else if CHR ''a'' \<le> c \<and> c \<le> CHR ''f'' then Some (of_char c - 87)
      else if CHR ''A'' \<le> c \<and> c \<le> CHR ''F'' then Some (of_char c - 55)
      else None)"

datatype utok = Lit char | Esc nat

fun uri_tokens :: "string \<Rightarrow> utok list option" where
  "uri_tokens [] = Some []"
| "uri_tokens (c # cs) =
     (if c = CHR ''%'' then
        (case cs of
           h1 # h2 # rest \<Rightarrow>
             (case (hex_digit h1, hex_digit h2) of
                (Some a, Some b) \<Rightarrow> map_option (Cons (Esc (16 * a + b))) (uri_tokens rest)
              | _ \<Rightarrow> None)
         | _ \<Rightarrow> None)
      else map_option (Cons (Lit c)) (uri_tokens cs))"

definition utf8_cont :: "nat \<Rightarrow> bool" where
  "utf8_cont b \<longleftrightarrow> 128 \<le> b \<and> b < 192"

fun utf8_tokens :: "utok list \<Rightarrow> string option" where
  "utf8_tokens [] = Some []"
| "utf8_tokens (Lit c # ts) = map_option (Cons c) (utf8_tokens ts)"
| "utf8_tokens (Esc b # ts) =
     (if b < 128 then map_option (Cons (char_of b)) (utf8_tokens ts)
      else if 194 \<le> b \<and> b < 224 then
        (case ts of
           Esc c1 # ts' \<Rightarrow>
             if utf8_cont c1 then map_option (\<lambda>r. char_of b # char_of c1 # r) (utf8_tokens ts')
             else None
         | _ \<Rightarrow> None)
      else if 224 \<le> b \<and> b < 240 then
        (case ts of
           Esc c1 # Esc c2 # ts' \<Rightarrow>
             (let cp = (b - 224) * 4096 + (c1 - 128) * 64 + (c2 - 128) in
              if utf8_cont c1 \<and> utf8_cont c2 \<and> 2048 \<le> cp \<and> \<not> (55296 \<le> cp \<and> cp < 57344)
              then map_option (\<lambda>r. char_of b # char_of c1 # char_of c2 # r) (utf8_tokens ts')
              else None)
         | _ \<Rightarrow> None)
      else if 240 \<le> b \<and> b < 245 then
        (case ts of
           Esc c1 # Esc c2 # Esc c3 # ts' \<Rightarrow>
             (let cp = (b - 240) * 262144 + (c1 - 128) * 4096 + (c2 - 128) * 64 + (c3 - 128) in
              if utf8_cont c1 \<and> utf8_cont c2 \<and> utf8_cont c3 \<and> 65536 \<le> cp \<and> cp \<le> 1114111
              then map_option (\<lambda>r. char_of b # char_of c1 # char_of c2 # char_of c3 # r)
                     (utf8_tokens ts')
              else None)
         | _ \<Rightarrow> None)
      else None)"

definition decodeURIComponent :: "string \<Rightarrow> string option" where
  "decodeURIComponent s = Option.bind (uri_tokens s) utf8_tokens"

text \<open>Express's \<open>decode_param\<close>: a failed decoding becomes an error with status 400.\<close>

definition decode_param :: "string \<Rightarrow> response + string" where
  "decode_param s =
     (case decodeURIComponent s of
        Some d \<Rightarrow> Inr d
      | None \<Rightarrow> Inl (error_handler (Some 400) (''Failed to decode param '' @ [CHR 0x27] @ s @ [CHR 0x27])))"

section \<open>Lemmas\<close>

lemma uri_tokens_no_percent: "CHR ''%'' \<notin> set s \<Longrightarrow> uri_tokens s = Some (map Lit s)"
  by (induction s) auto

lemma utf8_tokens_Lit [simp]: "utf8_tokens (map Lit s) = Some s"
  by (induction s) auto

text \<open>Text without a percent sign decodes to itself.\<close>

lemma decodeURIComponent_no_percent:
  "CHR ''%'' \<notin> set s \<Longrightarrow> decodeURIComponent s = Some s"
  by (simp add: decodeURIComponent_def uri_tokens_no_percent)

lemma decode_param_no_percent:
  "CHR ''%'' \<notin> set s \<Longrightarrow> decode_param s = Inr s"
  by (simp add: decode_param_def decodeURIComponent_no_percent)

lemma route_param_Some:
  "route_param p = Some seg \<Longrightarrow> seg \<noteq> [] \<and> CHR ''/'' \<notin> set seg"
  by (auto simp: route_param_def Let_def split: list.splits if_splits)

lemma route_param_slash_seg:
  "seg \<noteq> [] \<Longrightarrow> CHR ''/'' \<notin> set seg \<Longrightarrow> route_param (CHR ''/'' # seg) = Some seg"
  by (auto simp: route_param_def Let_def dest: last_in_set)

end
