(* ===== verification/Validation.thy ===== *)
theory Validation
  imports Prelude
begin

text \<open>
  The validation engine of \<^verbatim>\<open>src/routes/students.js\<close>: the checks the create and
  replace handlers run on the four body fields (lines 66--79 and 134--147, the same code
  twice), collecting every violation into \<open>errors\<close> in field order, and the per-field
  checks of the patch handler (lines 203--248), which stop at the first bad field.
\<close>

section \<open>Full-record validation (create, replace)\<close>

text \<open>\<open>!name || typeof name !== "string"\<close> (the same test for \<open>email\<close>).\<close>

definition text_invalid :: "jsval \<Rightarrow> bool" where
  "text_invalid v \<longleftrightarrow> \<not> js_truthy v \<or> js_typeof v \<noteq> ''string''"

text \<open>\<open>age === undefined || typeof age !== "number" || age <= 0\<close>.\<close>

definition age_invalid :: "jsval \<Rightarrow> bool" where
  "age_invalid v \<longleftrightarrow>
     v = JUndefined \<or> js_typeof v \<noteq> ''number'' \<or> (case v of JNum n \<Rightarrow> n \<le> 0 | _ \<Rightarrow> False)"

text \<open>\<open>typeof isActive !== "boolean"\<close>.\<close>

definition active_invalid :: "jsval \<Rightarrow> bool" where
  "active_invalid v \<longleftrightarrow> js_typeof v \<noteq> ''boolean''"

text \<open>The \<open>errors\<close> array after the four \<open>if (...) errors.push(...)\<close> statements.\<close>

definition validate_student :: "jsval \<Rightarrow> jsval \<Rightarrow> jsval \<Rightarrow> jsval \<Rightarrow> string list" where
  "validate_student nm ag em act =
     (if text_invalid nm then [''name is required and must be a string''] else []) @
     (if age_invalid ag then [''age is required and must be a positive number''] else []) @
     (if text_invalid em then [''email is required and must be a string''] else []) @
     (if active_invalid act then [''isActive is required and must be a boolean''] else [])"

text \<open>Reading the validated values (used only once validation has passed).\<close>

fun js_str_val :: "jsval \<Rightarrow> string" where
  "js_str_val (JStr s) = s"
| "js_str_val _ = []"

fun js_num_val :: "jsval \<Rightarrow> rat" where
  "js_num_val (JNum n) = n"
| "js_num_val _ = 0"

fun js_bool_val :: "jsval \<Rightarrow> bool" where
  "js_bool_val (JBool b) = b"
| "js_bool_val _ = False"

section \<open>Lemmas\<close>

lemma text_invalid_iff: "\<not> text_invalid v \<longleftrightarrow> (\<exists>s. v = JStr s \<and> s \<noteq> [])"
  by (cases v) (auto simp: text_invalid_def)

lemma age_invalid_iff: "\<not> age_invalid v \<longleftrightarrow> (\<exists>n. v = JNum n \<and> 0 < n)"
  by (cases v) (auto simp: age_invalid_def)

lemma active_invalid_iff: "\<not> active_invalid v \<longleftrightarrow> (\<exists>b. v = JBool b)"
  by (cases v) (auto simp: active_invalid_def)

lemma age_invalid_JNum [simp]: "age_invalid (JNum n) \<longleftrightarrow> n \<le> 0"
  by (simp add: age_invalid_def)

lemma text_invalid_JStr [simp]: "text_invalid (JStr s) \<longleftrightarrow> s = []"
  by (simp add: text_invalid_def)

lemma active_invalid_JBool [simp]: "\<not> active_invalid (JBool b)"
  by (simp add: active_invalid_def)

lemmas field_checks = text_invalid_iff age_invalid_iff active_invalid_iff

text \<open>Validation passes exactly for a non-empty name and e-mail string, a positive number
  and a boolean.\<close>

lemma validate_student_Nil_iff:
  "validate_student nm ag em act = [] \<longleftrightarrow>
     (\<exists>n a e b. nm = JStr n \<and> n \<noteq> [] \<and> ag = JNum a \<and> 0 < a \<and>
                em = JStr e \<and> e \<noteq> [] \<and> act = JBool b)"
proof -
  have "validate_student nm ag em act = [] \<longleftrightarrow>
          \<not> text_invalid nm \<and> \<not> age_invalid ag \<and> \<not> text_invalid em \<and> \<not> active_invalid act"
    by (simp add: validate_student_def)
  also have "\<dots> \<longleftrightarrow> (\<exists>n a e b. nm = JStr n \<and> n \<noteq> [] \<and> ag = JNum a \<and> 0 < a \<and>
                em = JStr e \<and> e \<noteq> [] \<and> act = JBool b)"
    by (auto simp: field_checks)
  finally show ?thesis .
qed

text \<open>The error list has one entry per invalid field.\<close>

lemma length_validate_student:
  "length (validate_student nm ag em act) =
     of_bool (text_invalid nm) + of_bool (age_invalid ag) + of_bool (text_invalid em)
     + of_bool (active_invalid act)"
  by (simp add: validate_student_def)

end
