(* ===== verification/Students.thy ===== *)
theory Students
  imports Store Http Validation
begin

text \<open>
  The students router of \<^verbatim>\<open>src/routes/students.js\<close> (lines 28--303).  Each handler
  is a function of the in-memory array and the request data it reads, returning an
  \<open>outcome\<close>: the array after the handler ran, the response, and whether
  \<open>saveStudents()\<close> was called before responding (\<open>Persist\<close>) or not
  (\<open>Reply\<close>).  The router itself takes the two authentication middlewares as
  parameters, as the exported function \<open>function (requireJwt, requireCookieLogin)\<close>
  does, so its lemmas hold for any guards.
\<close>

datatype outcome = Reply "student list" response | Persist "student list" response

fun outcome_students :: "outcome \<Rightarrow> student list" where
  "outcome_students (Reply ss r) = ss"
| "outcome_students (Persist ss r) = ss"

fun outcome_response :: "outcome \<Rightarrow> response" where
  "outcome_response (Reply ss r) = r"
| "outcome_response (Persist ss r) = r"

section \<open>Shared responses\<close>

definition invalid_id :: response where
  "invalid_id = json_reply 400 (JObj [(''error'', JStr ''Invalid ID. Must be a number.'')])"

definition not_found :: "jsnum \<Rightarrow> response" where
  "not_found n =
     json_reply 404 (JObj [(''error'', JStr (''Student with id '' @ js_num_str n @ '' not found''))])"

definition message_student :: "nat \<Rightarrow> string \<Rightarrow> student \<Rightarrow> response" where
  "message_student st msg s = json_reply st (JObj [(''message'', JStr msg), (''student'', student_json s)])"

definition conflict :: "string \<Rightarrow> student \<Rightarrow> response" where
  "conflict msg s = json_reply 409 (JObj [(''error'', JStr msg), (''student'', student_json s)])"

definition bad_request :: "string \<Rightarrow> response" where
  "bad_request msg = json_reply 400 (JObj [(''error'', JStr msg)])"

section \<open>Handlers\<close>

text \<open>\<open>GET /\<close> (lines 34--39).\<close>

definition list_students :: "student list \<Rightarrow> outcome" where
  "list_students ss =
     Reply ss (json_reply 200 (JObj [(''count'', JNum (of_nat (length ss))),
                                     (''data'', JArr (map student_json ss))]))"

text \<open>\<open>GET /:id\<close> (lines 42--58).\<close>

definition get_student :: "student list \<Rightarrow> string \<Rightarrow> outcome" where
  "get_student ss p =
     (case js_Number p of
        None \<Rightarrow> Reply ss invalid_id
      | Some n \<Rightarrow>
          (case List.find (id_is n) ss of
             None \<Rightarrow> Reply ss (not_found n)
           | Some s \<Rightarrow> Reply ss (json_reply 200 (student_json s))))"

text \<open>\<open>POST /\<close> (lines 63--115): validate, reject a duplicate e-mail, append the record
  with id \<open>maxId + 1\<close>, save.\<close>

definition create_student :: "student list \<Rightarrow> jsval \<Rightarrow> outcome" where
  "create_student ss b =
     (let nm = body_field b ''name''; ag = body_field b ''age'';
          em = body_field b ''email''; act = body_field b ''isActive'';
          errors = validate_student nm ag em act
      in if errors \<noteq> [] then
           Reply ss (json_reply 400 (JObj [(''error'', JStr ''Validation failed''),
                                           (''details'', JArr (map JStr errors))]))
         else
           (case email_owner ss (js_str_val em) of
              Some existing \<Rightarrow> Reply ss (conflict ''A student with this email already exists'' existing)
            | None \<Rightarrow>
                let newStudent = \<lparr>sid = max_id ss + 1, name = js_str_val nm, age = js_num_val ag,
                                  email = js_str_val em, isActive = js_bool_val act\<rparr>
                in Persist (ss @ [newStudent]) (message_student 201 ''Student created'' newStudent)))"

text \<open>The number a found id denotes (\<open>id\<close> in \<open>{id, name, \<dots>}\<close>); only finite
  numbers can equal a stored id.\<close>

fun jsnum_val :: "jsnum \<Rightarrow> rat" where
  "jsnum_val (Fin q) = q"
| "jsnum_val _ = 0"

text \<open>\<open>PUT /:id\<close> (lines 118--183).\<close>

definition replace_student :: "student list \<Rightarrow> string \<Rightarrow> jsval \<Rightarrow> outcome" where
  "replace_student ss p b =
     (case js_Number p of
        None \<Rightarrow> Reply ss invalid_id
      | Some n \<Rightarrow>
          let index = js_find_index (id_is n) ss in
          if index = -1 then Reply ss (not_found n)
          else
            let nm = body_field b ''name''; ag = body_field b ''age'';
                em = body_field b ''email''; act = body_field b ''isActive'';
                errors = validate_student nm ag em act
            in if errors \<noteq> [] then
                 Reply ss (json_reply 400 (JObj [(''error'', JStr ''Validation failed''),
                                                 (''details'', JArr (map JStr errors))]))
               else
                 (case email_owner_other ss (js_str_val em) n of
                    Some existing \<Rightarrow>
                      Reply ss (conflict ''Another student with this email already exists'' existing)
                  | None \<Rightarrow>
                      let updatedStudent = \<lparr>sid = jsnum_val n, name = js_str_val nm,
                                            age = js_num_val ag, email = js_str_val em,
                                            isActive = js_bool_val act\<rparr>
                      in Persist (ss[nat index := updatedStudent])
                           (message_student 200 ''Student updated'' updatedStudent)))"

subsection \<open>PATCH: field by field, mutating in place\<close>

text \<open>
  The patch handler assigns each valid present field to the found object before it looks
  at the next one, and returns on the first invalid field.  A step either halts with the
  outcome of an early \<open>return\<close> (the array as mutated so far) or continues with the
  mutated array.
\<close>

datatype pstep = Halt outcome | Cont "student list"

definition pbind :: "pstep \<Rightarrow> (student list \<Rightarrow> pstep) \<Rightarrow> pstep" where
  "pbind r f = (case r of Halt oc \<Rightarrow> Halt oc | Cont ss \<Rightarrow> f ss)"

text \<open>Lines 203--210.\<close>

definition patch_name :: "nat \<Rightarrow> jsval \<Rightarrow> student list \<Rightarrow> pstep" where
  "patch_name i v ss =
     (if v = JUndefined then Cont ss
      else case v of
             JStr x \<Rightarrow> Cont (ss[i := (ss ! i)\<lparr>name := x\<rparr>])
           | _ \<Rightarrow> Halt (Reply ss (bad_request ''Invalid 'name'. Must be a string.'')))"

text \<open>Lines 212--219.\<close>

definition patch_age :: "nat \<Rightarrow> jsval \<Rightarrow> student list \<Rightarrow> pstep" where
  "patch_age i v ss =
     (if v = JUndefined then Cont ss
      else case v of
             JNum a \<Rightarrow>
               if a \<le> 0 then Halt (Reply ss (bad_request ''Invalid 'age'. Must be a positive number.''))
               else Cont (ss[i := (ss ! i)\<lparr>age := a\<rparr>])
           | _ \<Rightarrow> Halt (Reply ss (bad_request ''Invalid 'age'. Must be a positive number.'')))"

text \<open>Lines 221--240.\<close>

definition patch_email :: "jsnum \<Rightarrow> nat \<Rightarrow> jsval \<Rightarrow> student list \<Rightarrow> pstep" where
  "patch_email n i v ss =
     (if v = JUndefined then Cont ss
      else case v of
             JStr e \<Rightarrow>
               (case email_owner_other ss e n of
                  Some existing \<Rightarrow>
                    Halt (Reply ss (conflict ''Another student with this email already exists'' existing))
                | None \<Rightarrow> Cont (ss[i := (ss ! i)\<lparr>email := e\<rparr>]))
           | _ \<Rightarrow> Halt (Reply ss (bad_request ''Invalid 'email'. Must be a string.'')))"

text \<open>Lines 242--249.\<close>

definition patch_active :: "nat \<Rightarrow> jsval \<Rightarrow> student list \<Rightarrow> pstep" where
  "patch_active i v ss =
     (if v = JUndefined then Cont ss
      else case v of
             JBool x \<Rightarrow> Cont (ss[i := (ss ! i)\<lparr>isActive := x\<rparr>])
           | _ \<Rightarrow> Halt (Reply ss (bad_request ''Invalid 'isActive'. Must be a boolean.'')))"

text \<open>\<open>PATCH /:id\<close> (lines 186--257).  The object \<open>students.find\<close> returns is the
  element at the index \<open>findIndex\<close> reports (\<open>find_Some_iff_index\<close>).\<close>

definition patch_student :: "student list \<Rightarrow> string \<Rightarrow> jsval \<Rightarrow> outcome" where
  "patch_student ss p b =
     (case js_Number p of
        None \<Rightarrow> Reply ss invalid_id
      | Some n \<Rightarrow>
          let index = js_find_index (id_is n) ss in
          if index = -1 then Reply ss (not_found n)
          else
            let i = nat index;
                r = pbind (pbind (pbind (patch_name i (body_field b ''name'') ss)
                                        (patch_age i (body_field b ''age'')))
                                 (patch_email n i (body_field b ''email'')))
                          (patch_active i (body_field b ''isActive''))
            in case r of
                 Halt oc \<Rightarrow> oc
               | Cont ss' \<Rightarrow> Persist ss' (message_student 200 ''Student partially updated'' (ss' ! i)))"

text \<open>\<open>DELETE /:id\<close> (lines 260--282).\<close>

definition delete_student :: "student list \<Rightarrow> string \<Rightarrow> outcome" where
  "delete_student ss p =
     (case js_Number p of
        None \<Rightarrow> Reply ss invalid_id
      | Some n \<Rightarrow>
          let index = js_find_index (id_is n) ss in
          if index = -1 then Reply ss (not_found n)
          else Persist (remove_nth (nat index) ss)
                 (message_student 200 ''Student deleted'' (ss ! nat index)))"

text \<open>The two protected test routes (lines 287--300) echo \<open>req.user\<close>.\<close>

definition protected_reply :: "string \<Rightarrow> jsval \<Rightarrow> response" where
  "protected_reply msg u = json_reply 200 (JObj [(''message'', JStr msg), (''user'', u)])"

section \<open>The router\<close>

text \<open>The routes in declaration order.  \<open>HEAD\<close> requests are routed to \<open>GET\<close>
  routes, as Express does.\<close>

datatype sroute =
    RList | RGet string | RCreate | RReplace string | RPatch string | RDelete string
  | RCookieOnly | RJwtOnly

definition is_get :: "http_method \<Rightarrow> bool" where
  "is_get m \<longleftrightarrow> m = GET \<or> m = HEAD"

definition match_students_route :: "http_method \<Rightarrow> string \<Rightarrow> sroute option" where
  "match_students_route m p =
     (if is_get m \<and> route_is p ''/'' then Some RList
      else if is_get m \<and> route_param p \<noteq> None then Some (RGet (the (route_param p)))
      else if m = POST \<and> route_is p ''/'' then Some RCreate
      else if m = PUT \<and> route_param p \<noteq> None then Some (RReplace (the (route_param p)))
      else if m = PATCH \<and> route_param p \<noteq> None then Some (RPatch (the (route_param p)))
      else if m = DELETE \<and> route_param p \<noteq> None then Some (RDelete (the (route_param p)))
      else if is_get m \<and> route_is p ''/protected/cookie-only'' then Some RCookieOnly
      else if is_get m \<and> route_is p ''/protected/jwt-only'' then Some RJwtOnly
      else None)"

text \<open>Running a route behind a middleware: a rejection answers the request and leaves
  the array alone.\<close>

definition guarded :: "guard \<Rightarrow> request \<Rightarrow> student list \<Rightarrow> (jsval \<Rightarrow> outcome) \<Rightarrow> outcome" where
  "guarded g req ss h = (case g req of Inl r \<Rightarrow> Reply ss r | Inr user \<Rightarrow> h user)"

text \<open>A route with a parameter: the parameter is decoded first; a decoding error goes to
  the error handler before any middleware of the route runs.\<close>

definition with_param :: "string \<Rightarrow> student list \<Rightarrow> (string \<Rightarrow> outcome) \<Rightarrow> outcome" where
  "with_param raw ss h = (case decode_param raw of Inl r \<Rightarrow> Reply ss r | Inr p \<Rightarrow> h p)"

text \<open>The handler chain of each route, in the order the route declares it.\<close>

definition dispatch_route ::
  "guard \<Rightarrow> guard \<Rightarrow> student list \<Rightarrow> request \<Rightarrow> jsval \<Rightarrow> sroute \<Rightarrow> outcome" where
  "dispatch_route requireJwt requireCookieLogin ss req b rt =
     (case rt of
        RList \<Rightarrow> list_students ss
      | RGet raw \<Rightarrow> with_param raw ss (get_student ss)
      | RCreate \<Rightarrow> guarded requireJwt req ss (\<lambda>_. create_student ss b)
      | RReplace raw \<Rightarrow>
          with_param raw ss (\<lambda>x. guarded requireJwt req ss (\<lambda>_. replace_student ss x b))
      | RPatch raw \<Rightarrow>
          with_param raw ss (\<lambda>x. guarded requireJwt req ss (\<lambda>_. patch_student ss x b))
      | RDelete raw \<Rightarrow>
          with_param raw ss (\<lambda>x. guarded requireJwt req ss (\<lambda>_. delete_student ss x))
      | RCookieOnly \<Rightarrow>
          guarded requireCookieLogin req ss
            (\<lambda>u. Reply ss (protected_reply ''This students route is protected by cookie-based auth.'' u))
      | RJwtOnly \<Rightarrow>
          guarded requireJwt req ss
            (\<lambda>u. Reply ss (protected_reply ''This students route is protected by JWT.'' u)))"

text \<open>The router: \<open>None\<close> when no route matches (Express calls \<open>next()\<close>).\<close>

definition students_router ::
  "guard \<Rightarrow> guard \<Rightarrow> student list \<Rightarrow> request \<Rightarrow> string \<Rightarrow> jsval \<Rightarrow> outcome option" where
  "students_router requireJwt requireCookieLogin ss req p b =
     map_option (dispatch_route requireJwt requireCookieLogin ss req b)
       (match_students_route (req_method req) p)"

section \<open>Lemmas: the store invariant\<close>

text \<open>What a successful id lookup gives: the index, and that the id is finite and is the
  record's.\<close>

lemma find_index_id_found:
  assumes "js_find_index (id_is n) ss \<noteq> -1"
  obtains k where "js_find_index (id_is n) ss = int k" "k < length ss" "n = Fin (sid (ss ! k))"
  using js_find_index_found [OF assms] by (auto simp: id_is_def)

lemma create_student_inv: "store_inv ss \<Longrightarrow> store_inv (outcome_students (create_student ss b))"
  by (auto simp: create_student_def Let_def split: option.splits
      intro!: store_inv_append fresh_id_not_in_store)

lemma replace_student_inv:
  assumes inv: "store_inv ss"
  shows "store_inv (outcome_students (replace_student ss p b))"
proof (cases "js_Number p")
  case None
  with inv show ?thesis by (simp add: replace_student_def)
next
  case (Some n)
  show ?thesis
  proof (cases "js_find_index (id_is n) ss = -1")
    case True
    with inv Some show ?thesis by (simp add: replace_student_def)
  next
    case False
    then obtain k where k: "js_find_index (id_is n) ss = int k" "k < length ss"
      "n = Fin (sid (ss ! k))" by (rule find_index_id_found)
    with inv Some show ?thesis
      by (auto simp: replace_student_def Let_def split: option.splits
          intro!: store_inv_update_fresh)
  qed
qed

text \<open>The patch steps, read as: an early return leaves a store satisfying \<open>H\<close>, a
  continuation one satisfying \<open>C\<close>.\<close>

definition pstep_holds :: "(student list \<Rightarrow> bool) \<Rightarrow> (student list \<Rightarrow> bool) \<Rightarrow> pstep \<Rightarrow> bool" where
  "pstep_holds H C r = (case r of Halt oc \<Rightarrow> H (outcome_students oc) | Cont ss \<Rightarrow> C ss)"

lemma pbind_holds:
  assumes "pstep_holds H C r" and "\<And>ss. C ss \<Longrightarrow> pstep_holds H C (f ss)"
  shows "pstep_holds H C (pbind r f)"
proof (cases r)
  case (Halt oc)
  with assms(1) show ?thesis by (simp add: pbind_def pstep_holds_def)
next
  case (Cont ss)
  with assms(1) have "C ss" by (simp add: pstep_holds_def)
  with Cont assms(2) show ?thesis by (simp add: pbind_def)
qed

text \<open>The invariant during a patch of record \<open>k\<close> with id \<open>q\<close>.\<close>

definition patching :: "nat \<Rightarrow> rat \<Rightarrow> student list \<Rightarrow> bool" where
  "patching k q ss \<longleftrightarrow> store_inv ss \<and> k < length ss \<and> sid (ss ! k) = q"

lemma patch_name_holds:
  "patching k q ss \<Longrightarrow> pstep_holds store_inv (patching k q) (patch_name k v ss)"
  by (auto simp: patch_name_def pstep_holds_def patching_def split: jsval.splits
      intro: store_inv_update_same)

lemma patch_age_holds:
  "patching k q ss \<Longrightarrow> pstep_holds store_inv (patching k q) (patch_age k v ss)"
  by (auto simp: patch_age_def pstep_holds_def patching_def split: jsval.splits
      intro: store_inv_update_same)

lemma patch_active_holds:
  "patching k q ss \<Longrightarrow> pstep_holds store_inv (patching k q) (patch_active k v ss)"
  by (auto simp: patch_active_def pstep_holds_def patching_def split: jsval.splits
      intro: store_inv_update_same)

lemma patch_email_holds:
  "patching k q ss \<Longrightarrow> pstep_holds store_inv (patching k q) (patch_email (Fin q) k v ss)"
  by (auto simp: patch_email_def pstep_holds_def patching_def split: jsval.splits option.splits
      intro: store_inv_update_fresh)

lemmas patch_steps_hold =
  patch_name_holds patch_age_holds patch_email_holds patch_active_holds

lemma patch_student_inv:
  assumes inv: "store_inv ss"
  shows "store_inv (outcome_students (patch_student ss p b))"
proof (cases "js_Number p")
  case None
  with inv show ?thesis by (simp add: patch_student_def)
next
  case (Some n)
  show ?thesis
  proof (cases "js_find_index (id_is n) ss = -1")
    case True
    with inv Some show ?thesis by (simp add: patch_student_def)
  next
    case False
    then obtain k where k: "js_find_index (id_is n) ss = int k" "k < length ss"
      "n = Fin (sid (ss ! k))" by (rule find_index_id_found)
    let ?q = "sid (ss ! k)"
    let ?r = "pbind (pbind (pbind (patch_name k (body_field b ''name'') ss)
                                  (patch_age k (body_field b ''age'')))
                           (patch_email n k (body_field b ''email'')))
                    (patch_active k (body_field b ''isActive''))"
    have start: "patching k ?q ss" using inv k by (simp add: patching_def)
    have "pstep_holds store_inv (patching k ?q) ?r"
      unfolding k(3)
      by (intro pbind_holds patch_steps_hold start) assumption+
    with Some k show ?thesis
      by (auto simp: patch_student_def pstep_holds_def patching_def split: pstep.splits)
  qed
qed

lemma delete_student_inv: "store_inv ss \<Longrightarrow> store_inv (outcome_students (delete_student ss p))"
  by (auto simp: delete_student_def Let_def split: option.splits intro: store_inv_remove_nth)

lemma guarded_students:
  "P ss \<Longrightarrow> (\<And>u. P (outcome_students (h u))) \<Longrightarrow> P (outcome_students (guarded g req ss h))"
  by (simp add: guarded_def split: sum.splits)

lemma with_param_students:
  "P ss \<Longrightarrow> (\<And>x. P (outcome_students (h x))) \<Longrightarrow> P (outcome_students (with_param raw ss h))"
  by (simp add: with_param_def split: sum.splits)

lemmas handlers_inv =
  create_student_inv replace_student_inv patch_student_inv delete_student_inv

lemma list_students_students [simp]: "outcome_students (list_students ss) = ss"
  by (simp add: list_students_def)

lemma get_student_students [simp]: "outcome_students (get_student ss p) = ss"
  by (simp add: get_student_def split: option.splits)

text \<open>Whatever property of the array every writing handler keeps, the router keeps.\<close>

lemma students_router_preserves:
  assumes P: "P ss" and r: "students_router g1 g2 ss req p b = Some oc"
    and "\<And>b. P (outcome_students (create_student ss b))"
    and "\<And>x b. P (outcome_students (replace_student ss x b))"
    and "\<And>x b. P (outcome_students (patch_student ss x b))"
    and "\<And>x. P (outcome_students (delete_student ss x))"
  shows "P (outcome_students oc)"
proof -
  from r obtain rt where "oc = dispatch_route g1 g2 ss req b rt"
    by (auto simp: students_router_def)
  then show ?thesis
    by (cases rt) (simp_all add: dispatch_route_def P assms(3-6) with_param_students guarded_students)
qed

lemma students_router_inv:
  assumes inv: "store_inv ss" and r: "students_router g1 g2 ss req p b = Some oc"
  shows "store_inv (outcome_students oc)"
  by (rule students_router_preserves [where P = store_inv, OF inv r]) (simp_all add: inv handlers_inv)

section \<open>Lemmas: typed records\<close>

lemma create_student_typed:
  "list_all student_typed ss \<Longrightarrow> list_all student_typed (outcome_students (create_student ss b))"
  by (auto simp: create_student_def Let_def validate_student_Nil_iff student_typed_def fresh_id_typed
      max_id_Ints split: option.splits)

lemma replace_student_typed:
  assumes ty: "list_all student_typed ss"
  shows "list_all student_typed (outcome_students (replace_student ss p b))"
proof (cases "js_Number p")
  case (Some n)
  show ?thesis
  proof (cases "js_find_index (id_is n) ss = -1")
    case False
    then obtain k where k: "js_find_index (id_is n) ss = int k" "k < length ss"
      "n = Fin (sid (ss ! k))" by (rule find_index_id_found)
    have tk: "student_typed (ss ! k)" using ty k(2) by (simp add: list_all_length)
    with ty Some k show ?thesis
      by (auto simp: replace_student_def Let_def validate_student_Nil_iff student_typed_def
          split: option.splits intro!: list_all_nth_update)
  qed (use ty Some in \<open>simp add: replace_student_def\<close>)
qed (use ty in \<open>simp add: replace_student_def\<close>)

definition typed_patching :: "nat \<Rightarrow> student list \<Rightarrow> bool" where
  "typed_patching k ss \<longleftrightarrow> list_all student_typed ss \<and> k < length ss"

lemma patch_steps_typed:
  "typed_patching k ss \<Longrightarrow> pstep_holds (list_all student_typed) (typed_patching k) (patch_name k v ss)"
  "typed_patching k ss \<Longrightarrow> pstep_holds (list_all student_typed) (typed_patching k) (patch_age k v ss)"
  "typed_patching k ss \<Longrightarrow> pstep_holds (list_all student_typed) (typed_patching k) (patch_email n k v ss)"
  "typed_patching k ss \<Longrightarrow> pstep_holds (list_all student_typed) (typed_patching k) (patch_active k v ss)"
  by (auto simp: patch_name_def patch_age_def patch_email_def patch_active_def pstep_holds_def
      typed_patching_def student_typed_def split: jsval.splits option.splits intro!: list_all_nth_update)

lemma patch_student_typed:
  assumes ty: "list_all student_typed ss"
  shows "list_all student_typed (outcome_students (patch_student ss p b))"
proof (cases "js_Number p")
  case (Some n)
  show ?thesis
  proof (cases "js_find_index (id_is n) ss = -1")
    case False
    then obtain k where k: "js_find_index (id_is n) ss = int k" "k < length ss"
      "n = Fin (sid (ss ! k))" by (rule find_index_id_found)
    let ?r = "pbind (pbind (pbind (patch_name k (body_field b ''name'') ss)
                                  (patch_age k (body_field b ''age'')))
                           (patch_email n k (body_field b ''email'')))
                    (patch_active k (body_field b ''isActive''))"
    have start: "typed_patching k ss" using ty k by (simp add: typed_patching_def)
    have "pstep_holds (list_all student_typed) (typed_patching k) ?r"
      by (intro pbind_holds patch_steps_typed start) assumption+
    with Some k show ?thesis
      by (auto simp: patch_student_def pstep_holds_def typed_patching_def split: pstep.splits)
  qed (use ty Some in \<open>simp add: patch_student_def\<close>)
qed (use ty in \<open>simp add: patch_student_def\<close>)

lemma delete_student_typed:
  "list_all student_typed ss \<Longrightarrow> list_all student_typed (outcome_students (delete_student ss p))"
  by (auto simp: delete_student_def Let_def split: option.splits intro: list_all_remove_nth)

lemmas handlers_typed =
  create_student_typed replace_student_typed patch_student_typed delete_student_typed

section \<open>Lemmas: lookups by id\<close>

text \<open>With distinct ids, \<open>findIndex\<close> on a record's id finds that record.\<close>

lemma find_index_own_id:
  assumes "ids_distinct ss" "k < length ss"
  shows "js_find_index (id_is (Fin (sid (ss ! k)))) ss = int k"
proof -
  have "\<forall>j<k. \<not> id_is (Fin (sid (ss ! k))) (ss ! j)"
    using assms nth_eq_iff_index_eq [of "map sid ss" _ k] by (auto simp: ids_distinct_def)
  with assms(2) show ?thesis by (simp add: js_find_index_eq_int_iff)
qed

lemma with_param_Reply:
  "(\<And>x. \<exists>r. h x = Reply ss r) \<Longrightarrow> \<exists>r. with_param raw ss h = Reply ss r"
  by (auto simp: with_param_def split: sum.splits)

lemma guarded_reject: "g req = Inl r \<Longrightarrow> guarded g req ss h = Reply ss r"
  by (simp add: guarded_def)

lemma guarded_Reply: "(\<And>u. \<exists>r. h u = Reply ss r) \<Longrightarrow> \<exists>r. guarded g req ss h = Reply ss r"
  by (auto simp: guarded_def split: sum.splits)

section \<open>Lemmas: status codes\<close>

lemma status_replies [simp]:
  "status (json_reply n v) = n" "status invalid_id = 400" "status (not_found m) = 404"
  "status (bad_request msg) = 400" "status (conflict msg s) = 409"
  "status (message_student n msg s) = n"
  by (simp_all add: json_reply_def invalid_id_def not_found_def bad_request_def conflict_def
      message_student_def)

text \<open>A patch step that stops with a response whose status is in \<open>S\<close>, without
  saving.\<close>

definition halts_with :: "nat set \<Rightarrow> pstep \<Rightarrow> bool" where
  "halts_with S r \<longleftrightarrow> (\<exists>ss0 rsp. r = Halt (Reply ss0 rsp) \<and> status rsp \<in> S)"

lemma pbind_halts_with: "halts_with S r \<Longrightarrow> halts_with S (pbind r f)"
  by (auto simp: halts_with_def pbind_def)

section \<open>Lemmas: response statuses\<close>

lemma decode_param_Inl_status: "decode_param raw = Inl r \<Longrightarrow> status r = 400"
  by (auto simp: decode_param_def error_handler_def json_reply_def split: option.splits)


definition pstep_status :: "nat set \<Rightarrow> pstep \<Rightarrow> bool" where
  "pstep_status S r \<longleftrightarrow> (case r of Halt oc \<Rightarrow> status (outcome_response oc) \<in> S | Cont ss \<Rightarrow> True)"

lemma pbind_status:
  "pstep_status S r \<Longrightarrow> (\<And>ss. pstep_status S (f ss)) \<Longrightarrow> pstep_status S (pbind r f)"
  by (auto simp: pbind_def split: pstep.splits)

lemma patch_steps_status:
  "pstep_status {400, 409} (patch_name k v ss)" "pstep_status {400, 409} (patch_age k v ss)"
  "pstep_status {400, 409} (patch_email n k v ss)" "pstep_status {400, 409} (patch_active k v ss)"
  by (auto simp: pstep_status_def patch_name_def patch_age_def patch_email_def patch_active_def
      split: jsval.splits option.splits)

lemma handler_statuses:
  "{200} \<subseteq> S \<Longrightarrow> status (outcome_response (list_students ss)) \<in> S"
  "{200, 400, 404} \<subseteq> S \<Longrightarrow> status (outcome_response (get_student ss p)) \<in> S"
  "{201, 400, 409} \<subseteq> S \<Longrightarrow> status (outcome_response (create_student ss b)) \<in> S"
  "{200, 400, 404, 409} \<subseteq> S \<Longrightarrow> status (outcome_response (replace_student ss p b)) \<in> S"
  "{200, 400, 404} \<subseteq> S \<Longrightarrow> status (outcome_response (delete_student ss p)) \<in> S"
  by (auto simp: list_students_def get_student_def create_student_def replace_student_def
      delete_student_def Let_def split: option.splits)

lemma patch_student_status:
  assumes "{200, 400, 404, 409} \<subseteq> S"
  shows "status (outcome_response (patch_student ss p b)) \<in> S"
proof (cases "js_Number p")
  case (Some n)
  let ?k = "nat (js_find_index (id_is n) ss)"
  have "pstep_status {400, 409}
          (pbind (pbind (pbind (patch_name ?k (body_field b ''name'') ss) (patch_age ?k (body_field b ''age'')))
             (patch_email n ?k (body_field b ''email''))) (patch_active ?k (body_field b ''isActive'')))"
    by (intro pbind_status patch_steps_status)
  with Some assms show ?thesis
    by (auto simp: patch_student_def Let_def pstep_status_def split: pstep.splits)
qed (use assms in \<open>simp add: patch_student_def\<close>)

lemma guarded_status:
  "(\<And>r. g req = Inl r \<Longrightarrow> status r \<in> S) \<Longrightarrow> (\<And>u. status (outcome_response (h u)) \<in> S) \<Longrightarrow>
     status (outcome_response (guarded g req ss h)) \<in> S"
  by (auto simp: guarded_def split: sum.splits)

lemma with_param_status:
  "400 \<in> S \<Longrightarrow> (\<And>x. status (outcome_response (h x)) \<in> S) \<Longrightarrow>
     status (outcome_response (with_param raw ss h)) \<in> S"
  by (auto simp: with_param_def decode_param_Inl_status split: sum.splits)

text \<open>With guards that reject with 401, the router answers with one of the statuses
  of the handlers or 401.\<close>

lemma students_router_status:
  assumes "\<And>r. g1 req = Inl r \<Longrightarrow> status r = 401" and "\<And>r. g2 req = Inl r \<Longrightarrow> status r = 401"
    and "students_router g1 g2 ss req p b = Some oc"
  shows "status (outcome_response oc) \<in> {200, 201, 400, 401, 404, 409}"
proof -
  from assms(3) obtain rt where oc: "oc = dispatch_route g1 g2 ss req b rt"
    by (auto simp: students_router_def)
  show ?thesis
    unfolding oc
    by (cases rt; simp only: dispatch_route_def sroute.case;
        (rule with_param_status guarded_status handler_statuses patch_student_status
         | simp add: assms(1,2) protected_reply_def)+)
qed

section \<open>Properties of the handlers\<close>


text \<open>C3: a valid create whose e-mail equals a stored one up to letter case is answered
  409 with a stored record of that e-mail, and the store is unchanged.\<close>

theorem create_student_duplicate_email:
  assumes "validate_student (body_field b ''name'') (body_field b ''age'') (body_field b ''email'')
             (body_field b ''isActive'') = []"
    and "s \<in> set ss" and "same_ci (email s) (js_str_val (body_field b ''email''))"
  shows "\<exists>ex\<in>set ss. same_ci (email ex) (js_str_val (body_field b ''email'')) \<and>
           create_student ss b = Reply ss (conflict ''A student with this email already exists'' ex)"
proof -
  from assms(2,3) obtain ex where ex: "email_owner ss (js_str_val (body_field b ''email'')) = Some ex"
    by (cases "email_owner ss (js_str_val (body_field b ''email''))")
      (auto simp: email_owner_None_iff)
  then have "ex \<in> set ss \<and> same_ci (email ex) (js_str_val (body_field b ''email''))"
    by (rule email_owner_Some)
  with ex assms(1) show ?thesis by (auto simp: create_student_def Let_def)
qed

text \<open>C4: whatever the guard in front of the mutating routes is, when it rejects a
  request the router changes nothing and does not save.\<close>

theorem students_router_no_write_when_rejected:
  assumes "g1 req = Inl r" and "students_router g1 g2 ss req p b = Some oc"
  shows "\<exists>r'. oc = Reply ss r'"
proof -
  from assms(2) obtain rt where rt: "match_students_route (req_method req) p = Some rt"
    by (auto simp: students_router_def dispatch_route_def)
  have get: "\<exists>r. get_student ss x = Reply ss r" for x
    by (auto simp: get_student_def split: option.splits)
  show ?thesis
    using assms rt
    by (cases rt) (auto simp: students_router_def dispatch_route_def list_students_def guarded_reject get
        intro!: with_param_Reply guarded_Reply)
qed

text \<open>C5: deleting a stored record answers 200 with it and removes it; the same
  request again finds nothing and answers 404.\<close>

theorem delete_student_twice:
  assumes ids: "ids_distinct ss" and s: "s \<in> set ss" and p: "js_Number p = Some (Fin (sid s))"
  shows "\<exists>ss'. delete_student ss p = Persist ss' (message_student 200 ''Student deleted'' s)
           \<and> s \<notin> set ss' \<and> delete_student ss' p = Reply ss' (not_found (Fin (sid s)))"
proof -
  from s obtain k where k: "k < length ss" "s = ss ! k" by (auto simp: in_set_conv_nth)
  have idx: "js_find_index (id_is (Fin (sid s))) ss = int k"
    using find_index_own_id [OF ids k(1)] k(2) by simp
  let ?ss' = "remove_nth k ss"
  have d: "distinct ss" using ids by (rule ids_distinct_distinct)
  have set': "set ?ss' = set ss - {s}"
    using set_remove_nth_distinct [OF d k(1)] k(2) by simp
  have gone: "\<forall>x\<in>set ?ss'. \<not> id_is (Fin (sid s)) x"
  proof
    fix x assume "x \<in> set ?ss'"
    with set' have x: "x \<in> set ss" "x \<noteq> s" by auto
    show "\<not> id_is (Fin (sid s)) x"
      using ids_distinct_sid_eq [OF ids x(1) k(1)] x(2) k(2) by auto
  qed
  have "delete_student ss p = Persist ?ss' (message_student 200 ''Student deleted'' s)"
    using p idx k by (simp add: delete_student_def)
  moreover have "delete_student ?ss' p = Reply ?ss' (not_found (Fin (sid s)))"
    using p gone by (simp add: delete_student_def)
  ultimately show ?thesis using set' by auto
qed

text \<open>C6: a replace that saves is idempotent: sending the same request again gives the
  same response and leaves the store as the first one left it.\<close>

theorem replace_student_idempotent:
  assumes "replace_student ss p b = Persist ss1 r"
  shows "replace_student ss1 p b = Persist ss1 r"
proof -
  from assms obtain n where n: "js_Number p = Some n"
    by (auto simp: replace_student_def split: option.splits)
  have nf: "js_find_index (id_is n) ss \<noteq> -1"
  proof
    assume "js_find_index (id_is n) ss = -1"
    with assms n show False by (simp add: replace_student_def del: js_find_index_neg1_iff)
  qed
  then obtain k where k: "js_find_index (id_is n) ss = int k" "k < length ss"
    "n = Fin (sid (ss ! k))" by (rule find_index_id_found)
  let ?nm = "body_field b ''name''" and ?ag = "body_field b ''age''"
    and ?em = "body_field b ''email''" and ?act = "body_field b ''isActive''"
  let ?upd = "\<lparr>sid = sid (ss ! k), name = js_str_val ?nm, age = js_num_val ?ag,
               email = js_str_val ?em, isActive = js_bool_val ?act\<rparr>"
  from assms n k have ok: "validate_student ?nm ?ag ?em ?act = []"
    and free: "email_owner_other ss (js_str_val ?em) n = None"
    and ss1: "ss1 = ss[k := ?upd]"
    and r: "r = message_student 200 ''Student updated'' ?upd"
    by (auto simp: replace_student_def Let_def split: if_splits option.splits)
  have k1: "js_find_index (id_is n) ss1 = int k"
    using k ss1 by (simp add: js_find_index_update_same)
  have "\<forall>x\<in>set ss1. same_ci (email x) (js_str_val ?em) \<longrightarrow> id_is n x"
  proof (intro ballI impI)
    fix x assume x: "x \<in> set ss1" "same_ci (email x) (js_str_val ?em)"
    from x(1) ss1 have "x = ?upd \<or> x \<in> set ss"
      using set_update_subset_insert by fastforce
    with x(2) free k(3) show "id_is n x"
      by (auto simp: email_owner_other_None_iff)
  qed
  then have free1: "email_owner_other ss1 (js_str_val ?em) n = None"
    by (simp add: email_owner_other_None_iff)
  have "ss1[k := ?upd] = ss1" using ss1 by simp
  with n k(3) k1 ok free1 r show ?thesis
    by (simp add: replace_student_def Let_def)
qed

text \<open>C7: the patch handler writes each valid field into the stored record before it
  checks the next one: a patch with a string \<open>name\<close> and a non-positive \<open>age\<close>
  is answered 400 without saving, yet the in-memory record already carries the new
  name.\<close>

theorem patch_student_mutates_before_rejecting:
  assumes ids: "ids_distinct ss" and k: "k < length ss"
    and p: "js_Number p = Some (Fin (sid (ss ! k)))"
    and nm: "body_field b ''name'' = JStr x" and ag: "body_field b ''age'' = JNum a" and a: "a \<le> 0"
  shows "patch_student ss p b =
           Reply (ss[k := (ss ! k)\<lparr>name := x\<rparr>])
                 (bad_request ''Invalid 'age'. Must be a positive number.'')"
  using find_index_own_id [OF ids k] p nm ag a
  by (simp add: patch_student_def patch_name_def patch_age_def pbind_def)

text \<open>C13: an \<open>age\<close> of zero or less is refused by every handler that writes a
  record: create and replace answer 400 (or 404 / invalid id for replace) without changing
  the array, and patch answers 400 or 404 without saving.\<close>

theorem nonpositive_age_rejected:
  assumes ag: "body_field b ''age'' = JNum a" and a: "a \<le> 0"
  shows "(\<exists>r. create_student ss b = Reply ss r \<and> status r = 400)
       \<and> (\<exists>r. replace_student ss p b = Reply ss r \<and> status r \<in> {400, 404})
       \<and> (\<exists>ss' r. patch_student ss p b = Reply ss' r \<and> status r \<in> {400, 404})"
proof (intro conjI)
  have v: "validate_student (body_field b ''name'') (body_field b ''age'') (body_field b ''email'')
             (body_field b ''isActive'') \<noteq> []"
    using ag a by (simp add: validate_student_def)
  then show "\<exists>r. create_student ss b = Reply ss r \<and> status r = 400"
    by (simp add: create_student_def Let_def)
  show "\<exists>r. replace_student ss p b = Reply ss r \<and> status r \<in> {400, 404}"
    using v by (simp add: replace_student_def Let_def split: option.splits)
  have age_halts: "halts_with {400} (patch_age i (JNum a) ss')" for i ss'
    using a by (simp add: halts_with_def patch_age_def)
  have halt: "halts_with {400}
          (pbind (pbind (pbind (patch_name i (body_field b ''name'') ss0) (patch_age i (JNum a))) f) g)"
    for i ss0 f g
  proof (cases "patch_name i (body_field b ''name'') ss0")
    case (Halt oc)
    then have "halts_with {400} (patch_name i (body_field b ''name'') ss0)"
      by (auto simp: patch_name_def halts_with_def split: if_splits jsval.splits)
    then show ?thesis by (intro pbind_halts_with)
  next
    case (Cont ss1)
    then show ?thesis
      using pbind_halts_with [OF pbind_halts_with [OF age_halts [of i ss1]]] by (simp add: pbind_def)
  qed
  show "\<exists>ss' r. patch_student ss p b = Reply ss' r \<and> status r \<in> {400, 404}"
  proof (cases "js_Number p")
    case None
    then show ?thesis by (simp add: patch_student_def)
  next
    case (Some n)
    show ?thesis
    proof (cases "js_find_index (id_is n) ss = -1")
      case True
      with Some show ?thesis by (simp add: patch_student_def)
    next
      case False
      let ?i = "nat (js_find_index (id_is n) ss)"
      from halt [of ?i ss "patch_email n ?i (body_field b ''email'')"
                  "patch_active ?i (body_field b ''isActive'')"]
      obtain ss0 rsp where
        "pbind (pbind (pbind (patch_name ?i (body_field b ''name'') ss) (patch_age ?i (JNum a)))
           (patch_email n ?i (body_field b ''email''))) (patch_active ?i (body_field b ''isActive''))
         = Halt (Reply ss0 rsp)" "status rsp = 400"
        by (auto simp: halts_with_def)
      with Some False ag show ?thesis by (simp add: patch_student_def Let_def)
    qed
  qed
qed

text \<open>C14: the patch handler accepts an empty \<open>name\<close> (it only checks the type),
  while create refuses one: \<open>{"name": ""}\<close> on a stored id saves the record with an
  empty name.\<close>

theorem patch_student_accepts_empty_name:
  assumes ids: "ids_distinct ss" and k: "k < length ss"
    and p: "js_Number p = Some (Fin (sid (ss ! k)))"
  shows "patch_student ss p (JObj [(''name'', JStr [])]) =
           Persist (ss[k := (ss ! k)\<lparr>name := []\<rparr>])
             (message_student 200 ''Student partially updated'' ((ss ! k)\<lparr>name := []\<rparr>))
         \<and> text_invalid (JStr [])"
  using find_index_own_id [OF ids k] p k
  by (simp add: patch_student_def patch_name_def patch_age_def patch_email_def
      patch_active_def pbind_def body_field_def)

section \<open>Refinement of the id map\<close>

text \<open>The abstract store is the map from ids to records (\<open>store_map\<close>).  The
  handlers that save act on it as insertion at a fresh key, overwrite at an existing key
  and removal of an existing key.\<close>


text \<open>C16: a replace that saves overwrites the record at an existing key \<open>q\<close>, the
  number the path parameter denotes, with the validated record of id \<open>q\<close>.\<close>

theorem replace_student_refines:
  assumes ids: "ids_distinct ss" and r: "replace_student ss p b = Persist ss' r"
  shows "\<exists>q. js_Number p = Some (Fin q) \<and> store_map ss q \<noteq> None \<and>
           store_map ss' = (store_map ss)(q \<mapsto>
             \<lparr>sid = q, name = js_str_val (body_field b ''name''),
              age = js_num_val (body_field b ''age''), email = js_str_val (body_field b ''email''),
              isActive = js_bool_val (body_field b ''isActive'')\<rparr>)"
proof -
  from r obtain n where n: "js_Number p = Some n"
    by (auto simp: replace_student_def split: option.splits)
  have "js_find_index (id_is n) ss \<noteq> -1"
  proof
    assume "js_find_index (id_is n) ss = -1"
    with r n show False by (simp add: replace_student_def del: js_find_index_neg1_iff)
  qed
  then obtain k where k: "js_find_index (id_is n) ss = int k" "k < length ss"
    "n = Fin (sid (ss ! k))" by (rule find_index_id_found)
  let ?upd = "\<lparr>sid = sid (ss ! k), name = js_str_val (body_field b ''name''),
              age = js_num_val (body_field b ''age''), email = js_str_val (body_field b ''email''),
              isActive = js_bool_val (body_field b ''isActive'')\<rparr>"
  from r n k have ss': "ss' = ss[k := ?upd]"
    by (auto simp: replace_student_def Let_def split: if_splits option.splits)
  have "store_map ss (sid (ss ! k)) = Some (ss ! k)"
    using k(2) by (simp add: store_map_Some_iff [OF ids])
  with n k(3) ss' show ?thesis
    by (auto simp: store_map_update_same [OF ids k(2)])
qed

text \<open>C17: a delete that saves removes an existing key \<open>q\<close>, the number the path
  parameter denotes, and answers with the record that was stored there.\<close>

theorem delete_student_refines:
  assumes ids: "ids_distinct ss" and r: "delete_student ss p = Persist ss' r"
  shows "\<exists>q s. js_Number p = Some (Fin q) \<and> store_map ss q = Some s \<and>
           store_map ss' = (store_map ss)(q := None) \<and>
           r = message_student 200 ''Student deleted'' s"
proof -
  from r obtain n where n: "js_Number p = Some n"
    by (auto simp: delete_student_def split: option.splits)
  have "js_find_index (id_is n) ss \<noteq> -1"
  proof
    assume "js_find_index (id_is n) ss = -1"
    with r n show False by (simp add: delete_student_def del: js_find_index_neg1_iff)
  qed
  then obtain k where k: "js_find_index (id_is n) ss = int k" "k < length ss"
    "n = Fin (sid (ss ! k))" by (rule find_index_id_found)
  from r n k have "ss' = remove_nth k ss" "r = message_student 200 ''Student deleted'' (ss ! k)"
    by (auto simp: delete_student_def Let_def simp del: js_find_index_neg1_iff)
  moreover have "store_map ss (sid (ss ! k)) = Some (ss ! k)"
    using k(2) by (simp add: store_map_Some_iff [OF ids])
  ultimately show ?thesis
    using n k(3) store_map_remove_nth [OF ids k(2)] by blast
qed

section \<open>Reading and routing\<close>

text \<open>C19: with distinct ids, \<open>GET /:id\<close> is the lookup of \<open>Number(id)\<close> in the
  map from ids to records: 400 for NaN, 404 for a missing (or infinite) key, 200 with the
  record otherwise; the array is never changed.\<close>

theorem get_student_refines:
  assumes "ids_distinct ss"
  shows "get_student ss p =
           (case js_Number p of
              None \<Rightarrow> Reply ss invalid_id
            | Some n \<Rightarrow>
                (case (case n of Fin q \<Rightarrow> store_map ss q | _ \<Rightarrow> None) of
                   None \<Rightarrow> Reply ss (not_found n)
                 | Some s \<Rightarrow> Reply ss (json_reply 200 (student_json s))))"
  by (simp add: get_student_def find_id_is_store_map [OF assms] split: option.splits)

text \<open>C20: on the guarded routes with an id (PUT, PATCH, DELETE), a parameter that
  \<open>decodeURIComponent\<close> rejects is answered 400 by the error handler before the
  authentication middleware runs, whatever the guards, and nothing changes.\<close>

theorem students_router_decode_error_first:
  assumes "route_param p = Some raw" and "decode_param raw = Inl r"
    and "req_method req \<in> {PUT, PATCH, DELETE}"
  shows "students_router g1 g2 ss req p b = Some (Reply ss r) \<and> status r = 400"
  using assms decode_param_Inl_status [OF assms(2)]
  by (auto simp: students_router_def dispatch_route_def match_students_route_def is_get_def with_param_def)

end
