(* ===== verification/Auth.thy ===== *)
theory Auth
  imports Http JsNumber
begin

text \<open>
  The authentication part of \<^verbatim>\<open>server.js\<close> (\<^verbatim>\<open>src/unnamed/part_002\<close>): the
  configuration of the signing secret (line 15), the two middlewares \<open>requireJwt\<close>
  (lines 36--67) and \<open>requireCookieLogin\<close> (lines 69--87), the hard-coded demo user
  (lines 130--134) and the login, identity and logout routes (lines 137--229).
  The \<open>jsonwebtoken\<close> library is not part of the repository: it is an interface
  (\<open>jwt_lib\<close>, a record of the two functions the code calls) with a contract
  (\<open>jwt_contract\<close>) that the lemmas about a full login assume, and a small executable
  stand-in (\<open>demo_jwt\<close>) that meets the contract, for the concrete scenarios.
\<close>

section \<open>Configuration and the token library\<close>

text \<open>\<open>process.env.JWT_SECRET || "super-secret-key-change-me"\<close>.\<close>

definition jwt_secret :: "string option \<Rightarrow> string" where
  "jwt_secret env =
     (case env of Some s \<Rightarrow> if s \<noteq> [] then s else ''super-secret-key-change-me''
      | None \<Rightarrow> ''super-secret-key-change-me'')"

text \<open>
  \<open>jwt.sign(payload, secret, {expiresIn: "1h"})\<close> at a time in seconds, and
  \<open>jwt.verify(token, secret, cb)\<close> at a time in seconds, which calls back with an error
  (its message) or the decoded claims.
\<close>

record jwt_lib =
  jwt_sign :: "jsval \<Rightarrow> string \<Rightarrow> nat \<Rightarrow> string"
  jwt_verify :: "string \<Rightarrow> string \<Rightarrow> nat \<Rightarrow> string + jsval"

text \<open>The claims \<open>jsonwebtoken\<close> signs: the payload's properties, then \<open>iat\<close> and
  \<open>exp\<close>.\<close>

definition jwt_claims :: "jsval \<Rightarrow> nat \<Rightarrow> jsval" where
  "jwt_claims p iat =
     (case p of
        JObj kvs \<Rightarrow> JObj (kvs @ [(''iat'', JNum (of_nat iat)), (''exp'', JNum (of_nat (iat + 3600)))])
      | _ \<Rightarrow> p)"

text \<open>The contract assumed of the library for a payload \<open>p\<close>: tokens contain no space
  (they are three base64url segments joined by dots), and a token signed at \<open>iat\<close>
  verifies under the same secret until \<open>iat + 3600\<close> (excluded) and is rejected as
  expired from then on.\<close>

definition jwt_contract :: "jwt_lib \<Rightarrow> jsval \<Rightarrow> bool" where
  "jwt_contract lib p \<longleftrightarrow>
     (\<forall>sec iat t. CHR '' '' \<notin> set (jwt_sign lib p sec iat) \<and>
        jwt_verify lib (jwt_sign lib p sec iat) sec t =
          (if t < iat + 3600 then Inr (jwt_claims p iat) else Inl ''jwt expired''))"

section \<open>The middlewares\<close>

text \<open>\<open>authHeader.split(" ")\<close>: the pieces between single spaces, empty pieces
  included.\<close>

fun split_space :: "string \<Rightarrow> string list" where
  "split_space [] = [[]]"
| "split_space (c # cs) =
     (let r = split_space cs in if c = CHR '' '' then [] # r else (c # hd r) # tl r)"

definition jwt_missing :: response where
  "jwt_missing = json_reply 401 (JObj [(''error'', JStr ''Missing Authorization header''),
                                       (''hint'', JStr ''Send: Authorization: Bearer <token>'')])"

definition jwt_bad_format :: response where
  "jwt_bad_format = json_reply 401 (JObj [(''error'', JStr ''Invalid Authorization header format''),
                                          (''example'', JStr ''Authorization: Bearer <token>'')])"

definition jwt_invalid :: "string \<Rightarrow> response" where
  "jwt_invalid msg = json_reply 401 (JObj [(''error'', JStr ''Invalid or expired token''),
                                           (''details'', JStr msg)])"

text \<open>\<open>requireJwt\<close> with the configured secret, at time \<open>now\<close> (seconds).  An empty
  header value is falsy and counts as missing.\<close>

definition requireJwt :: "jwt_lib \<Rightarrow> string \<Rightarrow> nat \<Rightarrow> guard" where
  "requireJwt lib secret now req =
     (case req_header req ''authorization'' of
        None \<Rightarrow> Inl jwt_missing
      | Some authHeader \<Rightarrow>
          if authHeader = [] then Inl jwt_missing
          else
            let parts = split_space authHeader in
            if length parts \<noteq> 2 \<or> parts ! 0 \<noteq> ''Bearer'' then Inl jwt_bad_format
            else (case jwt_verify lib (parts ! 1) secret now of
                    Inl msg \<Rightarrow> Inl (jwt_invalid msg)
                  | Inr decoded \<Rightarrow> Inr decoded))"

definition cookie_user :: jsval where
  "cookie_user = JObj [(''username'', JStr ''cookieUser''), (''role'', JStr ''cookie-tester'')]"

definition requireCookieLogin :: guard where
  "requireCookieLogin req =
     (let sessionId = req_cookie req ''sessionId'' in
      if \<not> js_truthy sessionId then
        Inl (json_reply 401 (JObj [(''error'',
               JStr ''Missing sessionId cookie. Please login via /auth/login-cookie.'')]))
      else if sessionId \<noteq> JStr ''dummy-session-id'' then
        Inl (json_reply 401 (JObj [(''error'', JStr ''Invalid session cookie. Please login again.'')]))
      else Inr cookie_user)"

section \<open>Routes\<close>

definition DEMO_USER_username :: string where "DEMO_USER_username = ''testuser''"
definition DEMO_USER_password :: string where "DEMO_USER_password = ''password123''"
definition DEMO_USER_role :: string where "DEMO_USER_role = ''student-admin''"

definition demo_payload :: jsval where
  "demo_payload = JObj [(''username'', JStr DEMO_USER_username), (''role'', JStr DEMO_USER_role)]"

definition invalid_credentials :: response where
  "invalid_credentials = json_reply 401 (JObj [(''error'', JStr ''Invalid credentials''),
     (''hint'', JStr ''Try username: testuser, password: password123'')])"

definition credentials_ok :: "jsval \<Rightarrow> bool" where
  "credentials_ok b \<longleftrightarrow>
     body_field b ''username'' = JStr DEMO_USER_username \<and>
     body_field b ''password'' = JStr DEMO_USER_password"

definition credentials_present :: "jsval \<Rightarrow> bool" where
  "credentials_present b \<longleftrightarrow>
     js_truthy (body_field b ''username'') \<and> js_truthy (body_field b ''password'')"

text \<open>\<open>POST /auth/login-jwt\<close> (lines 137--172).\<close>

definition login_jwt :: "jwt_lib \<Rightarrow> string \<Rightarrow> nat \<Rightarrow> jsval \<Rightarrow> response" where
  "login_jwt lib secret now b =
     (if \<not> credentials_present b then
        json_reply 400 (JObj [(''error'', JStr ''username and password are required''),
          (''exampleBody'', JObj [(''username'', JStr ''testuser''), (''password'', JStr ''password123'')])])
      else if \<not> credentials_ok b then invalid_credentials
      else
        let token = jwt_sign lib demo_payload secret now in
        json_reply 200 (JObj [(''message'', JStr ''Login successful. Use this token in Authorization header.''),
          (''token'', JStr token),
          (''howToUse'', JStr ''Add header: Authorization: Bearer <token> to protected routes such as /students/protected'')]))"

text \<open>\<open>GET /auth/me\<close> and \<open>GET /auth/me-cookie\<close> (lines 175--180, 216--221).\<close>

definition me_reply :: "string \<Rightarrow> jsval \<Rightarrow> response" where
  "me_reply msg u = json_reply 200 (JObj [(''message'', JStr msg), (''user'', u)])"

text \<open>\<open>POST /auth/login-cookie\<close> (lines 183--213).\<close>

definition login_cookie :: "jsval \<Rightarrow> response" where
  "login_cookie b =
     (if \<not> credentials_present b then
        json_reply 400 (JObj [(''error'', JStr ''username and password are required'')])
      else if \<not> credentials_ok b then invalid_credentials
      else
        (json_reply 200 (JObj [(''message'', JStr ''Cookie login successful. 'sessionId' cookie set. Use it for cookie-protected routes.''),
           (''note'', JStr ''Check 'Cookies' tab in Postman.'')]))
          \<lparr>cookie_ops := [SetCookie ''sessionId'' ''dummy-session-id'']\<rparr>)"

text \<open>\<open>POST /auth/logout-cookie\<close> (lines 224--229).\<close>

definition logout_cookie :: response where
  "logout_cookie =
     (json_reply 200 (JObj [(''message'', JStr ''Logged out cookie session.'')]))
       \<lparr>cookie_ops := [ClearCookie ''sessionId'']\<rparr>"

section \<open>A stand-in token library\<close>

text \<open>
  Tokens of the form \<open>iat.sig\<close>, where \<open>sig\<close> spells the secret's character codes,
  verifying to the demo claims.  It satisfies
  \<^const>\<open>jwt_contract\<close> for the one payload the server signs, and serves the concrete
  scenarios; it is not a model of \<open>jsonwebtoken\<close>'s encoding.
\<close>

definition demo_sig :: "string \<Rightarrow> string" where
  "demo_sig sec = concat (map (\<lambda>c. ''x'' @ nat_str (of_char c)) sec)"

definition demo_jwt :: jwt_lib where
  "demo_jwt =
     \<lparr>jwt_sign = (\<lambda>p sec iat. nat_str iat @ ''.'' @ demo_sig sec),
      jwt_verify = (\<lambda>tok sec t.
        let ds = takeWhile is_dec tok in
        if ds \<noteq> [] \<and> dropWhile is_dec tok = ''.'' @ demo_sig sec then
          (if t < dec_val ds + 3600 then Inr (jwt_claims demo_payload (dec_val ds))
           else Inl ''jwt expired'')
        else Inl ''invalid signature'')\<rparr>"

section \<open>Lemmas\<close>

text \<open>Joining pieces with single spaces, the inverse of \<^const>\<open>split_space\<close>.\<close>

fun join_space :: "string list \<Rightarrow> string" where
  "join_space [] = []"
| "join_space [w] = w"
| "join_space (w # ws) = w @ '' '' @ join_space ws"

lemma split_space_not_Nil [simp]: "split_space s \<noteq> []"
  by (cases s) (simp_all add: Let_def)

lemma split_space_no_space: "CHR '' '' \<notin> set a \<Longrightarrow> split_space a = [a]"
  by (induction a) (auto simp: Let_def)

lemma split_space_append: "CHR '' '' \<notin> set a \<Longrightarrow> split_space (a @ CHR '' '' # b) = a # split_space b"
  by (induction a) (auto simp: Let_def)

text \<open>Splitting and joining with single spaces are inverse.\<close>

lemma join_split_space: "join_space (split_space s) = s"
proof (induction s)
  case Nil
  then show ?case by simp
next
  case (Cons c cs)
  then show ?case
    by (cases "split_space cs" rule: join_space.cases) (auto simp: Let_def)
qed

lemma split_space_pieces: "w \<in> set (split_space s) \<Longrightarrow> CHR '' '' \<notin> set w"
proof (induction s arbitrary: w)
  case Nil
  then show ?case by simp
next
  case (Cons c cs)
  then show ?case
    by (cases "split_space cs") (auto simp: Let_def split: if_splits)
qed

text \<open>A header splits into \<open>["Bearer", tok]\<close> exactly when it is \<open>Bearer\<close>, one space and
  a token without spaces.\<close>

lemma split_space_bearer:
  "(length (split_space h) = 2 \<and> split_space h ! 0 = ''Bearer'' \<and> split_space h ! 1 = tok) \<longleftrightarrow>
     (h = ''Bearer '' @ tok \<and> CHR '' '' \<notin> set tok)"
proof
  assume a: "length (split_space h) = 2 \<and> split_space h ! 0 = ''Bearer'' \<and> split_space h ! 1 = tok"
  then have sp: "split_space h = [''Bearer'', tok]"
    by (cases "split_space h" rule: remdups_adj.cases) auto
  have "h = join_space (split_space h)" by (simp add: join_split_space)
  also have "\<dots> = ''Bearer '' @ tok" by (simp add: sp)
  finally show "h = ''Bearer '' @ tok \<and> CHR '' '' \<notin> set tok"
    using split_space_pieces [of tok h] sp by simp
next
  assume "h = ''Bearer '' @ tok \<and> CHR '' '' \<notin> set tok"
  then show "length (split_space h) = 2 \<and> split_space h ! 0 = ''Bearer'' \<and> split_space h ! 1 = tok"
    using split_space_append [of "''Bearer''" tok] by (simp add: split_space_no_space)
qed

lemma nat_str_takeWhile: "takeWhile is_dec (nat_str n @ CHR ''.'' # s) = nat_str n"
  using nat_str_digits [of n] by (simp add: takeWhile_append2 list_all_iff is_dec_def)

lemma nat_str_dropWhile: "dropWhile is_dec (nat_str n @ CHR ''.'' # s) = CHR ''.'' # s"
  using nat_str_digits [of n] by (simp add: dropWhile_append2 list_all_iff is_dec_def)

lemma nat_str_no_space: "CHR '' '' \<notin> set (nat_str n)"
  using nat_str_digits [of n] by (auto simp: list_all_iff is_dec_def)

lemma demo_sig_no_space: "CHR '' '' \<notin> set (demo_sig sec)"
  by (auto simp: demo_sig_def nat_str_no_space)

lemma demo_jwt_contract: "jwt_contract demo_jwt demo_payload"
  by (simp add: jwt_contract_def demo_jwt_def nat_str_takeWhile nat_str_dropWhile
      nat_str_no_space demo_sig_no_space)

lemma credentials_ok_present: "credentials_ok b \<Longrightarrow> credentials_present b"
  by (simp add: credentials_ok_def credentials_present_def DEMO_USER_username_def
      DEMO_USER_password_def)

text \<open>A request carrying a token the library signed passes \<open>requireJwt\<close> until the
  token expires.\<close>

lemma requireJwt_bearer:
  assumes lib: "jwt_contract lib p"
    and hdr: "req_header req ''authorization'' = Some (''Bearer '' @ jwt_sign lib p secret iat)"
  shows "requireJwt lib secret t req =
           (if t < iat + 3600 then Inr (jwt_claims p iat) else Inl (jwt_invalid ''jwt expired''))"
proof -
  let ?tok = "jwt_sign lib p secret iat"
  have "CHR '' '' \<notin> set ?tok" using lib by (simp add: jwt_contract_def)
  then have "length (split_space (''Bearer '' @ ?tok)) = 2 \<and> split_space (''Bearer '' @ ?tok) ! 0 = ''Bearer''
          \<and> split_space (''Bearer '' @ ?tok) ! 1 = ?tok"
    using split_space_bearer by blast
  with hdr lib show ?thesis
    by (simp add: requireJwt_def Let_def jwt_contract_def)
qed

section \<open>Properties of the middlewares and routes\<close>

text \<open>C8: \<open>requireJwt\<close> lets a request through exactly when its Authorization header is
  \<open>Bearer\<close>, one space and a token without spaces that the library verifies; the
  decoded claims become \<open>req.user\<close>.\<close>

theorem requireJwt_accepts_iff:
  "requireJwt lib secret now req = Inr u \<longleftrightarrow>
     (\<exists>tok. req_header req ''authorization'' = Some (''Bearer '' @ tok) \<and> CHR '' '' \<notin> set tok
            \<and> jwt_verify lib tok secret now = Inr u)"
proof (cases "req_header req ''authorization''")
  case None
  then show ?thesis by (simp add: requireJwt_def)
next
  case (Some h)
  show ?thesis
  proof
    assume acc: "requireJwt lib secret now req = Inr u"
    define tok where "tok = split_space h ! 1"
    from acc Some have parts: "length (split_space h) = 2 \<and> split_space h ! 0 = ''Bearer''"
      and ver: "jwt_verify lib tok secret now = Inr u"
      by (auto simp: requireJwt_def Let_def tok_def split: if_splits sum.splits)
    from parts have hb: "h = ''Bearer '' @ tok" and ns: "CHR '' '' \<notin> set tok"
      using split_space_bearer [of h tok] by (simp_all add: tok_def)
    from Some hb have "req_header req ''authorization'' = Some (''Bearer '' @ tok)" by simp
    with ns ver show "\<exists>tok. req_header req ''authorization'' = Some (''Bearer '' @ tok)
        \<and> CHR '' '' \<notin> set tok \<and> jwt_verify lib tok secret now = Inr u" by blast
  next
    assume "\<exists>tok. req_header req ''authorization'' = Some (''Bearer '' @ tok) \<and> CHR '' '' \<notin> set tok
            \<and> jwt_verify lib tok secret now = Inr u"
    then obtain tok where h: "h = ''Bearer '' @ tok" "CHR '' '' \<notin> set tok"
      and ver: "jwt_verify lib tok secret now = Inr u" using Some by auto
    from h have "length (split_space h) = 2 \<and> split_space h ! 0 = ''Bearer'' \<and> split_space h ! 1 = tok"
      using split_space_bearer [of h tok] by simp
    with Some h ver show "requireJwt lib secret now req = Inr u"
      by (simp add: requireJwt_def Let_def)
  qed
qed

text \<open>C9: a present, non-empty Authorization header that is not \<open>Bearer <token>\<close> (a
  \<open>Basic\<close> header, two spaces, a missing token part) is rejected with 401 and the
  format error, before any token is looked at.\<close>

theorem requireJwt_bad_format:
  assumes "req_header req ''authorization'' = Some h" and "h \<noteq> []"
    and "\<not> (\<exists>tok. h = ''Bearer '' @ tok \<and> CHR '' '' \<notin> set tok)"
  shows "requireJwt lib secret now req = Inl jwt_bad_format \<and> status jwt_bad_format = 401"
proof -
  have "\<not> (length (split_space h) = 2 \<and> split_space h ! 0 = ''Bearer'')"
    using assms(3) split_space_bearer [of h "split_space h ! 1"] by blast
  with assms(1,2) show ?thesis
    by (simp add: requireJwt_def Let_def jwt_bad_format_def json_reply_def)
qed

text \<open>C10: logging in with the demo credentials answers 200 with a token; a request
  carrying \<open>Authorization: Bearer <token>\<close> is accepted for one hour with the
  library's claims (username, role, \<open>iat\<close>, \<open>exp\<close>) as \<open>req.user\<close>, and rejected
  as expired from then on, for any library meeting the contract.\<close>

theorem login_jwt_then_requireJwt:
  assumes lib: "jwt_contract lib demo_payload" and cred: "credentials_ok b"
  shows "\<exists>tok. login_jwt lib secret now b =
           json_reply 200 (JObj [(''message'', JStr ''Login successful. Use this token in Authorization header.''),
             (''token'', JStr tok),
             (''howToUse'', JStr ''Add header: Authorization: Bearer <token> to protected routes such as /students/protected'')])
         \<and> (\<forall>req t. req_header req ''authorization'' = Some (''Bearer '' @ tok) \<longrightarrow>
               requireJwt lib secret t req =
                 (if t < now + 3600 then Inr (jwt_claims demo_payload now)
                  else Inl (jwt_invalid ''jwt expired'')))"
proof -
  let ?tok = "jwt_sign lib demo_payload secret now"
  from cred have "credentials_present b" by (rule credentials_ok_present)
  with cred have login: "login_jwt lib secret now b =
           json_reply 200 (JObj [(''message'', JStr ''Login successful. Use this token in Authorization header.''),
             (''token'', JStr ?tok),
             (''howToUse'', JStr ''Add header: Authorization: Bearer <token> to protected routes such as /students/protected'')])"
    by (simp add: login_jwt_def)
  have "requireJwt lib secret t req =
          (if t < now + 3600 then Inr (jwt_claims demo_payload now) else Inl (jwt_invalid ''jwt expired''))"
    if "req_header req ''authorization'' = Some (''Bearer '' @ ?tok)" for req t
    using requireJwt_bearer [OF lib that] .
  with login show ?thesis by blast
qed

text \<open>C11: \<open>requireCookieLogin\<close> accepts exactly the requests whose \<open>sessionId\<close>
  cookie is the string \<open>dummy-session-id\<close>, and then always sets the same fixed
  identity, whoever logged in.\<close>

theorem requireCookieLogin_iff:
  "requireCookieLogin req = Inr u \<longleftrightarrow>
     req_cookie req ''sessionId'' = JStr ''dummy-session-id'' \<and> u = cookie_user"
  by (auto simp: requireCookieLogin_def Let_def)

end
