(* ===== verification/BodyParser.thy ===== *)
theory BodyParser
  imports Http Json
begin

text \<open>
  The JSON body parser \<^verbatim>\<open>server.js\<close> installs first, \<open>app.use(express.json())\<close>
  (Express 4, body-parser 1.x with its defaults: \<open>strict\<close>, \<open>limit\<close> 100kb, type
  \<open>application/json\<close>).  It leaves \<open>{}\<close> in \<open>req.body\<close> for a request without a body or
  of another media type, rejects a payload over the limit with 413, and in strict mode
  parses with \<open>JSON.parse\<close> only a text whose first non-blank character is \<open>{\<close> or
  \<open>[\<close>; every other text is answered 400 with the engine's \<open>SyntaxError\<close> message.
  The message text is the engine's, so it is a parameter \<open>msg\<close> of the model (the message
  \<open>JSON.parse\<close> gives for a text).  The raw body is the payload's characters (\<open>None\<close> when
  the request has neither Content-Length nor Transfer-Encoding).
\<close>

section \<open>Content type\<close>

definition ows :: "char \<Rightarrow> bool" where
  "ows c \<longleftrightarrow> c = CHR '' '' \<or> c = CHR 0x09"

text \<open>The media type of a Content-Type value, lower-cased, without its parameters.\<close>

definition media_type :: "string \<Rightarrow> string" where
  "media_type t = js_lower (rev (dropWhile ows (rev (dropWhile ows (takeWhile (\<lambda>c. c \<noteq> CHR '';'') t)))))"

text \<open>\<open>type-is\<close> against the parser's \<open>type\<close> option: no Content-Type never matches.\<close>

definition json_type :: "string option \<Rightarrow> bool" where
  "json_type ct = (case ct of None \<Rightarrow> False | Some t \<Rightarrow> media_type t = ''application/json'')"

section \<open>The parser\<close>

text \<open>The default \<open>limit\<close>, \<open>'100kb'\<close>, in bytes.\<close>

definition json_limit :: nat where
  "json_limit = 102400"

text \<open>\<open>String.prototype.replace\<close> with a one-character pattern: the first occurrence only.\<close>

fun replace_first :: "char \<Rightarrow> string \<Rightarrow> string \<Rightarrow> string" where
  "replace_first a r [] = []"
| "replace_first a r (c # s) = (if c = a then r @ s else c # replace_first a r s)"

text \<open>\<open>createStrictSyntaxError(str, char)\<close>: the message \<open>JSON.parse\<close> gives for the text
  up to the offending character with \<open>#\<close> in its place, the \<open>#\<close> then put back.  For a
  blank text there is no such character and the partial text is empty.\<close>

definition strict_error :: "(string \<Rightarrow> string) \<Rightarrow> string \<Rightarrow> body_in" where
  "strict_error msg s =
     (case json_skip s of
        [] \<Rightarrow> BadBody 400 (msg [])
      | c # _ \<Rightarrow> BadBody 400 (replace_first CHR ''#'' [c] (msg (takeWhile json_ws s @ ''#''))))"

text \<open>\<open>jsonParser(req, res, next)\<close>: \<open>req.body = req.body || {}\<close>, skip a request without
  a body or of another type, read at most \<open>limit\<close> bytes, then \<open>parse(body)\<close>: the empty
  text is \<open>{}\<close>, the strict check on the first character, then \<open>JSON.parse\<close>.\<close>

definition express_json :: "(string \<Rightarrow> string) \<Rightarrow> (string \<times> string) list \<Rightarrow> string option \<Rightarrow> body_in" where
  "express_json msg hs raw =
     (case raw of
        None \<Rightarrow> JsonBody (JObj [])
      | Some s \<Rightarrow>
          if \<not> json_type (map_of hs ''content-type'') then JsonBody (JObj [])
          else if json_limit < length s then BadBody 413 ''request entity too large''
          else if s = [] then JsonBody (JObj [])
          else (case json_skip s of
                  c # _ \<Rightarrow>
                    if c = CHR ''{'' \<or> c = CHR ''['' then
                      (case JSON_parse s of
                         Some v \<Rightarrow> JsonBody v
                       | None \<Rightarrow> BadBody 400 (msg s))
                    else strict_error msg s
                | [] \<Rightarrow> strict_error msg s))"

section \<open>Lemmas\<close>

lemma json_elems_JArr: "json_elems f acc s = Some (v, r) \<Longrightarrow> \<exists>vs. v = JArr vs"
  by (induction f arbitrary: acc s) (auto split: option.splits list.splits if_splits)

lemma json_members_JObj: "json_members f acc s = Some (v, r) \<Longrightarrow> \<exists>kvs. v = JObj kvs"
  by (induction f arbitrary: acc s) (auto split: option.splits list.splits if_splits)

lemma json_val_container:
  assumes "json_skip s = c # r" "c = CHR ''{'' \<or> c = CHR ''[''" "json_val f s = Some (v, r')"
  shows "(\<exists>vs. v = JArr vs) \<or> (\<exists>kvs. v = JObj kvs)"
  using assms
  by (cases f) (auto split: list.splits if_splits dest: json_elems_JArr json_members_JObj)

lemma JSON_parse_container:
  assumes "json_skip s = c # r" "c = CHR ''{'' \<or> c = CHR ''[''" "JSON_parse s = Some v"
  shows "(\<exists>vs. v = JArr vs) \<or> (\<exists>kvs. v = JObj kvs)"
proof -
  from assms(3) obtain r' where "json_val (2 * length s + 2) s = Some (v, r')"
    by (auto simp: JSON_parse_def simp del: json_val.simps split: option.splits if_splits)
  then show ?thesis by (rule json_val_container [OF assms(1,2)])
qed

lemma strict_error_status: "\<exists>m. strict_error msg s = BadBody 400 m"
  by (simp add: strict_error_def split: list.split)

text \<open>What the parser hands on is a value of JSON text, an object or an array, or an error
  with status 400 or 413.\<close>

lemma express_json_result:
  "(case express_json msg hs raw of
      JsonBody b \<Rightarrow> json_value b \<and> ((\<exists>vs. b = JArr vs) \<or> (\<exists>kvs. b = JObj kvs))
    | BadBody n m \<Rightarrow> n = 400 \<or> n = 413)"
proof -
  have e: "json_value (JObj [])" by (simp add: js_own_props_def)
  have se: "case strict_error msg s of JsonBody b \<Rightarrow> False | BadBody n m \<Rightarrow> n = 400" for s
    by (simp add: strict_error_def split: list.split)
  have p: "case (case JSON_parse s of Some v \<Rightarrow> JsonBody v | None \<Rightarrow> BadBody 400 (msg s)) of
             JsonBody b \<Rightarrow> json_value b \<and> ((\<exists>vs. b = JArr vs) \<or> (\<exists>kvs. b = JObj kvs))
           | BadBody n m \<Rightarrow> n = 400 \<or> n = 413"
    if "json_skip s = c # r" "c = CHR ''{'' \<or> c = CHR ''[''" for s c r
    using JSON_parse_value [of s] JSON_parse_container [OF that]
    by (simp split: option.split)
  show ?thesis
  proof (cases raw)
    case (Some s)
    show ?thesis
    proof (cases "json_skip s")
      case Nil
      with Some e se [of s] show ?thesis
        by (simp add: express_json_def split: body_in.splits)
    next
      case (Cons c r)
      with Some e se [of s] p [of s c r] show ?thesis
        by (simp add: express_json_def split: body_in.splits)
    qed
  qed (simp add: express_json_def js_own_props_def)
qed

lemma json_wrap_head: "\<exists>r. json_wrap op cl gap sb ind parts = op # r"
  by (simp add: json_wrap_def)

lemma JSON_stringify_container_head:
  "JSON_stringify (JArr vs) space = Some t \<Longrightarrow> \<exists>r. t = CHR ''['' # r"
  "JSON_stringify (JObj kvs) space = Some t \<Longrightarrow> \<exists>r. t = CHR ''{'' # r"
  by (auto simp: JSON_stringify_def json_wrap_head)

lemma json_skip_container:
  "t = c # r \<Longrightarrow> c = CHR ''{'' \<or> c = CHR ''['' \<Longrightarrow> json_skip t = c # r"
  by (auto simp: json_skip_def json_ws_def)

section \<open>Properties\<close>


end
