(* ===== verification/Server.thy ===== *)
theory Server
  imports Students Auth BodyParser
begin

text \<open>
  The Express application of \<^verbatim>\<open>server.js\<close> (\<^verbatim>\<open>src/unnamed/part_002\<close>): the
  middleware chain (\<open>express.json()\<close>, \<open>cookieParser()\<close>, \<open>cors(...)\<close>, the
  logger), the routes in declaration order, the students router mounted at
  \<open>/students\<close>, the 404 handler and the error handler.  One request is one step of a
  deterministic function on the server state (the store of
  \<^verbatim>\<open>routes/students.js\<close>), given the environment of that request: the clock and
  whether \<open>fs.writeFileSync\<close> succeeds.  Requests run to completion one after the
  other, as the single-threaded handlers (all synchronous) do.  The lemmas show that
  the store invariant and the record shape survive every request, when memory and
  file agree (and that a data file that does not parse is overwritten), which statuses a response can have, and that a valid creation by an
  authenticated client always succeeds.
\<close>

section \<open>Environment\<close>

text \<open>\<open>clock_ms\<close> is \<open>Date.now()\<close>; \<open>write_error\<close> is the message of the exception
  \<open>fs.writeFileSync\<close> throws, if it does.\<close>

record env =
  clock_ms :: nat
  write_error :: "string option"

section \<open>Date.prototype.toISOString\<close>

text \<open>The civil date of a day count since 1970-01-01 (proleptic Gregorian calendar), by
  the era decomposition of the calendar into 400-year cycles.\<close>

definition civil_of_days :: "nat \<Rightarrow> nat \<times> nat \<times> nat" where
  "civil_of_days z0 =
     (let z = z0 + 719468;
          era = z div 146097;
          doe = z - era * 146097;
          yoe = (doe - doe div 1460 + doe div 36524 - doe div 146096) div 365;
          doy = doe - (365 * yoe + yoe div 4 - yoe div 100);
          mp = (5 * doy + 2) div 153;
          d = doy - (153 * mp + 2) div 5 + 1;
          m = (if mp < 10 then mp + 3 else mp - 9);
          y = yoe + era * 400 + (if m \<le> 2 then 1 else 0)
      in (y, m, d))"

definition pad :: "nat \<Rightarrow> nat \<Rightarrow> string" where
  "pad w n = (let s = nat_str n in replicate (w - length s) (CHR ''0'') @ s)"

text \<open>\<open>new Date(ms).toISOString()\<close> for years up to 9999.\<close>

definition iso_timestamp :: "nat \<Rightarrow> string" where
  "iso_timestamp ms =
     (let (y, m, d) = civil_of_days (ms div 86400000);
          t = ms mod 86400000
      in pad 4 y @ ''-'' @ pad 2 m @ ''-'' @ pad 2 d @ ''T'' @
         pad 2 (t div 3600000) @ '':'' @ pad 2 (t div 60000 mod 60) @ '':'' @
         pad 2 (t div 1000 mod 60) @ ''.'' @ pad 3 (t mod 1000) @ ''Z'')"

section \<open>The application\<close>

fun method_name :: "http_method \<Rightarrow> string" where
  "method_name GET = ''GET''"
| "method_name HEAD = ''HEAD''"
| "method_name POST = ''POST''"
| "method_name PUT = ''PUT''"
| "method_name PATCH = ''PATCH''"
| "method_name DELETE = ''DELETE''"
| "method_name OPTIONS = ''OPTIONS''"
| "method_name (OTHER s) = s"

text \<open>The routes of \<^verbatim>\<open>server.js\<close> before the students router, in declaration order.\<close>

datatype app_route =
    Health | TestHeaders | TestSetCookie | TestGetCookies
  | LoginJwt | AuthMe | LoginCookie | AuthMeCookie | LogoutCookie

definition match_app_route :: "http_method \<Rightarrow> string \<Rightarrow> app_route option" where
  "match_app_route m p =
     (if is_get m \<and> route_is p ''/health'' then Some Health
      else if is_get m \<and> route_is p ''/test/headers'' then Some TestHeaders
      else if is_get m \<and> route_is p ''/test/set-cookie'' then Some TestSetCookie
      else if is_get m \<and> route_is p ''/test/get-cookies'' then Some TestGetCookies
      else if m = POST \<and> route_is p ''/auth/login-jwt'' then Some LoginJwt
      else if is_get m \<and> route_is p ''/auth/me'' then Some AuthMe
      else if m = POST \<and> route_is p ''/auth/login-cookie'' then Some LoginCookie
      else if is_get m \<and> route_is p ''/auth/me-cookie'' then Some AuthMeCookie
      else if m = POST \<and> route_is p ''/auth/logout-cookie'' then Some LogoutCookie
      else None)"

text \<open>The handlers of those routes (lines 92--229); none touches the store.\<close>

definition app_handler :: "jwt_lib \<Rightarrow> string \<Rightarrow> nat \<Rightarrow> request \<Rightarrow> jsval \<Rightarrow> app_route \<Rightarrow> response" where
  "app_handler lib secret now_ms req b rt =
     (let now = now_ms div 1000 in
      case rt of
        Health \<Rightarrow>
          json_reply 200 (JObj [(''status'', JStr ''ok''), (''timestamp'', JStr (iso_timestamp now_ms))])
      | TestHeaders \<Rightarrow>
          json_reply 200 (JObj [(''message'', JStr ''Here are your request headers''),
            (''headers'', JObj (map (\<lambda>(k, v). (k, JStr v)) (headers req)))])
      | TestSetCookie \<Rightarrow>
          (json_reply 200 (JObj [(''message'', JStr ''demoCookie set. Check 'Cookies' in Postman.'')]))
            \<lparr>cookie_ops := [SetCookie ''demoCookie'' ''hello-from-server'']\<rparr>
      | TestGetCookies \<Rightarrow> json_reply 200 (JObj [(''cookies'', JObj (cookies req))])
      | LoginJwt \<Rightarrow> login_jwt lib secret now b
      | AuthMe \<Rightarrow>
          (case requireJwt lib secret now req of
             Inl r \<Rightarrow> r
           | Inr u \<Rightarrow> me_reply ''You are authenticated with JWT!'' u)
      | LoginCookie \<Rightarrow> login_cookie b
      | AuthMeCookie \<Rightarrow>
          (case requireCookieLogin req of
             Inl r \<Rightarrow> r
           | Inr u \<Rightarrow> me_reply ''You are authenticated with a cookie!'' u)
      | LogoutCookie \<Rightarrow> logout_cookie)"

text \<open>The 404 handler (lines 235--241).\<close>

definition not_found_route :: "request \<Rightarrow> response" where
  "not_found_route req =
     json_reply 404 (JObj [(''error'', JStr ''Not Found''), (''pathTried'', JStr (url req)),
                           (''method'', JStr (method_name (req_method req)))])"

text \<open>The answer of \<open>cors()\<close> to a preflight request: 204 with an empty body.\<close>

definition preflight :: response where
  "preflight = \<lparr>status = 204, body = JUndefined, cookie_ops = []\<rparr>"

text \<open>What the application does with a request after the body parser, as an outcome on
  the store: the middleware chain, then the routes, then the router, then 404.\<close>

definition app_dispatch :: "jwt_lib \<Rightarrow> string \<Rightarrow> nat \<Rightarrow> student list \<Rightarrow> request \<Rightarrow> jsval \<Rightarrow> outcome" where
  "app_dispatch lib secret now_ms ss req b =
     (let p = url_path (url req); m = req_method req; now = now_ms div 1000 in
      if m = OPTIONS then Reply ss preflight
      else case match_app_route m p of
        Some rt \<Rightarrow> Reply ss (app_handler lib secret now_ms req b rt)
      | None \<Rightarrow>
          (case mount_rest ''/students'' p of
             None \<Rightarrow> Reply ss (not_found_route req)
           | Some inner \<Rightarrow>
               (case students_router (requireJwt lib secret now) requireCookieLogin ss req inner b of
                  None \<Rightarrow> Reply ss (not_found_route req)
                | Some oc \<Rightarrow> oc)))"

text \<open>Carrying out an outcome: \<open>saveStudents()\<close> runs after the in-memory change and
  before the response; when it throws, the error handler answers with status 500 and the
  in-memory change stays.\<close>

definition run_outcome :: "env \<Rightarrow> store \<Rightarrow> outcome \<Rightarrow> response \<times> store" where
  "run_outcome e st oc =
     (case oc of
        Reply ss r \<Rightarrow> (r, st\<lparr>students := ss\<rparr>)
      | Persist ss r \<Rightarrow>
          (case write_error e of
             None \<Rightarrow> (r, saveStudents (st\<lparr>students := ss\<rparr>))
           | Some msg \<Rightarrow> (error_handler None msg, st\<lparr>students := ss\<rparr>)))"

text \<open>One request: \<open>express.json()\<close> runs first and hands a parse error to the error
  handler.\<close>

definition handle_request :: "jwt_lib \<Rightarrow> string \<Rightarrow> env \<Rightarrow> store \<Rightarrow> request \<Rightarrow> response \<times> store" where
  "handle_request lib secret e st req =
     (case req_body req of
        BadBody n msg \<Rightarrow> (error_handler (Some n) msg, st)
      | JsonBody b \<Rightarrow> run_outcome e st (app_dispatch lib secret (clock_ms e) (students st) req b))"

text \<open>The line the request logger prints, \<open>[ISO time] METHOD originalUrl\<close>.  The logger
  is registered after \<open>express.json()\<close>, \<open>cookieParser()\<close> and \<open>cors(...)\<close>, so a
  request whose body the parser rejects (\<open>next(err)\<close> skips it) and a preflight that
  \<open>cors\<close> answers never reach it.\<close>

definition request_log :: "nat \<Rightarrow> request \<Rightarrow> string option" where
  "request_log now req =
     (case req_body req of
        BadBody _ _ \<Rightarrow> None
      | JsonBody _ \<Rightarrow>
          if req_method req = OPTIONS then None
          else Some (''['' @ iso_timestamp now @ ''] '' @ method_name (req_method req) @ '' '' @ url req))"

section \<open>Runs and reachable states\<close>

text \<open>The states the server can reach: the store loaded at start-up from a data file
  that satisfies the invariant, then any request in any environment.\<close>

inductive reachable :: "jwt_lib \<Rightarrow> string \<Rightarrow> store \<Rightarrow> bool" for lib secret where
  boot: "boot_store f = Some st \<Longrightarrow> store_inv (students st) \<Longrightarrow> reachable lib secret st"
| step: "reachable lib secret st \<Longrightarrow> reachable lib secret (snd (handle_request lib secret e st req))"

text \<open>A sequence of requests with their environments, served one after the other.\<close>

fun serve :: "jwt_lib \<Rightarrow> string \<Rightarrow> store \<Rightarrow> (env \<times> request) list \<Rightarrow> response list \<times> store" where
  "serve lib secret st [] = ([], st)"
| "serve lib secret st ((e, req) # rest) =
     (let (r, st') = handle_request lib secret e st req;
          (rs, st'') = serve lib secret st' rest
      in (r # rs, st''))"

section \<open>The client's cookie jar\<close>

text \<open>What Postman or a browser does with \<open>res.cookie(k, v)\<close> and
  \<open>res.clearCookie(k)\<close>: the jar keeps one value per name and sends it back as the
  Cookie header, which \<open>cookie-parser\<close> turns into \<open>req.cookies\<close>.\<close>

fun apply_cookie_op :: "(string \<times> jsval) list \<Rightarrow> cookie_op \<Rightarrow> (string \<times> jsval) list" where
  "apply_cookie_op jar (SetCookie k v) = (k, JStr v) # filter (\<lambda>(k', _). k' \<noteq> k) jar"
| "apply_cookie_op jar (ClearCookie k) = filter (\<lambda>(k', _). k' \<noteq> k) jar"

definition jar_after :: "response \<Rightarrow> (string \<times> jsval) list \<Rightarrow> (string \<times> jsval) list" where
  "jar_after r jar = foldl apply_cookie_op jar (cookie_ops r)"

section \<open>Memory and file\<close>

text \<open>The in-memory array is what a restart would load from the file.\<close>

definition in_sync :: "store \<Rightarrow> bool" where
  "in_sync st \<longleftrightarrow> loadStudents (data_file st) = Some (students st)"

text \<open>An outcome that does not save leaves the array as it was.\<close>

definition keeps_on_reply :: "student list \<Rightarrow> outcome \<Rightarrow> bool" where
  "keeps_on_reply ss oc \<longleftrightarrow> (case oc of Reply ss' r \<Rightarrow> ss' = ss | Persist ss' r \<Rightarrow> True)"

text \<open>The request body is what \<open>express.json()\<close> made of JSON text: a value of JSON
  text, or the parse error.\<close>

definition body_json :: "request \<Rightarrow> bool" where
  "body_json req \<longleftrightarrow> (case req_body req of JsonBody b \<Rightarrow> json_value b | BadBody _ _ \<Rightarrow> True)"

text \<open>The records a patch may leave: decimals, and the index in range.\<close>

definition decimal_patching :: "nat \<Rightarrow> student list \<Rightarrow> bool" where
  "decimal_patching k ss \<longleftrightarrow> list_all student_decimal ss \<and> k < length ss"

section \<open>Lemmas: the store invariant across requests\<close>

lemma app_dispatch_preserves:
  assumes "P ss"
    and "\<And>b. P (outcome_students (create_student ss b))"
    and "\<And>x b. P (outcome_students (replace_student ss x b))"
    and "\<And>x b. P (outcome_students (patch_student ss x b))"
    and "\<And>x. P (outcome_students (delete_student ss x))"
  shows "P (outcome_students (app_dispatch lib secret now ss req b))"
  using assms by (auto simp: app_dispatch_def Let_def split: option.splits
      intro: students_router_preserves [where P = P])

lemma app_dispatch_inv:
  "store_inv ss \<Longrightarrow> store_inv (outcome_students (app_dispatch lib secret now ss req b))"
  by (rule app_dispatch_preserves [where P = store_inv]) (simp_all add: handlers_inv)

lemma app_dispatch_typed:
  "list_all student_typed ss \<Longrightarrow>
     list_all student_typed (outcome_students (app_dispatch lib secret now ss req b))"
  by (rule app_dispatch_preserves [where P = "list_all student_typed"]) (simp_all add: handlers_typed)

lemma run_outcome_students [simp]: "students (snd (run_outcome e st oc)) = outcome_students oc"
  by (cases oc) (auto simp: run_outcome_def saveStudents_def split: option.splits)

lemma handle_request_inv:
  "store_inv (students st) \<Longrightarrow> store_inv (students (snd (handle_request lib secret e st req)))"
  by (auto simp: handle_request_def app_dispatch_inv split: body_in.splits)

lemma handle_request_typed:
  "list_all student_typed (students st) \<Longrightarrow>
     list_all student_typed (students (snd (handle_request lib secret e st req)))"
  by (auto simp: handle_request_def app_dispatch_typed split: body_in.splits)

lemma express_json_body_json: "body_json (req\<lparr>req_body := express_json msg hs raw\<rparr>)"
  using express_json_result [of msg hs raw] by (simp add: body_json_def split: body_in.splits)

lemma request_log_reached:
  "request_log now req \<noteq> None \<longleftrightarrow> (\<exists>b. req_body req = JsonBody b) \<and> req_method req \<noteq> OPTIONS"
  by (simp add: request_log_def split: body_in.split)

text \<open>A logged request is one the routes see: the logger never reports a request that
  the body parser or \<open>cors\<close> has already answered.\<close>

lemma request_log_routed:
  assumes "request_log now req = Some l"
  shows "\<exists>b. req_body req = JsonBody b \<and>
           handle_request lib secret e st req = run_outcome e st (app_dispatch lib secret (clock_ms e) (students st) req b)
           \<and> req_method req \<noteq> OPTIONS"
  using assms by (auto simp: request_log_def handle_request_def split: body_in.splits if_splits)

section \<open>Lemmas: decimal records\<close>

text \<open>The request body \<open>express.json()\<close> hands on is a value of JSON text, so the
  numbers the handlers store are decimals, and the array can be written as JSON and read
  back.\<close>

lemma students_router_preserves_body:
  assumes P: "P ss" and r: "students_router g1 g2 ss req p b = Some oc"
    and "P (outcome_students (create_student ss b))"
    and "\<And>x. P (outcome_students (replace_student ss x b))"
    and "\<And>x. P (outcome_students (patch_student ss x b))"
    and "\<And>x. P (outcome_students (delete_student ss x))"
  shows "P (outcome_students oc)"
proof -
  from r obtain rt where "oc = dispatch_route g1 g2 ss req b rt"
    by (auto simp: students_router_def)
  then show ?thesis
    by (cases rt) (simp_all add: dispatch_route_def P assms(3-6) with_param_students guarded_students)
qed

lemma app_dispatch_preserves_body:
  assumes "P ss"
    and "P (outcome_students (create_student ss b))"
    and "\<And>x. P (outcome_students (replace_student ss x b))"
    and "\<And>x. P (outcome_students (patch_student ss x b))"
    and "\<And>x. P (outcome_students (delete_student ss x))"
  shows "P (outcome_students (app_dispatch lib secret now ss req b))"
  using assms by (auto simp: app_dispatch_def Let_def split: option.splits
      intro: students_router_preserves_body [where P = P])

lemma is_decimal_Ints: "q \<in> \<int> \<Longrightarrow> is_decimal q"
  by (auto simp: is_decimal_iff intro: exI [of _ 0])

lemma is_decimal_add1: "is_decimal q \<Longrightarrow> is_decimal (q + 1)"
proof -
  assume "is_decimal q"
  then obtain d where "q * 10 ^ d \<in> \<int>" by (auto simp: is_decimal_iff)
  then have "(q + 1) * 10 ^ d \<in> \<int>" by (simp add: distrib_right)
  then show ?thesis by (auto simp: is_decimal_iff)
qed

lemma max_id_decimal: "list_all student_decimal ss \<Longrightarrow> is_decimal (max_id ss)"
  using max_id_in [of ss] by (auto simp: list_all_iff student_decimal_def is_decimal_Ints)

lemma body_field_json:
  assumes "json_value b" "body_field b k = JNum a"
  shows "is_decimal a"
proof -
  have "json_value (js_or b (JObj []))" using assms(1) by (simp add: js_or_def js_own_props_def)
  from js_prop_json_value [OF this, of k] assms(2) show ?thesis by (simp add: body_field_def)
qed

lemma js_num_val_decimal: "json_value b \<Longrightarrow> is_decimal (js_num_val (body_field b k))"
  by (cases "body_field b k") (auto dest: body_field_json simp: is_decimal_Ints)

lemma create_student_decimal:
  "json_value b \<Longrightarrow> list_all student_decimal ss \<Longrightarrow>
     list_all student_decimal (outcome_students (create_student ss b))"
  by (auto simp: create_student_def Let_def student_decimal_def max_id_decimal is_decimal_add1
      js_num_val_decimal split: option.splits)

lemma replace_student_decimal:
  assumes b: "json_value b" and ty: "list_all student_decimal ss"
  shows "list_all student_decimal (outcome_students (replace_student ss p b))"
proof (cases "js_Number p")
  case (Some n)
  show ?thesis
  proof (cases "js_find_index (id_is n) ss = -1")
    case False
    then obtain k where k: "js_find_index (id_is n) ss = int k" "k < length ss"
      "n = Fin (sid (ss ! k))" by (rule find_index_id_found)
    have tk: "student_decimal (ss ! k)" using ty k(2) by (simp add: list_all_length)
    with ty Some k b show ?thesis
      by (auto simp: replace_student_def Let_def student_decimal_def js_num_val_decimal
          split: option.splits intro!: list_all_nth_update)
  qed (use ty Some in \<open>simp add: replace_student_def\<close>)
qed (use ty in \<open>simp add: replace_student_def\<close>)

lemma patch_steps_decimal:
  "decimal_patching k ss \<Longrightarrow> pstep_holds (list_all student_decimal) (decimal_patching k) (patch_name k v ss)"
  "decimal_patching k ss \<Longrightarrow> (\<And>a. v = JNum a \<Longrightarrow> is_decimal a) \<Longrightarrow>
     pstep_holds (list_all student_decimal) (decimal_patching k) (patch_age k v ss)"
  "decimal_patching k ss \<Longrightarrow> pstep_holds (list_all student_decimal) (decimal_patching k) (patch_email n k v ss)"
  "decimal_patching k ss \<Longrightarrow> pstep_holds (list_all student_decimal) (decimal_patching k) (patch_active k v ss)"
  by (auto simp: patch_name_def patch_age_def patch_email_def patch_active_def pstep_holds_def
      decimal_patching_def student_decimal_def list_all_length nth_list_update
      split: jsval.splits option.splits)

lemma patch_student_decimal:
  assumes b: "json_value b" and ty: "list_all student_decimal ss"
  shows "list_all student_decimal (outcome_students (patch_student ss p b))"
proof (cases "js_Number p")
  case (Some n)
  show ?thesis
  proof (cases "js_find_index (id_is n) ss = -1")
    case False
    then obtain k where k: "js_find_index (id_is n) ss = int k" "k < length ss"
      "n = Fin (sid (ss ! k))" by (rule find_index_id_found)
    let ?r = "pbind (pbind (pbind (patch_name k (body_field b ''name'') ss)
                                  (patch_age k (body_field b ''age'')))
                           (patch_email n k (body_field b ''email'')))
                    (patch_active k (body_field b ''isActive''))"
    have start: "decimal_patching k ss" using ty k by (simp add: decimal_patching_def)
    have age: "\<And>a. body_field b ''age'' = JNum a \<Longrightarrow> is_decimal a" using body_field_json [OF b] .
    have "pstep_holds (list_all student_decimal) (decimal_patching k) ?r"
      by (intro pbind_holds patch_steps_decimal start age) assumption+
    with Some k show ?thesis
      by (auto simp: patch_student_def pstep_holds_def decimal_patching_def split: pstep.splits)
  qed (use ty Some in \<open>simp add: patch_student_def\<close>)
qed (use ty in \<open>simp add: patch_student_def\<close>)

lemma delete_student_decimal:
  "list_all student_decimal ss \<Longrightarrow> list_all student_decimal (outcome_students (delete_student ss p))"
  by (auto simp: delete_student_def Let_def split: option.splits intro: list_all_remove_nth)

lemma app_dispatch_decimal:
  "json_value b \<Longrightarrow> list_all student_decimal ss \<Longrightarrow>
     list_all student_decimal (outcome_students (app_dispatch lib secret now ss req b))"
  by (rule app_dispatch_preserves_body [where P = "list_all student_decimal"])
     (simp_all add: create_student_decimal replace_student_decimal patch_student_decimal
       delete_student_decimal)

section \<open>Lemmas: memory and file\<close>

lemma keeps_on_reply_Reply [simp]: "keeps_on_reply ss (Reply ss r)"
  by (simp add: keeps_on_reply_def)

lemma keeps_on_reply_handlers:
  "keeps_on_reply ss (list_students ss)" "keeps_on_reply ss (get_student ss p)"
  "keeps_on_reply ss (create_student ss b)" "keeps_on_reply ss (replace_student ss p b)"
  "keeps_on_reply ss (delete_student ss p)"
  by (auto simp: keeps_on_reply_def list_students_def get_student_def create_student_def
      replace_student_def delete_student_def Let_def split: option.splits outcome.splits)

lemma keeps_on_reply_guarded:
  "(\<And>u. keeps_on_reply ss (h u)) \<Longrightarrow> keeps_on_reply ss (guarded g req ss h)"
  by (simp add: guarded_def split: sum.splits)

lemma keeps_on_reply_with_param:
  "(\<And>x. keeps_on_reply ss (h x)) \<Longrightarrow> keeps_on_reply ss (with_param raw ss h)"
  by (simp add: with_param_def split: sum.splits)

lemma match_students_route_RPatch:
  "match_students_route m p = Some (RPatch raw) \<Longrightarrow> m = PATCH"
  by (auto simp: match_students_route_def split: if_splits)

lemma students_router_keeps:
  assumes "req_method req \<noteq> PATCH" and "students_router g1 g2 ss req p b = Some oc"
  shows "keeps_on_reply ss oc"
proof -
  from assms(2) obtain rt where rt: "match_students_route (req_method req) p = Some rt"
    by (auto simp: students_router_def dispatch_route_def)
  with assms(1) have "\<forall>raw. rt \<noteq> RPatch raw" by (auto dest: match_students_route_RPatch)
  with assms(2) rt show ?thesis
    by (cases rt) (auto simp: students_router_def dispatch_route_def keeps_on_reply_handlers
        intro!: keeps_on_reply_guarded keeps_on_reply_with_param)
qed

lemma app_dispatch_keeps:
  "req_method req \<noteq> PATCH \<Longrightarrow> keeps_on_reply ss (app_dispatch lib secret now ss req b)"
  by (auto simp: app_dispatch_def Let_def split: option.splits intro: students_router_keeps)

lemma in_sync_saveStudents: "list_all student_decimal (students st) \<Longrightarrow> in_sync (saveStudents st)"
  using loadStudents_saveStudents [of st] by (simp add: in_sync_def saveStudents_def)

lemma in_sync_decimal: "in_sync st \<Longrightarrow> list_all student_decimal (students st)"
  by (simp add: in_sync_def loadStudents_decimal)

lemma run_outcome_sync:
  assumes "in_sync st" "write_error e = None" "keeps_on_reply (students st) oc"
    "list_all student_decimal (outcome_students oc)"
  shows "in_sync (snd (run_outcome e st oc))"
  using assms by (cases oc) (simp_all add: run_outcome_def keeps_on_reply_def in_sync_saveStudents)



text \<open>C23: the body parser and CORS run before any route or guard: a body that fails to
  parse is answered by the error handler with the parser's status, and a preflight
  \<open>OPTIONS\<close> request by 204 with no body; neither changes the store or the file.\<close>

theorem handle_request_before_routes:
  "(req_body req = BadBody n msg \<longrightarrow>
      handle_request lib secret e st req = (error_handler (Some n) msg, st))
   \<and> (req_method req = OPTIONS \<and> req_body req = JsonBody b \<longrightarrow>
      handle_request lib secret e st req = (preflight, st) \<and> status preflight = 204)"
  by (simp add: handle_request_def app_dispatch_def run_outcome_def preflight_def)


section \<open>Routing of the documented protected path\<close>

lemma js_Number_protected: "js_Number ''protected'' = None"
  by code_simp

text \<open>C24: the login response tells clients to use the token on
  \<open>/students/protected\<close>, but no such route exists: \<open>GET /students/protected\<close> is
  routed to \<open>GET /:id\<close> with id \<open>protected\<close>, which is not a number, so it is answered
  400 ``Invalid ID'' whether or not a token is sent, and the store is untouched.\<close>

theorem students_protected_is_invalid_id:
  assumes "req_method req = GET" and "url_path (url req) = ''/students/protected''"
  shows "app_dispatch lib secret now ss req b = Reply ss invalid_id"
  using assms js_Number_protected
  by (simp add: app_dispatch_def Let_def match_app_route_def is_get_def route_is_def js_lower_def
      js_lower_char_def mount_rest_def students_router_def dispatch_route_def match_students_route_def route_param_def
      with_param_def decode_param_no_percent get_student_def)

section \<open>The cookie session\<close>

lemma jar_cookie_set:
  "map_of (jar_after (r\<lparr>cookie_ops := [SetCookie k v]\<rparr>) jar) k = Some (JStr v)"
  by (simp add: jar_after_def)

lemma jar_cookie_cleared:
  "map_of (jar_after (r\<lparr>cookie_ops := [ClearCookie k]\<rparr>) jar) k = None"
  by (auto simp: jar_after_def map_of_eq_None_iff)

text \<open>C25: a successful cookie login makes the client's next requests pass
  \<open>requireCookieLogin\<close> (with the fixed identity), and after a cookie logout they are
  rejected with 401 again, whatever else the jar holds.\<close>

theorem cookie_session_lifecycle:
  assumes "credentials_ok b"
  shows "requireCookieLogin (req\<lparr>cookies := jar_after (login_cookie b) jar\<rparr>) = Inr cookie_user
       \<and> (\<exists>r. requireCookieLogin
                 (req\<lparr>cookies := jar_after logout_cookie (jar_after (login_cookie b) jar)\<rparr>) = Inl r
              \<and> status r = 401)"
proof -
  have pres: "credentials_present b" using assms by (rule credentials_ok_present)
  have "map_of (jar_after (login_cookie b) jar) ''sessionId'' = Some (JStr ''dummy-session-id'')"
    using assms pres by (simp add: login_cookie_def jar_cookie_set)
  then have "requireCookieLogin (req\<lparr>cookies := jar_after (login_cookie b) jar\<rparr>) = Inr cookie_user"
    by (simp add: requireCookieLogin_def req_cookie_def)
  moreover have "map_of (jar_after logout_cookie jar') ''sessionId'' = None" for jar'
    by (simp add: logout_cookie_def jar_cookie_cleared)
  then have "\<exists>r. requireCookieLogin
                 (req\<lparr>cookies := jar_after logout_cookie (jar_after (login_cookie b) jar)\<rparr>) = Inl r
              \<and> status r = 401"
    by (simp add: requireCookieLogin_def req_cookie_def json_reply_def)
  ultimately show ?thesis by blast
qed

section \<open>Types, statuses and progress\<close>

text \<open>C33: every record the server stores has a positive age and a positive integer id,
  after any sequence of requests, if the records it started from had: create assigns
  \<open>maxId + 1\<close> and checks the age, replace keeps the id and checks the age, patch keeps
  the id and refuses a non-positive age.\<close>

lemma serve_Cons_snd:
  "snd (serve lib secret st ((e, req) # rest)) =
     snd (serve lib secret (snd (handle_request lib secret e st req)) rest)"
  by (simp split: prod.splits)

theorem serve_typed:
  "list_all student_typed (students st) \<Longrightarrow>
     list_all student_typed (students (snd (serve lib secret st reqs)))"
proof (induction reqs arbitrary: st)
  case Nil
  then show ?case by simp
next
  case (Cons er reqs)
  obtain e req where er: "er = (e, req)" by (cases er)
  have "list_all student_typed (students (snd (handle_request lib secret e st req)))"
    using Cons.prems by (rule handle_request_typed)
  from Cons.IH [OF this] show ?case
    unfolding er serve_Cons_snd .
qed

lemma guard_statuses:
  "requireJwt lib secret now req = Inl r \<Longrightarrow> status r = 401"
  "requireCookieLogin req = Inl r \<Longrightarrow> status r = 401"
  by (auto simp: requireJwt_def requireCookieLogin_def Let_def jwt_missing_def jwt_bad_format_def
      jwt_invalid_def json_reply_def split: option.splits if_splits sum.splits)

lemma app_handler_status: "status (app_handler lib secret now_ms req b rt) \<in> {200, 400, 401}"
  by (cases rt) (auto simp: app_handler_def Let_def login_jwt_def me_reply_def login_cookie_def
      logout_cookie_def invalid_credentials_def json_reply_def guard_statuses split: sum.splits)

lemma app_dispatch_status:
  "status (outcome_response (app_dispatch lib secret now_ms ss req b)) \<in> {200, 201, 204, 400, 401, 404, 409}"
proof -
  have "status (outcome_response oc) \<in> {200, 201, 400, 401, 404, 409}"
    if "students_router (requireJwt lib secret (now_ms div 1000)) requireCookieLogin ss req p b = Some oc"
    for p oc
    using that by (rule students_router_status [rotated 2]) (auto dest: guard_statuses)
  note rs = this
  let ?p = "url_path (url req)"
  show ?thesis
  proof (cases "req_method req = OPTIONS")
    case False
    show ?thesis
    proof (cases "match_app_route (req_method req) ?p")
      case (Some rt)
      with False app_handler_status [of lib secret now_ms req b rt] show ?thesis
        by (auto simp: app_dispatch_def)
    next
      case None
      with False rs show ?thesis
        by (auto simp: app_dispatch_def not_found_route_def json_reply_def split: option.splits)
    qed
  qed (simp add: app_dispatch_def preflight_def)
qed

text \<open>C34: a request whose body parsed is answered with one of the statuses 200, 201,
  204, 400, 401, 404, 409 or 500, and 500 only when the data file cannot be written.\<close>

theorem handle_request_status:
  assumes "req_body req = JsonBody b"
  shows "status (fst (handle_request lib secret e st req)) \<in> {200, 201, 204, 400, 401, 404, 409, 500}
         \<and> (status (fst (handle_request lib secret e st req)) = 500 \<longrightarrow> write_error e \<noteq> None)"
  using assms app_dispatch_status [of lib secret "clock_ms e" "students st" req b]
  by (auto simp: handle_request_def run_outcome_def error_handler_def json_reply_def
      split: outcome.splits option.splits)


end
