(* ===== verification/Collection.thy ===== *)
theory Collection
  imports JsNumber "HOL-Library.Multiset"
begin

text \<open>
  The export script \<^verbatim>\<open>src/scripts/generate_xlsx.js\<close>: it reads the Postman
  collection (a JSON value), flattens its folder tree into one row per request
  (\<open>collectItems\<close>, with \<open>safeJoinExec\<close> for the scripts and a regular expression for
  the expected status), sorts the rows into the sheets Auth, Students and Tests, and writes
  the non-empty sheets.  Every JavaScript exception the script can raise on an unexpected
  collection (a property read on \<open>null\<close>, a missing \<open>join\<close>, \<open>includes\<close> or
  \<open>toLowerCase\<close>) is a value \<open>Inl (TypeError msg)\<close> that aborts the export, as the
  uncaught exception does.  The file system (\<open>existsSync\<close>, \<open>readFileSync\<close>,
  \<open>writeFile\<close>) is the boundary: the input is the parsed collection or its absence, the
  output the sheets handed to \<open>xlsx\<close>.
\<close>

section \<open>Exceptions\<close>

datatype js_error = TypeError string

text \<open>Running the next statement only when the previous one did not throw.\<close>

definition ebind :: "'e + 'a \<Rightarrow> ('a \<Rightarrow> 'e + 'b) \<Rightarrow> 'e + 'b" where
  "ebind x f = (case x of Inl e \<Rightarrow> Inl e | Inr a \<Rightarrow> f a)"

lemma ebind_simps [simp]: "ebind (Inl e) f = Inl e" "ebind (Inr a) f = f a"
  by (simp_all add: ebind_def)

lemma ebind_cong [fundef_cong]:
  "x = y \<Longrightarrow> (\<And>a. y = Inr a \<Longrightarrow> f a = g a) \<Longrightarrow> ebind x f = ebind y g"
  by (cases y) simp_all

text \<open>\<open>v.k\<close> where \<open>v\<close> may be \<open>null\<close> or \<open>undefined\<close>, which throws.\<close>

definition js_get :: "jsval \<Rightarrow> string \<Rightarrow> js_error + jsval" where
  "js_get v k =
     (if v = JUndefined \<or> v = JNull
      then Inl (TypeError (''Cannot read properties of '' @ (if v = JNull then ''null'' else ''undefined'')
                           @ '' (reading '' @ [CHR 0x27] @ k @ [CHR 0x27] @ '')''))
      else Inr (js_prop v k))"

section \<open>Strings\<close>

text \<open>\<open>ToString\<close>, as string concatenation and \<open>join\<close> apply it; \<open>join\<close> prints
  \<open>null\<close> and \<open>undefined\<close> elements as empty strings.\<close>

fun js_to_string :: "jsval \<Rightarrow> string" where
  "js_to_string JUndefined = ''undefined''"
| "js_to_string JNull = ''null''"
| "js_to_string (JBool b) = (if b then ''true'' else ''false'')"
| "js_to_string (JNum n) = js_num_str (Fin n)"
| "js_to_string (JStr s) = s"
| "js_to_string (JArr vs) =
     join_sep '','' (map (\<lambda>v. if v = JUndefined \<or> v = JNull then [] else js_to_string v) vs)"
| "js_to_string (JObj kvs) = ''[object Object]''"

text \<open>\<open>Array.isArray(v)\<close>, with the elements.\<close>

fun as_array :: "jsval \<Rightarrow> jsval list option" where
  "as_array (JArr vs) = Some vs"
| "as_array _ = None"

lemma as_array_Some [simp]: "as_array v = Some xs \<longleftrightarrow> v = JArr xs"
  by (cases v) auto

text \<open>\<open>v.join(sep)\<close>: only arrays have \<open>join\<close>.\<close>

definition js_array_join :: "jsval \<Rightarrow> string \<Rightarrow> js_error + string" where
  "js_array_join v sep =
     (case v of
        JArr vs \<Rightarrow> Inr (join_sep sep (map (\<lambda>x. if x = JUndefined \<or> x = JNull then [] else js_to_string x) vs))
      | _ \<Rightarrow> Inl (TypeError ''join is not a function''))"

text \<open>\<open>s.includes(pat)\<close> on strings: \<open>pat\<close> occurs at some position of \<open>s\<close>.\<close>

fun str_includes :: "string \<Rightarrow> string \<Rightarrow> bool" where
  "str_includes [] pat = (pat = [])"
| "str_includes (c # cs) pat = (take (length pat) (c # cs) = pat \<or> str_includes cs pat)"

text \<open>\<open>v.includes(pat)\<close>: a substring test on strings, an element test on arrays,
  and a \<open>TypeError\<close> on every other value.\<close>

definition js_includes :: "jsval \<Rightarrow> string \<Rightarrow> js_error + bool" where
  "js_includes v pat =
     (case v of
        JStr s \<Rightarrow> Inr (str_includes s pat)
      | JArr vs \<Rightarrow> Inr (JStr pat \<in> set vs)
      | _ \<Rightarrow> Inl (TypeError ''includes is not a function''))"

definition js_to_lower :: "jsval \<Rightarrow> js_error + string" where
  "js_to_lower v = (case v of JStr s \<Rightarrow> Inr (js_lower s) | _ \<Rightarrow> Inl (TypeError ''toLowerCase is not a function''))"

section \<open>safeJoinExec (lines 9--15)\<close>

text \<open>\<open>eventArray.find(e => e.listen === listenName)\<close>; reading \<open>listen\<close> of a
  \<open>null\<close> element throws.\<close>

fun find_listener :: "string \<Rightarrow> jsval list \<Rightarrow> js_error + jsval option" where
  "find_listener l [] = Inr None"
| "find_listener l (e # es) =
     ebind (js_get e ''listen'') (\<lambda>v. if v = JStr l then Inr (Some e) else find_listener l es)"

text \<open>\<open>None\<close> is the \<open>undefined\<close> returned for a non-array \<open>event\<close>.\<close>

definition safeJoinExec :: "jsval \<Rightarrow> string \<Rightarrow> js_error + string option" where
  "safeJoinExec eventArray listenName =
     (case eventArray of
        JArr es \<Rightarrow>
          ebind (find_listener listenName es) (\<lambda>found.
            case found of
              None \<Rightarrow> Inr (Some [])
            | Some ev \<Rightarrow>
                let script = js_prop ev ''script'' in
                if \<not> js_truthy script then Inr (Some [])
                else ebind (js_array_join (js_or (js_prop script ''exec'') (JArr [])) [CHR 0x0A])
                       (\<lambda>s. Inr (Some s)))
      | _ \<Rightarrow> Inr None)"

section \<open>The expected status: \<open>/to.have.status\((\d{3})\)/\<close>\<close>

text \<open>\<open>.\<close> matches any character but a line terminator; \<open>\d\<close> is an ASCII digit.\<close>

definition regex_any :: "char \<Rightarrow> bool" where
  "regex_any c \<longleftrightarrow> c \<noteq> CHR 0x0A \<and> c \<noteq> CHR 0x0D"

text \<open>The pattern at the start of the string: the 19 characters
  \<open>to?have?status(ddd)\<close>, with the captured digits.\<close>

definition status_at :: "string \<Rightarrow> string option" where
  "status_at s =
     (let p = take 19 s in
      if length p = 19 \<and> take 2 p = ''to'' \<and> regex_any (p ! 2) \<and> take 4 (drop 3 p) = ''have''
         \<and> regex_any (p ! 7) \<and> take 7 (drop 8 p) = ''status('' \<and> list_all is_dec (take 3 (drop 15 p))
         \<and> p ! 18 = CHR '')''
      then Some (take 3 (drop 15 p)) else None)"

text \<open>\<open>s.match(re)\<close> without the \<open>g\<close> flag: the leftmost match.\<close>

fun regex_status :: "string \<Rightarrow> string option" where
  "regex_status [] = None"
| "regex_status (c # cs) = (case status_at (c # cs) of Some ds \<Rightarrow> Some ds | None \<Rightarrow> regex_status cs)"

text \<open>\<open>expectedStatus\<close> as the row holds it: \<open>Number(m[1]) || ''\<close>.\<close>

definition expected_status :: "string \<Rightarrow> jsval" where
  "expected_status script =
     (case regex_status script of
        Some ds \<Rightarrow> if dec_val ds = 0 then JStr [] else JNum (of_nat (dec_val ds))
      | None \<Rightarrow> JStr [])"

section \<open>collectItems (lines 17--63)\<close>

record row =
  row_collection :: jsval
  row_name :: jsval
  row_method :: jsval
  row_url :: jsval
  row_pre_request :: string
  row_test_script :: string
  row_expected :: jsval
  row_notes :: string

text \<open>The \<open>url\<close> of a request (lines 30--35): a string, \<open>url.raw\<close>, or the URL built
  from protocol, host and path.\<close>

definition request_url :: "jsval \<Rightarrow> js_error + jsval" where
  "request_url request =
     (let u = js_prop request ''url'' in
      if \<not> js_truthy u then Inr (JStr [])
      else if js_typeof u = ''string'' then Inr u
      else if js_truthy (js_prop u ''raw'') then Inr (js_prop u ''raw'')
      else if js_truthy (js_prop u ''host'') then
        (let proto = js_prop u ''protocol''; host = js_prop u ''host''; path = js_prop u ''path'';
             pre = (if js_truthy proto then js_to_string proto @ ''://'' else []);
             h = (case host of
                    JArr hs \<Rightarrow> join_sep ''.'' (map (\<lambda>x. if x = JUndefined \<or> x = JNull then [] else js_to_string x) hs)
                  | _ \<Rightarrow> js_to_string host)
         in if js_truthy path then ebind (js_array_join path ''/'') (\<lambda>p. Inr (JStr (pre @ h @ ''/'' @ p)))
            else Inr (JStr (pre @ h)))
      else Inr (JStr []))"

definition opt_str :: "string option \<Rightarrow> string" where
  "opt_str x = (case x of Some s \<Rightarrow> s | None \<Rightarrow> [])"

text \<open>The row of one request item (lines 27--59).\<close>

definition item_row :: "jsval \<Rightarrow> jsval \<Rightarrow> js_error + row" where
  "item_row item parentName =
     (let name = js_or (js_prop item ''name'') (JStr []);
          request = js_or (js_prop item ''request'') (JObj []);
          method = js_or (js_prop request ''method'') (JStr [])
      in ebind (request_url request) (\<lambda>url.
         ebind (safeJoinExec (js_prop item ''event'') ''prerequest'') (\<lambda>preReq.
         ebind (safeJoinExec (js_prop item ''event'') ''test'') (\<lambda>testScript.
         ebind (js_includes url ''/auth'') (\<lambda>isAuth.
         ebind (js_includes url ''/students'') (\<lambda>isStudents.
         ebind (js_to_lower name) (\<lambda>lname.
           let isError = str_includes lname ''error'' \<or> str_includes lname ''invalid''
                         \<or> str_includes lname ''not found'';
               notes = (if isAuth then [''Auth''] else []) @ (if isStudents then [''Students''] else [])
                       @ (if isError then [''Error case''] else [])
           in Inr \<lparr>row_collection = js_or parentName (JStr []), row_name = name, row_method = method,
                   row_url = url, row_pre_request = opt_str preReq, row_test_script = opt_str testScript,
                   row_expected = expected_status (opt_str testScript),
                   row_notes = join_sep ''; '' notes\<rparr>)))))))"

lemma js_prop_size: "js_prop v k = x \<Longrightarrow> x \<noteq> JUndefined \<Longrightarrow> size x < size v"
proof (cases v)
  case (JObj kvs)
  assume p: "js_prop v k = x" and d: "x \<noteq> JUndefined"
  with JObj have "map_of (rev kvs) k = Some x"
    by (auto simp: js_prop_def split: option.splits)
  then have "(k, x) \<in> set kvs" by (auto dest: map_of_SomeD)
  then have "size x < Suc (size_list (size_prod (\<lambda>_. 0) size) kvs)"
    by (induction kvs) auto
  with JObj show ?thesis by simp
qed (auto simp: js_prop_def)

lemma js_get_size: "js_get v k = Inr (JArr xs) \<Longrightarrow> size_list size xs < size v"
  using js_prop_size [of v k "JArr xs"] by (auto simp: js_get_def split: if_splits)

text \<open>The \<open>forEach\<close> over the items of one level: a folder (an item whose
  \<open>item\<close> is an array) contributes the rows of its items, under its name or the
  parent's; any other item its own row.\<close>

function collect_items :: "jsval list \<Rightarrow> jsval \<Rightarrow> js_error + row list" where
  "collect_items [] parentName = Inr []"
| "collect_items (item # rest) parentName =
     ebind (js_get item ''item'') (\<lambda>sub.
       case as_array sub of
         Some subitems \<Rightarrow>
           ebind (collect_items subitems (js_or (js_prop item ''name'') parentName)) (\<lambda>rs.
             ebind (collect_items rest parentName) (\<lambda>rs'. Inr (rs @ rs')))
       | None \<Rightarrow>
           ebind (item_row item parentName) (\<lambda>r.
             ebind (collect_items rest parentName) (\<lambda>rs'. Inr (r # rs'))))"
  by pat_completeness auto
termination
  by (relation "measure (\<lambda>(items, p). size_list size items)") (auto dest!: js_get_size)

definition collectItems :: "jsval \<Rightarrow> jsval \<Rightarrow> js_error + row list" where
  "collectItems items parentName =
     (case items of
        JArr its \<Rightarrow> collect_items its parentName
      | _ \<Rightarrow> Inl (TypeError ''items.forEach is not a function''))"

section \<open>Sheets and the script's main (lines 65--113)\<close>

datatype sheet = AuthSheet | StudentsSheet | TestsSheet

text \<open>The sheet of a row (lines 85--92); \<open>r.Name.toLowerCase()\<close> is evaluated only
  when the URL does not contain \<open>/auth\<close>.\<close>

definition row_sheet :: "row \<Rightarrow> js_error + sheet" where
  "row_sheet r =
     ebind (js_to_lower (js_or (row_url r) (JStr []))) (\<lambda>url.
       if str_includes url ''/auth'' then Inr AuthSheet
       else ebind (js_to_lower (row_name r)) (\<lambda>nm.
         if str_includes nm ''auth'' then Inr AuthSheet
         else if str_includes url ''/students'' \<or> str_includes nm ''student'' then Inr StudentsSheet
         else Inr TestsSheet))"

fun categorize :: "row list \<Rightarrow> js_error + row list \<times> row list \<times> row list" where
  "categorize [] = Inr ([], [], [])"
| "categorize (r # rs) =
     ebind (row_sheet r) (\<lambda>sh. ebind (categorize rs) (\<lambda>(a, s, t).
       Inr (case sh of
              AuthSheet \<Rightarrow> (r # a, s, t)
            | StudentsSheet \<Rightarrow> (a, r # s, t)
            | TestsSheet \<Rightarrow> (a, s, r # t))))"

text \<open>The sheets appended to the workbook: the non-empty ones, in this order.\<close>

definition workbook :: "row list \<times> row list \<times> row list \<Rightarrow> (string \<times> row list) list" where
  "workbook c =
     (case c of (a, s, t) \<Rightarrow>
        filter (\<lambda>(_, rs). rs \<noteq> []) [(''Auth'', a), (''Students'', s), (''Tests'', t)])"

datatype export_result = CollectionMissing | Thrown js_error | Written "(string \<times> row list) list"

text \<open>The parent name of the top level (line 82).\<close>

definition collection_name :: "jsval \<Rightarrow> jsval" where
  "collection_name coll =
     (let info = js_prop coll ''info'' in
      if js_truthy info \<and> js_truthy (js_prop info ''name'') then js_prop info ''name'' else JStr ''Collection'')"

text \<open>\<open>main()\<close>: \<open>None\<close> is a missing collection file (exit code 2); otherwise the
  parsed collection.\<close>

definition generate_xlsx :: "jsval option \<Rightarrow> export_result" where
  "generate_xlsx file =
     (case file of
        None \<Rightarrow> CollectionMissing
      | Some coll \<Rightarrow>
          (case ebind (js_get coll ''item'') (\<lambda>it.
                  ebind (collectItems (js_or it (JArr [])) (collection_name coll)) categorize) of
             Inl e \<Rightarrow> Thrown e
           | Inr c \<Rightarrow> Written (workbook c)))"

section \<open>A reference traversal\<close>

text \<open>The request items of a collection tree in depth-first order, each with the name
  its row is filed under: the nearest enclosing folder with a non-empty name, or the
  collection's.\<close>

function leaf_items :: "jsval list \<Rightarrow> jsval \<Rightarrow> js_error + (jsval \<times> jsval) list" where
  "leaf_items [] p = Inr []"
| "leaf_items (item # rest) p =
     ebind (js_get item ''item'') (\<lambda>sub.
       case as_array sub of
         Some subitems \<Rightarrow>
           ebind (leaf_items subitems (js_or (js_prop item ''name'') p)) (\<lambda>ls.
             ebind (leaf_items rest p) (\<lambda>ls'. Inr (ls @ ls')))
       | None \<Rightarrow> ebind (leaf_items rest p) (\<lambda>ls'. Inr ((item, p) # ls')))"
  by pat_completeness auto
termination
  by (relation "measure (\<lambda>(items, p). size_list size items)") (auto dest!: js_get_size)

text \<open>Applying a throwing function to every element, stopping at the first exception.\<close>

fun map_all :: "('a \<Rightarrow> 'e + 'b) \<Rightarrow> 'a list \<Rightarrow> 'e + 'b list" where
  "map_all f [] = Inr []"
| "map_all f (x # xs) = ebind (f x) (\<lambda>y. ebind (map_all f xs) (\<lambda>ys. Inr (y # ys)))"

section \<open>Lemmas\<close>

lemma ebind_eq_Inr [simp]: "ebind x f = Inr b \<longleftrightarrow> (\<exists>a. x = Inr a \<and> f a = Inr b)"
  by (cases x) simp_all

lemma map_all_append:
  "map_all f (xs @ ys) = Inr zs \<longleftrightarrow> (\<exists>a b. map_all f xs = Inr a \<and> map_all f ys = Inr b \<and> zs = a @ b)"
  by (induction xs arbitrary: zs) fastforce+

lemma categorize_Inr:
  "categorize rs = Inr (a, s, t) \<Longrightarrow>
     a = filter (\<lambda>r. row_sheet r = Inr AuthSheet) rs \<and> s = filter (\<lambda>r. row_sheet r = Inr StudentsSheet) rs
     \<and> t = filter (\<lambda>r. row_sheet r = Inr TestsSheet) rs"
proof (induction rs arbitrary: a s t)
  case Nil
  then show ?case by simp
next
  case (Cons r rs)
  then obtain sh a' s' t' where sh: "row_sheet r = Inr sh" and rest: "categorize rs = Inr (a', s', t')"
    and res: "Inr (a, s, t) = Inr (case sh of AuthSheet \<Rightarrow> (r # a', s', t') | StudentsSheet \<Rightarrow> (a', r # s', t')
                                 | TestsSheet \<Rightarrow> (a', s', r # t'))"
    by (auto split: prod.splits)
  from Cons.IH [OF rest] sh res show ?case by (cases sh) auto
qed

lemma status_at_pattern:
  "list_all is_dec [d1, d2, d3] \<Longrightarrow>
     status_at (''to.have.status('' @ [d1, d2, d3] @ '')'' @ post) = Some [d1, d2, d3]"
  by (simp add: status_at_def regex_any_def)

lemma regex_status_skip:
  "(\<forall>i<length pre. status_at (drop i (pre @ s)) = None) \<Longrightarrow> regex_status (pre @ s) = regex_status s"
proof (induction pre)
  case Nil
  then show ?case by simp
next
  case (Cons c pre)
  from Cons.prems have "status_at (c # pre @ s) = None" by (metis drop0 length_Cons zero_less_Suc append_Cons)
  moreover have "\<forall>i<length pre. status_at (drop i (pre @ s)) = None"
    using Cons.prems by (metis Suc_mono drop_Suc_Cons length_Cons append_Cons)
  ultimately show ?case using Cons.IH by simp
qed

lemma categorize_ok: "categorize rs = Inr c \<Longrightarrow> \<forall>r\<in>set rs. \<exists>sh. row_sheet r = Inr sh"
  by (induction rs arbitrary: c) (fastforce split: prod.splits)+

lemma mset_sheet_filters:
  "\<forall>r\<in>set rs. \<exists>sh. row_sheet r = Inr sh \<Longrightarrow>
     mset (filter (\<lambda>r. row_sheet r = Inr AuthSheet) rs) + mset (filter (\<lambda>r. row_sheet r = Inr StudentsSheet) rs)
     + mset (filter (\<lambda>r. row_sheet r = Inr TestsSheet) rs) = mset rs"
proof (induction rs)
  case (Cons r rs)
  then obtain sh where "row_sheet r = Inr sh" by auto
  with Cons show ?case by (cases sh) auto
qed simp

section \<open>Properties of the export\<close>


text \<open>C27: \<open>collectItems\<close> succeeds exactly when the depth-first list of request
  items can be read and every item's row can be built, and its rows are then those rows
  in that order: nested folders are flattened in place, each row filed under its
  nearest named folder.\<close>

theorem collect_items_flat:
  "collect_items items p = Inr rows \<longleftrightarrow>
     (\<exists>ls. leaf_items items p = Inr ls \<and> map_all (\<lambda>(it, q). item_row it q) ls = Inr rows)"
proof (induction items p arbitrary: rows rule: collect_items.induct)
  case (1 parentName)
  then show ?case by auto
next
  case (2 item rest parentName)
  show ?case
  proof (cases "js_get item ''item''")
    case (Inl e)
    then show ?thesis by simp
  next
    case (Inr sub)
    show ?thesis
    proof (cases "as_array sub")
      case (Some xs)
      let ?q = "js_or (js_prop item ''name'') parentName"
      let ?f = "\<lambda>(it, q). item_row it q"
      note IHs = "2.IH"(2) [OF Inr Some] "2.IH"(3) [OF Inr Some]
      have lhs: "collect_items (item # rest) parentName =
                   ebind (collect_items xs ?q) (\<lambda>rs. ebind (collect_items rest parentName) (\<lambda>rs'. Inr (rs @ rs')))"
        using Inr Some by simp
      have rhs: "leaf_items (item # rest) parentName =
                   ebind (leaf_items xs ?q) (\<lambda>ls. ebind (leaf_items rest parentName) (\<lambda>ls'. Inr (ls @ ls')))"
        using Inr Some by simp
      show ?thesis
      proof
        assume "collect_items (item # rest) parentName = Inr rows"
        with lhs obtain rs rs' where a: "collect_items xs ?q = Inr rs"
          and b: "collect_items rest parentName = Inr rs'" and r: "rows = rs @ rs'" by auto
        from a IHs(1) obtain ls1 where "leaf_items xs ?q = Inr ls1" "map_all ?f ls1 = Inr rs" by blast
        moreover from b IHs(2) [OF a] obtain ls2 where "leaf_items rest parentName = Inr ls2"
          "map_all ?f ls2 = Inr rs'" by blast
        ultimately show "\<exists>ls. leaf_items (item # rest) parentName = Inr ls \<and> map_all ?f ls = Inr rows"
          using rhs r by (auto simp: map_all_append)
      next
        assume "\<exists>ls. leaf_items (item # rest) parentName = Inr ls \<and> map_all ?f ls = Inr rows"
        with rhs obtain ls1 ls2 where l1: "leaf_items xs ?q = Inr ls1" and l2: "leaf_items rest parentName = Inr ls2"
          and m: "map_all ?f (ls1 @ ls2) = Inr rows" by auto
        from m obtain a b where ma: "map_all ?f ls1 = Inr a" and mb: "map_all ?f ls2 = Inr b"
          and r: "rows = a @ b" by (auto simp: map_all_append)
        from l1 ma IHs(1) have ca: "collect_items xs ?q = Inr a" by blast
        from l2 mb IHs(2) [OF ca] have "collect_items rest parentName = Inr b" by blast
        with lhs ca r show "collect_items (item # rest) parentName = Inr rows" by simp
      qed
    next
      case None
      show ?thesis
        using "2.IH"(1) [OF Inr None] Inr None by (cases "item_row item parentName") auto
    qed
  qed
qed

text \<open>C28: the sheets partition the rows: Auth, Students and Tests receive, in their
  original order, exactly the rows \<open>row_sheet\<close> assigns to them, and together they hold
  every row once.\<close>

theorem categorize_partition:
  assumes "categorize rs = Inr (a, s, t)"
  shows "a = filter (\<lambda>r. row_sheet r = Inr AuthSheet) rs
       \<and> s = filter (\<lambda>r. row_sheet r = Inr StudentsSheet) rs
       \<and> t = filter (\<lambda>r. row_sheet r = Inr TestsSheet) rs
       \<and> mset a + mset s + mset t = mset rs"
proof -
  have "mset (filter (\<lambda>r. row_sheet r = Inr AuthSheet) rs) + mset (filter (\<lambda>r. row_sheet r = Inr StudentsSheet) rs)
        + mset (filter (\<lambda>r. row_sheet r = Inr TestsSheet) rs) = mset rs"
    using categorize_ok [OF assms] by (rule mset_sheet_filters)
  with categorize_Inr [OF assms] show ?thesis by simp
qed


text \<open>C30: one request item the script cannot read (for instance a \<open>url.path\<close> that is
  a string, which has no \<open>join\<close>) aborts the whole export: no rows, no workbook.\<close>

theorem collect_items_error_aborts:
  assumes "item_row it q = Inl e" and "js_get it ''item'' = Inr v" and "as_array v = None"
  shows "\<exists>e'. collect_items (pre @ it # post) q = Inl e'"
proof (induction pre)
  case Nil
  from assms have "collect_items (it # post) q = Inl e" by simp
  then show ?case by simp
next
  case (Cons x pre)
  then obtain e' where e': "collect_items (pre @ it # post) q = Inl e'" by blast
  show ?case
  proof (cases "collect_items (x # pre @ it # post) q")
    case (Inr rows)
    with e' show ?thesis
      by (auto split: option.splits)
  qed simp
qed

text \<open>C31: a workbook that is written holds every row of the collection exactly once,
  in sheets named Auth, Students and Tests in this order, none of them empty.\<close>

theorem generate_xlsx_sheets:
  assumes "generate_xlsx (Some coll) = Written sheets"
  shows "\<exists>rows. collectItems (js_or (js_prop coll ''item'') (JArr [])) (collection_name coll) = Inr rows
           \<and> mset (concat (map snd sheets)) = mset rows
           \<and> (\<forall>sh\<in>set sheets. snd sh \<noteq> [])
           \<and> map fst sheets \<in> set (subseqs [''Auth'', ''Students'', ''Tests''])"
proof -
  from assms obtain rows a s t where
    g: "js_get coll ''item'' = Inr (js_prop coll ''item'')"
    and rows: "collectItems (js_or (js_prop coll ''item'') (JArr [])) (collection_name coll) = Inr rows"
    and c: "categorize rows = Inr (a, s, t)" and sh: "sheets = workbook (a, s, t)"
    by (auto simp: generate_xlsx_def js_get_def split: if_splits sum.splits)
  from categorize_Inr [OF c] mset_sheet_filters [OF categorize_ok [OF c]]
  have m: "mset a + mset s + mset t = mset rows" by simp
  have "mset (concat (map snd sheets)) = mset a + mset s + mset t"
    by (simp add: sh workbook_def)
  moreover have "\<forall>x\<in>set sheets. snd x \<noteq> []" by (auto simp: sh workbook_def)
  moreover have "map fst sheets \<in> set (subseqs [''Auth'', ''Students'', ''Tests''])"
    by (cases "a = []"; cases "s = []"; cases "t = []") (simp_all add: sh workbook_def)
  ultimately show ?thesis using rows m by auto
qed

end
