(* ===== verification/RenderScript.thy ===== *)
theory RenderScript
  imports Prelude
begin

text \<open>
  The helper \<^verbatim>\<open>scripts/render_demo_with_terminalizer.sh\<close> (\<^verbatim>\<open>src/unnamed/part_001\<close>),
  a Bash script run with \<open>set -euo pipefail\<close>: it takes the recording name and the GIF
  path from its arguments (with defaults), stops with status 1 when \<open>terminalizer\<close> is
  not on the \<open>PATH\<close>, creates the output directory, renders and reports.  The
  environment is what the commands it runs answer: whether \<open>command -v terminalizer\<close>
  succeeds and the exit statuses of \<open>mkdir -p\<close> and \<open>terminalizer render\<close>; under
  \<open>set -e\<close> a failing command ends the script with its status.  The run is the list of
  commands and messages in order, with the exit status.
\<close>

record render_env =
  terminalizer_found :: bool
  mkdir_status :: nat
  render_status :: nat

datatype shell_action = Echo string | Mkdir string | Render string string

text \<open>\<open>${n:-default}\<close>: the argument when it is set and not empty.\<close>

definition arg_or :: "string list \<Rightarrow> nat \<Rightarrow> string \<Rightarrow> string" where
  "arg_or args n d = (if n < length args \<and> args ! n \<noteq> [] then args ! n else d)"

text \<open>POSIX \<open>dirname\<close>: the path without its last component and the slashes before it;
  \<open>.\<close> when there is no slash, \<open>/\<close> when only the root is left.\<close>

definition dirname :: "string \<Rightarrow> string" where
  "dirname p =
     (let q = rev (dropWhile (\<lambda>c. c = CHR ''/'') (rev p)) in
      if p = [] then ''.''
      else if q = [] then ''/''
      else if CHR ''/'' \<notin> set q then ''.''
      else let d = rev (dropWhile (\<lambda>c. c = CHR ''/'') (dropWhile (\<lambda>c. c \<noteq> CHR ''/'') (rev q))) in
           if d = [] then ''/'' else d)"

text \<open>The script, lines 11--24.\<close>

definition render_demo :: "string list \<Rightarrow> render_env \<Rightarrow> shell_action list \<times> nat" where
  "render_demo args env =
     (let CAST_NAME = arg_or args 0 ''demo'';
          OUT_PATH = arg_or args 1 ''docs/demo.gif''
      in if \<not> terminalizer_found env then
           ([Echo ''terminalizer not found. Install it with: npm install -g terminalizer''], 1)
         else if mkdir_status env \<noteq> 0 then ([Mkdir (dirname OUT_PATH)], mkdir_status env)
         else
           let started = [Mkdir (dirname OUT_PATH),
                          Echo (''Rendering terminalizer recording '' @ [CHR 0x27] @ CAST_NAME @ [CHR 0x27]
                                @ '' to GIF at '' @ OUT_PATH),
                          Render CAST_NAME OUT_PATH]
           in if render_status env \<noteq> 0 then (started, render_status env)
              else (started @ [Echo (''Done. GIF saved to '' @ OUT_PATH)], 0))"

section \<open>Properties\<close>

lemma render_demo_cases:
  assumes "render_demo args env = (acts, code)"
  shows "(\<not> terminalizer_found env \<and> (\<exists>m. acts = [Echo m]) \<and> code = 1)
       \<or> (terminalizer_found env \<and> mkdir_status env \<noteq> 0
          \<and> acts = [Mkdir (dirname (arg_or args 1 ''docs/demo.gif''))] \<and> code = mkdir_status env)
       \<or> (terminalizer_found env \<and> mkdir_status env = 0
          \<and> (\<exists>m tl. acts = [Mkdir (dirname (arg_or args 1 ''docs/demo.gif'')), Echo m,
                            Render (arg_or args 0 ''demo'') (arg_or args 1 ''docs/demo.gif'')] @ tl
                   \<and> (\<forall>x\<in>set tl. \<exists>s. x = Echo s))
          \<and> (code = 0 \<longleftrightarrow> render_status env = 0))"
  using assms by (auto simp: render_demo_def Let_def split: if_splits)

text \<open>C32: the script succeeds exactly when terminalizer is found and both commands
  succeed; a rendering only happens after the output directory was created for that very
  path and never without terminalizer, and a missing terminalizer ends the run with
  status 1 before anything is created.\<close>

theorem render_demo_exit:
  assumes "render_demo args env = (acts, code)"
  shows "(code = 0 \<longleftrightarrow> terminalizer_found env \<and> mkdir_status env = 0 \<and> render_status env = 0)
       \<and> (\<forall>c out. Render c out \<in> set acts \<longrightarrow>
            terminalizer_found env \<and> mkdir_status env = 0 \<and>
            (\<exists>pre post. acts = pre @ Render c out # post \<and> Mkdir (dirname out) \<in> set pre))
       \<and> (\<not> terminalizer_found env \<longrightarrow> code = 1 \<and> (\<forall>d. Mkdir d \<notin> set acts))"
proof -
  let ?C = "arg_or args 0 ''demo''" and ?O = "arg_or args 1 ''docs/demo.gif''"
  from render_demo_cases [OF assms] show ?thesis
  proof (elim disjE conjE exE)
    fix m tl
    assume f: "terminalizer_found env" and mk: "mkdir_status env = 0"
      and acts: "acts = [Mkdir (dirname ?O), Echo m, Render ?C ?O] @ tl"
      and tl: "\<forall>x\<in>set tl. \<exists>s. x = Echo s" and c: "(code = 0) = (render_status env = 0)"
    have "\<exists>pre post. acts = pre @ Render c out # post \<and> Mkdir (dirname out) \<in> set pre"
      if "Render c out \<in> set acts" for c out
    proof -
      from that acts tl have "c = ?C" "out = ?O" by auto
      with acts show ?thesis by (intro exI [of _ "[Mkdir (dirname ?O), Echo m]"] exI [of _ tl]) simp
    qed
    with f mk c show ?thesis by auto
  qed auto
qed

end
